(* ===== verification/Prelude.thy ===== *)
theory Prelude
  imports Main "HOL-Library.Word" "HOL-Library.FSet" "HOL-Library.List_Lexorder"
    "HOL-Library.Char_ord"
begin

text \<open>
  Vocabulary shared by every component theory.

  \<^item> Names for the machine types of the Rust sources: unsigned integers are words, and
    the newtypes over \<open>Uuid\<close> are 128-bit words, whose order is the byte order that the sources rely
    on; a \<open>Sha256Digest\<close> is its list of bytes.  \<open>UnixMillis\<close> wraps an \<open>i64\<close> that is only ever compared,
    so it is an \<open>int\<close>.  A \<open>String\<close> that is validated byte by byte is the list of its UTF-8 bytes.
  \<^item> \<open>Result<T, E>\<close> is \<open>'e + 'a\<close>; \<open>and_then\<close> is the \<open>?\<close> operator (the continuation runs on
    \<open>Ok\<close>, an error is returned at once), \<open>map_err\<close>, \<open>ok_or\<close> and \<open>ensure\<close> are the combinators the
    sources use.
  \<^item> The checked integer operations of the standard library.
  \<^item> Reachability of a step relation, and the contract of an inductive invariant.
  \<^item> Binary search over a vector sorted by key, and the contract its callers rely on.
\<close>

section \<open>Collections of rewrite rules\<close>

named_theorems result_simps \<open>when a result computation succeeds\<close>
named_theorems checked_simps \<open>when a checked integer operation succeeds, and its value\<close>

section \<open>Machine types\<close>

type_synonym u8 = "8 word"
type_synonym u16 = "16 word"
type_synonym u32 = "32 word"
type_synonym u64 = "64 word"
type_synonym uuid = "128 word"
type_synonym Sha256Digest = "u8 list"
type_synonym UnixMillis = int

section \<open>Results\<close>

type_synonym ('a, 'e) result = "'e + 'a"

abbreviation Ok :: "'a \<Rightarrow> ('a, 'e) result" where
  "Ok \<equiv> Inr"

abbreviation Err :: "'e \<Rightarrow> ('a, 'e) result" where
  "Err \<equiv> Inl"

fun and_then :: "('a, 'e) result \<Rightarrow> ('a \<Rightarrow> ('b, 'e) result) \<Rightarrow> ('b, 'e) result" where
  "and_then (Inl e) f = Inl e"
| "and_then (Inr x) f = f x"

fun map_err :: "('e \<Rightarrow> 'f) \<Rightarrow> ('a, 'e) result \<Rightarrow> ('a, 'f) result" where
  "map_err f (Inl e) = Inl (f e)"
| "map_err f (Inr x) = Inr x"

fun ok_or :: "'e \<Rightarrow> 'a option \<Rightarrow> ('a, 'e) result" where
  "ok_or e None = Inl e"
| "ok_or e (Some x) = Inr x"

definition ensure :: "bool \<Rightarrow> 'e \<Rightarrow> (unit, 'e) result" where
  "ensure b e = (if b then Inr () else Inl e)"

fun is_ok :: "('a, 'e) result \<Rightarrow> bool" where
  "is_ok (Inl e) = False"
| "is_ok (Inr x) = True"

text \<open>The loop \<open>for x in xs { f(x)?; }\<close>.\<close>

fun for_each :: "('a \<Rightarrow> (unit, 'e) result) \<Rightarrow> 'a list \<Rightarrow> (unit, 'e) result" where
  "for_each f [] = Inr ()"
| "for_each f (x # xs) = and_then (f x) (\<lambda>_. for_each f xs)"

text \<open>The loop \<open>for x in xs { s = f(x, s)?; }\<close>.\<close>

fun try_fold :: "('a \<Rightarrow> 's \<Rightarrow> ('s, 'e) result) \<Rightarrow> 'a list \<Rightarrow> 's \<Rightarrow> ('s, 'e) result" where
  "try_fold f [] s = Inr s"
| "try_fold f (x # xs) s = and_then (f x s) (\<lambda>s'. try_fold f xs s')"

text \<open>The \<open>?\<close> operator on a computation that may not return.\<close>

definition and_then_opt ::
  "('a, 'e) result option \<Rightarrow> ('a \<Rightarrow> ('b, 'e) result option) \<Rightarrow> ('b, 'e) result option" where
  "and_then_opt r f = (case r of None \<Rightarrow> None | Some (Inl e) \<Rightarrow> Some (Err e) | Some (Inr x) \<Rightarrow> f x)"

lemma and_then_eq_Inr [result_simps]:
  "and_then r f = Inr y \<longleftrightarrow> (\<exists>x. r = Inr x \<and> f x = Inr y)"
  by (cases r) auto

lemma and_then_eq_Inl:
  "and_then r f = Inl e \<longleftrightarrow> r = Inl e \<or> (\<exists>x. r = Inr x \<and> f x = Inl e)"
  by (cases r) auto

lemma and_then_opt_simps [simp]:
  "and_then_opt None f = None" "and_then_opt (Some (Err e)) f = Some (Err e)" "and_then_opt (Some (Ok x)) f = f x"
  by (simp_all add: and_then_opt_def)

lemma and_then_opt_returns: "(\<And>x. \<exists>r. f x = Some r) \<Longrightarrow> \<exists>r. and_then_opt (Some q) f = Some r"
  by (cases q) (auto simp: and_then_opt_def)

lemma and_then_opt_eq_Ok:
  "and_then_opt q f = Some (Ok y) \<longleftrightarrow> (\<exists>x. q = Some (Ok x) \<and> f x = Some (Ok y))"
  by (auto simp: and_then_opt_def split: option.splits sum.splits)

lemma map_err_eq_Inr [result_simps]: "map_err f r = Inr y \<longleftrightarrow> r = Inr y"
  by (cases r) auto

lemma ok_or_eq_Inr [result_simps]: "ok_or e p = Inr y \<longleftrightarrow> p = Some y"
  by (cases p) auto

lemma ensure_eq_Inr [result_simps]: "ensure b e = Inr u \<longleftrightarrow> b"
  by (auto simp: ensure_def)

lemma ensure_eq_Inl: "ensure b e = Inl e' \<longleftrightarrow> \<not> b \<and> e' = e"
  by (auto simp: ensure_def)

lemma is_ok_iff: "is_ok r \<longleftrightarrow> (\<exists>x. r = Inr x)"
  by (cases r) auto

lemma for_each_eq_Inr [result_simps]:
  "for_each f xs = Inr u \<longleftrightarrow> (\<forall>x \<in> set xs. f x = Inr ())"
  by (induction xs) (auto simp: result_simps)

lemma if_Inl_eq_Inr [result_simps]: "(if b then Inl e else r) = Inr y \<longleftrightarrow> \<not> b \<and> r = Inr y"
  by simp

lemma if_Inr_Inl_eq_Inr [result_simps]: "(if b then Inr x else Inl e) = Inr y \<longleftrightarrow> b \<and> x = y"
  by simp

lemma try_fold_append:
  "try_fold f (xs @ ys) s = and_then (try_fold f xs s) (try_fold f ys)"
proof (induction xs arbitrary: s)
  case (Cons x xs)
  then show ?case by (cases "f x s") simp_all
qed simp

section \<open>Checked integer arithmetic\<close>

definition checked_add :: "'a::len word \<Rightarrow> 'a word \<Rightarrow> 'a word option" where
  "checked_add x y = (if unat x + unat y < 2 ^ LENGTH('a) then Some (x + y) else None)"

definition checked_sub :: "'a::len word \<Rightarrow> 'a word \<Rightarrow> 'a word option" where
  "checked_sub x y = (if unat y \<le> unat x then Some (x - y) else None)"

definition checked_mul :: "'a::len word \<Rightarrow> 'a word \<Rightarrow> 'a word option" where
  "checked_mul x y = (if unat x * unat y < 2 ^ LENGTH('a) then Some (x * y) else None)"

definition saturating_add :: "'a::len word \<Rightarrow> 'a word \<Rightarrow> 'a word" where
  "saturating_add x y = (case checked_add x y of Some z \<Rightarrow> z | None \<Rightarrow> - 1)"

lemma unat_eqI: "unat x = unat y \<Longrightarrow> x = y"
  by (rule unsigned_word_eqI)

lemma ex_unat_eq: "(\<exists>w :: 'a::len word. unat w = n) \<longleftrightarrow> n < 2 ^ LENGTH('a)"
proof
  assume "n < 2 ^ LENGTH('a)"
  then show "\<exists>w :: 'a word. unat w = n"
    by (intro exI[of _ "of_nat n"]) (simp add: unat_of_nat take_bit_nat_eq_self)
qed (auto intro: unsigned_less)

text \<open>\<open>usize::checked_add\<close> on a 64-bit target.\<close>

definition usize_checked_add :: "nat \<Rightarrow> nat \<Rightarrow> nat option" where
  "usize_checked_add a b = (if a + b < 2 ^ 64 then Some (a + b) else None)"

lemma checked_add_eq_Some [checked_simps]:
  fixes x y :: "'a::len word"
  shows "checked_add x y = Some z \<longleftrightarrow> unat z = unat x + unat y"
proof
  assume "checked_add x y = Some z"
  then show "unat z = unat x + unat y"
    by (auto simp: checked_add_def unat_word_ariths split: if_splits)
next
  assume z: "unat z = unat x + unat y"
  moreover have "unat z < 2 ^ LENGTH('a)" by simp
  ultimately have "x + y = z"
    by (intro unat_eqI) (simp add: unat_word_ariths)
  with z \<open>unat z < 2 ^ LENGTH('a)\<close> show "checked_add x y = Some z"
    by (simp add: checked_add_def)
qed

lemma checked_add_eq_None [checked_simps]:
  fixes x y :: "'a::len word"
  shows "checked_add x y = None \<longleftrightarrow> 2 ^ LENGTH('a) \<le> unat x + unat y"
  by (auto simp: checked_add_def)

lemma checked_sub_eq_Some [checked_simps]:
  fixes x y :: "'a::len word"
  shows "checked_sub x y = Some z \<longleftrightarrow> unat x = unat z + unat y"
proof
  assume "checked_sub x y = Some z"
  then show "unat x = unat z + unat y"
    by (auto simp: checked_sub_def unat_sub word_le_nat_alt split: if_splits)
next
  assume x: "unat x = unat z + unat y"
  then have "x - y = z"
    by (intro unat_eqI) (simp add: unat_sub word_le_nat_alt)
  with x show "checked_sub x y = Some z"
    by (simp add: checked_sub_def)
qed

lemma checked_sub_eq_None [checked_simps]:
  "checked_sub x y = None \<longleftrightarrow> unat x < unat y"
  by (auto simp: checked_sub_def)

lemma checked_mul_eq_Some [checked_simps]:
  fixes x y :: "'a::len word"
  shows "checked_mul x y = Some z \<longleftrightarrow> unat z = unat x * unat y"
proof
  assume "checked_mul x y = Some z"
  then show "unat z = unat x * unat y"
    by (auto simp: checked_mul_def unat_word_ariths split: if_splits)
next
  assume z: "unat z = unat x * unat y"
  moreover have "unat z < 2 ^ LENGTH('a)" by simp
  ultimately have "x * y = z"
    by (intro unat_eqI) (simp add: unat_word_ariths)
  with z \<open>unat z < 2 ^ LENGTH('a)\<close> show "checked_mul x y = Some z"
    by (simp add: checked_mul_def)
qed

lemma checked_mul_eq_None [checked_simps]:
  fixes x y :: "'a::len word"
  shows "checked_mul x y = None \<longleftrightarrow> 2 ^ LENGTH('a) \<le> unat x * unat y"
  by (auto simp: checked_mul_def)

lemma saturating_add_exact:
  fixes x y :: "'a::len word"
  assumes "unat x + unat y < 2 ^ LENGTH('a)"
  shows "unat (saturating_add x y) = unat x + unat y"
  using assms by (auto simp: saturating_add_def checked_simps split: option.split)

section \<open>The ends of a vector\<close>

definition first_opt :: "'a list \<Rightarrow> 'a option" where
  "first_opt xs = (case xs of [] \<Rightarrow> None | x # _ \<Rightarrow> Some x)"

definition last_opt :: "'a list \<Rightarrow> 'a option" where
  "last_opt xs = (if xs = [] then None else Some (last xs))"

lemma first_opt_eq_Some: "first_opt xs = Some x \<longleftrightarrow> (\<exists>ys. xs = x # ys)"
  by (cases xs) (auto simp: first_opt_def)

lemma last_opt_eq_Some: "last_opt xs = Some x \<longleftrightarrow> (\<exists>ys. xs = ys @ [x])"
  by (cases xs rule: rev_cases) (auto simp: last_opt_def)

lemma last_opt_simps [simp]:
  "last_opt [] = None" "last_opt (xs @ [x]) = Some x" "first_opt [] = None" "first_opt (x # xs) = Some x"
  by (auto simp: last_opt_def first_opt_def)

section \<open>Step relations and inductive invariants\<close>

inductive reach :: "('s \<Rightarrow> bool) \<Rightarrow> ('s \<Rightarrow> 's \<Rightarrow> bool) \<Rightarrow> 's \<Rightarrow> bool"
  for init :: "'s \<Rightarrow> bool" and step :: "'s \<Rightarrow> 's \<Rightarrow> bool" where
  reach_init: "init s \<Longrightarrow> reach init step s"
| reach_step: "reach init step s \<Longrightarrow> step s s' \<Longrightarrow> reach init step s'"

text \<open>
  The contract of an inductive invariant.  A component provides its initial states, its step
  relation and its invariant; its clients get that the invariant holds of whatever the component can reach.
\<close>

locale inductive_invariant =
  fixes init :: "'s \<Rightarrow> bool" and step :: "'s \<Rightarrow> 's \<Rightarrow> bool" and inv :: "'s \<Rightarrow> bool"
  assumes init_inv: "init s \<Longrightarrow> inv s"
    and step_inv: "inv s \<Longrightarrow> step s s' \<Longrightarrow> inv s'"
begin

lemma steps_inv: "step\<^sup>*\<^sup>* s s' \<Longrightarrow> inv s \<Longrightarrow> inv s'"
  by (induction rule: rtranclp_induct) (auto intro: step_inv)

lemma reach_inv: "reach init step s \<Longrightarrow> inv s"
  by (induction rule: reach.induct) (auto intro: init_inv step_inv)

end

text \<open>
  A generation counter that no step moves back.  This is the contract behind fencing: a credential
  that names an older generation stays older.
\<close>

locale monotone_generation =
  fixes step :: "'s \<Rightarrow> 's \<Rightarrow> bool" and generation :: "'s \<Rightarrow> nat"
  assumes step_mono: "step s s' \<Longrightarrow> generation s \<le> generation s'"
begin

lemma steps_mono: "step\<^sup>*\<^sup>* s s' \<Longrightarrow> generation s \<le> generation s'"
  by (induction rule: rtranclp_induct) (auto dest: step_mono)

end

section \<open>Vectors sorted by key\<close>

text \<open>\<open>slice::binary_search_by_key\<close>: the index of a match, or the place where the key belongs.\<close>

datatype search = Found nat | Missing nat

function bisect :: "('a \<Rightarrow> 'k::linorder) \<Rightarrow> 'k \<Rightarrow> 'a list \<Rightarrow> nat \<Rightarrow> nat \<Rightarrow> search" where
  "bisect key k xs lo hi =
     (if hi \<le> lo then Missing lo
      else let mid = lo + (hi - lo) div 2; k' = key (xs ! mid) in
           if k' = k then Found mid
           else if k' < k then bisect key k xs (mid + 1) hi
           else bisect key k xs lo mid)"
  by pat_completeness auto
termination
  by (relation "measure (\<lambda>(_, _, _, lo, hi). hi - lo)") auto

declare bisect.simps [simp del]

definition binary_search_by_key :: "('a \<Rightarrow> 'k::linorder) \<Rightarrow> 'k \<Rightarrow> 'a list \<Rightarrow> search" where
  "binary_search_by_key key k xs = bisect key k xs 0 (length xs)"

text \<open>\<open>windows(2).all(|pair| key(pair[0]) < key(pair[1]))\<close>.\<close>

fun strictly_sorted_by :: "('a \<Rightarrow> 'k::linorder) \<Rightarrow> 'a list \<Rightarrow> bool" where
  "strictly_sorted_by key (x # y # zs) = (key x < key y \<and> strictly_sorted_by key (y # zs))"
| "strictly_sorted_by key _ = True"

definition insert_at :: "nat \<Rightarrow> 'a \<Rightarrow> 'a list \<Rightarrow> 'a list" where
  "insert_at i x xs = take i xs @ x # drop i xs"

definition remove_at :: "nat \<Rightarrow> 'a list \<Rightarrow> 'a list" where
  "remove_at i xs = take i xs @ drop (Suc i) xs"

lemma strictly_sorted_by_iff: "strictly_sorted_by key xs \<longleftrightarrow> sorted_wrt (\<lambda>x y. key x < key y) xs"
proof (induction key xs rule: strictly_sorted_by.induct)
  case (1 key x y zs)
  then show ?case by (auto intro: less_trans)
qed auto

lemma strictly_sorted_by_nth:
  "strictly_sorted_by key xs \<Longrightarrow> i < j \<Longrightarrow> j < length xs \<Longrightarrow> key (xs ! i) < key (xs ! j)"
  by (simp add: strictly_sorted_by_iff sorted_wrt_nth_less[where P = "\<lambda>x y. key x < key y"])

lemma bisect_correct:
  assumes "strictly_sorted_by key xs" "lo \<le> hi" "hi \<le> length xs"
    and "\<forall>i < lo. key (xs ! i) < k" "\<forall>i. hi \<le> i \<and> i < length xs \<longrightarrow> k < key (xs ! i)"
  shows "case bisect key k xs lo hi of
      Found i \<Rightarrow> i < length xs \<and> key (xs ! i) = k
    | Missing i \<Rightarrow> i \<le> length xs \<and> (\<forall>j < i. key (xs ! j) < k) \<and>
        (\<forall>j. i \<le> j \<and> j < length xs \<longrightarrow> k < key (xs ! j))"
  using assms
proof (induction key k xs lo hi rule: bisect.induct)
  case (1 key k xs lo hi)
  define mid where "mid = lo + (hi - lo) div 2"
  show ?case
  proof (cases "hi \<le> lo")
    case True
    then show ?thesis using "1.prems" by (subst bisect.simps) auto
  next
    case False
    then have mid: "lo \<le> mid" "mid < hi" by (auto simp: mid_def)
    consider "key (xs ! mid) = k" | "key (xs ! mid) < k" | "k < key (xs ! mid)"
      using less_linear by blast
    then show ?thesis
    proof cases
      case 1
      with False mid "1.prems" show ?thesis
        by (subst bisect.simps) (auto simp: mid_def[symmetric] Let_def)
    next
      case 2
      have below: "\<forall>i < mid + 1. key (xs ! i) < k"
        using 2 strictly_sorted_by_nth[OF "1.prems"(1), of _ mid] mid "1.prems"(3)
        by (metis Suc_eq_plus1 less_Suc_eq less_trans order_less_le_trans)
      show ?thesis
        using "1.IH"(1)[OF False mid_def refl] 2 below mid "1.prems" False
        by (subst bisect.simps) (auto simp: mid_def[symmetric] Let_def)
    next
      case 3
      have above: "\<forall>i. mid \<le> i \<and> i < length xs \<longrightarrow> k < key (xs ! i)"
        using 3 strictly_sorted_by_nth[OF "1.prems"(1), of mid]
        by (metis le_neq_implies_less less_trans)
      show ?thesis
        using "1.IH"(2)[OF False mid_def refl] 3 above mid "1.prems" False
        by (subst bisect.simps) (auto simp: mid_def[symmetric] Let_def)
    qed
  qed
qed

text \<open>
  What the callers of a binary search rely on: on a vector strictly sorted by key the search finds the
  one entry with the key, or the place at which inserting it keeps the vector sorted.
\<close>

locale keyed_search =
  fixes key :: "'a \<Rightarrow> 'k::linorder" and lookup :: "'k \<Rightarrow> 'a list \<Rightarrow> search"
  assumes lookup_found:
      "strictly_sorted_by key xs \<Longrightarrow> lookup k xs = Found i \<Longrightarrow> i < length xs \<and> key (xs ! i) = k"
    and lookup_missing:
      "strictly_sorted_by key xs \<Longrightarrow> lookup k xs = Missing i \<Longrightarrow>
       i \<le> length xs \<and> (\<forall>j < i. key (xs ! j) < k) \<and>
       (\<forall>j. i \<le> j \<and> j < length xs \<longrightarrow> k < key (xs ! j))"
begin

lemma missing_not_member:
  assumes "strictly_sorted_by key xs" "lookup k xs = Missing i" "x \<in> set xs"
  shows "key x \<noteq> k"
proof -
  from assms(3) obtain j where "j < length xs" "x = xs ! j" by (auto simp: in_set_conv_nth)
  with lookup_missing[OF assms(1,2)] show ?thesis
    by (cases "j < i") (auto simp: not_less)
qed

lemma lookup_eq_Found:
  assumes "strictly_sorted_by key xs"
  shows "lookup k xs = Found i \<longleftrightarrow> i < length xs \<and> key (xs ! i) = k"
proof
  assume i: "i < length xs \<and> key (xs ! i) = k"
  show "lookup k xs = Found i"
  proof (cases "lookup k xs")
    case (Found j)
    with lookup_found[OF assms Found] i strictly_sorted_by_nth[OF assms]
    show ?thesis by (metis less_irrefl linorder_neqE_nat)
  next
    case (Missing j)
    with missing_not_member[OF assms Missing] i show ?thesis by (metis nth_mem)
  qed
qed (use lookup_found[OF assms] in blast)

lemma insert_sorted:
  assumes "strictly_sorted_by key xs" "lookup (key x) xs = Missing i"
  shows "strictly_sorted_by key (insert_at i x xs)"
proof -
  have "\<forall>y \<in> set (take i xs). key y < key x" "\<forall>y \<in> set (drop i xs). key x < key y"
    using lookup_missing[OF assms] by (auto simp: in_set_conv_nth)
  moreover have "sorted_wrt (\<lambda>x y. key x < key y) (take i xs @ drop i xs)"
    using assms(1) by (simp add: strictly_sorted_by_iff)
  ultimately show ?thesis
    unfolding strictly_sorted_by_iff insert_at_def sorted_wrt_append by auto
qed

lemma lookup_insert:
  assumes "strictly_sorted_by key xs" "lookup (key x) xs = Missing i"
  shows "lookup (key x) (insert_at i x xs) = Found i"
  using lookup_missing[OF assms] insert_sorted[OF assms]
  by (subst lookup_eq_Found) (auto simp: insert_at_def nth_append min_def)

end

lemma strictly_sorted_by_update:
  assumes "strictly_sorted_by key xs" "i < length xs" "key x = key (xs ! i)"
  shows "strictly_sorted_by key (xs[i := x])"
  using assms by (auto simp: strictly_sorted_by_iff sorted_wrt_iff_nth_less nth_list_update)

lemma strictly_sorted_by_remove:
  "strictly_sorted_by key xs \<Longrightarrow> strictly_sorted_by key (remove_at i xs)"
  by (auto simp: strictly_sorted_by_iff remove_at_def sorted_wrt_iff_nth_less nth_append)

lemma set_insert_at: "set (insert_at i x xs) = insert x (set xs)"
  by (metis Un_insert_right append_take_drop_id insert_at_def list.simps(15) set_append)

lemma set_remove_at: "set (remove_at i xs) \<subseteq> set xs"
  by (auto simp: remove_at_def dest: in_set_takeD in_set_dropD)

lemma binary_search_correct:
  assumes "strictly_sorted_by key xs"
  shows "case binary_search_by_key key k xs of
      Found i \<Rightarrow> i < length xs \<and> key (xs ! i) = k
    | Missing i \<Rightarrow> i \<le> length xs \<and> (\<forall>j < i. key (xs ! j) < k) \<and>
        (\<forall>j. i \<le> j \<and> j < length xs \<longrightarrow> k < key (xs ! j))"
  unfolding binary_search_by_key_def using assms by (intro bisect_correct) auto

section \<open>Retried mutations\<close>

text \<open>
  A mutation that reports whether it changed the state.  Its callers retry it after a crash or a lost
  reply; the contract is that a retry of an applied mutation is recognised and changes nothing.
\<close>

locale idempotent_mutation =
  fixes mutation :: "'s \<Rightarrow> (bool \<times> 's, 'e) result" and inv :: "'s \<Rightarrow> bool"
  assumes unchanged: "inv s \<Longrightarrow> mutation s = Ok (False, s') \<Longrightarrow> s' = s"
    and replayed: "inv s \<Longrightarrow> mutation s = Ok (True, s') \<Longrightarrow> mutation s' = Ok (False, s')"
begin

lemma retry_once:
  "inv s \<Longrightarrow> mutation s = Ok (b, s') \<Longrightarrow> mutation s' = Ok (False, s')"
  by (cases b) (auto dest: unchanged replayed)

lemma retries:
  assumes "inv s" "mutation s = Ok (b, s')"
  shows "((\<lambda>t. case mutation t of Inl _ \<Rightarrow> t | Inr (_, t') \<Rightarrow> t') ^^ n) s' = s'"
  by (induction n) (auto simp: retry_once[OF assms])

end

end
