(* ===== verification/Ids.thy ===== *)
theory Ids
  imports Prelude
begin

text \<open>
  Compact numeric identifiers of \<open>automata-ci-core/src/id.rs\<close>, the \<open>JobIR\<close> version contract of \<open>job/version.rs\<close> and the command cursor of
  \<open>automata-ci-protocol/src/message/session.rs\<close>.  Each newtype is its word; the constructor functions
  are the only way to make a value and refuse what the newtype excludes, and the predicates \<open>_ok\<close> say
  what the constructors establish.
\<close>

section \<open>Identities\<close>

type_synonym AttemptId = uuid
type_synonym JobId = uuid
type_synonym LeaseId = uuid
type_synonym RunnerId = uuid
type_synonym OperationId = uuid
type_synonym RunnerSessionId = uuid
type_synonym LogStreamId = uuid

datatype IdentifierError =
    ZeroRunIdAlias | RunIdAliasOutOfRange | ZeroAttemptNumber | ZeroFencingToken
  | FencingTokenOutOfRange | FencingTokenExhausted

section \<open>Run aliases and attempt numbers\<close>

type_synonym RunIdAlias = u64

definition RunIdAlias_MAX :: u64 where
  "RunIdAlias_MAX = 9007199254740991"

definition RunIdAlias_new :: "u64 \<Rightarrow> (RunIdAlias, IdentifierError) result" where
  "RunIdAlias_new value =
     (if value > RunIdAlias_MAX then Err RunIdAliasOutOfRange
      else if value = 0 then Err ZeroRunIdAlias
      else Ok value)"

type_synonym AttemptNumber = u32

definition AttemptNumber_new :: "u32 \<Rightarrow> (AttemptNumber, IdentifierError) result" where
  "AttemptNumber_new value = (if value = 0 then Err ZeroAttemptNumber else Ok value)"

section \<open>Fencing tokens\<close>

type_synonym FencingToken = u64

definition FencingToken_MAX :: u64 where
  "FencingToken_MAX = 9223372036854775807"

definition FencingToken_new :: "u64 \<Rightarrow> (FencingToken, IdentifierError) result" where
  "FencingToken_new value =
     (if value > FencingToken_MAX then Err FencingTokenOutOfRange
      else if value = 0 then Err ZeroFencingToken
      else Ok value)"

definition FencingToken_checked_next :: "FencingToken \<Rightarrow> (FencingToken, IdentifierError) result" where
  "FencingToken_checked_next self =
     and_then (ok_or FencingTokenExhausted (checked_add self 1)) (\<lambda>next.
     map_err (\<lambda>_. FencingTokenExhausted) (FencingToken_new next))"

definition fencing_token_ok :: "FencingToken \<Rightarrow> bool" where
  "fencing_token_ok t \<longleftrightarrow> t \<noteq> 0 \<and> t \<le> FencingToken_MAX"

lemma FencingToken_new_Ok [result_simps]:
  "FencingToken_new v = Ok t \<longleftrightarrow> t = v \<and> fencing_token_ok v"
  by (auto simp: FencingToken_new_def fencing_token_ok_def)

lemma checked_next_eq_Ok:
  "FencingToken_checked_next t = Ok t' \<longleftrightarrow> unat t' = unat t + 1 \<and> fencing_token_ok t'"
  by (auto simp: FencingToken_checked_next_def result_simps checked_simps)

lemma checked_next_increases: "FencingToken_checked_next t = Ok t' \<Longrightarrow> t < t'"
  by (simp add: checked_next_eq_Ok word_less_nat_alt)

text \<open>The counter refuses to advance exactly at its durable maximum.\<close>

lemma checked_next_exhausted:
  assumes "fencing_token_ok t"
  shows "FencingToken_checked_next t = Err FencingTokenExhausted \<longleftrightarrow> t = FencingToken_MAX"
proof -
  from assms have le: "unat t \<le> 9223372036854775807"
    by (simp add: fencing_token_ok_def FencingToken_MAX_def word_le_nat_alt)
  then have add: "checked_add t 1 = Some (t + 1)" and val: "unat (t + 1) = unat t + 1"
    by (auto simp: checked_add_def unat_word_ariths)
  then have "t + 1 \<noteq> 0" by (metis Suc_eq_plus1 nat.distinct(1) unsigned_0)
  with add val le show ?thesis
    by (auto simp: FencingToken_checked_next_def FencingToken_new_def FencingToken_MAX_def
        word_less_nat_alt intro!: unat_eqI split: if_splits)
qed

section \<open>JobIR versions\<close>

type_synonym JobIrVersion = u16

datatype JobIrVersionError =
    JobIrVersion_Zero
  | UnsupportedRange JobIrVersion JobIrVersion

definition JobIrVersion_new :: "u16 \<Rightarrow> (JobIrVersion, JobIrVersionError) result" where
  "JobIrVersion_new version = (if version = 0 then Err JobIrVersion_Zero else Ok version)"

definition JobIrVersion_current :: JobIrVersion where
  "JobIrVersion_current = 1"

record JobIrVersionRange =
  minimum :: JobIrVersion
  maximum :: JobIrVersion

definition JobIrVersionRange_new ::
  "JobIrVersion \<Rightarrow> JobIrVersion \<Rightarrow> (JobIrVersionRange, JobIrVersionError) result" where
  "JobIrVersionRange_new mn mx =
     (if mn \<noteq> JobIrVersion_current \<or> mx \<noteq> JobIrVersion_current
      then Err (UnsupportedRange mn mx)
      else Ok \<lparr>minimum = mn, maximum = mx\<rparr>)"

definition JobIrVersionRange_current :: JobIrVersionRange where
  "JobIrVersionRange_current = \<lparr>minimum = JobIrVersion_current, maximum = JobIrVersion_current\<rparr>"

definition JobIrVersionRange_supports :: "JobIrVersionRange \<Rightarrow> JobIrVersion \<Rightarrow> bool" where
  "JobIrVersionRange_supports self version \<longleftrightarrow> version = minimum self \<and> version = maximum self"

section \<open>Command sequences and the contiguous command cursor\<close>

type_synonym RunnerSlotOrdinal = u16
type_synonym CommandSequence = u64

datatype RunnerSlotOrdinalError = RunnerSlotOrdinal_Zero

definition RunnerSlotOrdinal_new :: "u16 \<Rightarrow> (RunnerSlotOrdinal, RunnerSlotOrdinalError) result" where
  "RunnerSlotOrdinal_new ordinal = (if ordinal = 0 then Err RunnerSlotOrdinal_Zero else Ok ordinal)"

datatype CommandSequenceError =
    CommandSequence_OutOfRange | CommandSequence_Zero | CommandSequence_Exhausted

definition CommandSequence_MAX :: u64 where
  "CommandSequence_MAX = 9223372036854775807"

definition CommandSequence_new :: "u64 \<Rightarrow> (CommandSequence, CommandSequenceError) result" where
  "CommandSequence_new value =
     (if value > CommandSequence_MAX then Err CommandSequence_OutOfRange
      else if value = 0 then Err CommandSequence_Zero
      else Ok value)"

definition CommandSequence_checked_next ::
  "CommandSequence \<Rightarrow> (CommandSequence, CommandSequenceError) result" where
  "CommandSequence_checked_next self =
     (if self = CommandSequence_MAX then Err CommandSequence_Exhausted
      else map_err (\<lambda>_. CommandSequence_Exhausted) (CommandSequence_new (self + 1)))"

datatype CommandCursorError =
    CommandCursor_Exhausted
  | NonContiguous CommandSequence CommandSequence

record CommandCursor =
  acknowledged_through :: "CommandSequence option"

definition CommandCursor_initial :: CommandCursor where
  "CommandCursor_initial = \<lparr>acknowledged_through = None\<rparr>"

definition CommandCursor_through :: "CommandSequence \<Rightarrow> CommandCursor" where
  "CommandCursor_through sequence = \<lparr>acknowledged_through = Some sequence\<rparr>"

definition CommandCursor_advance ::
  "CommandCursor \<Rightarrow> CommandSequence \<Rightarrow> (CommandCursor, CommandCursorError) result" where
  "CommandCursor_advance self sequence =
     and_then (case acknowledged_through self of
                 Some current \<Rightarrow> map_err (\<lambda>_. CommandCursor_Exhausted) (CommandSequence_checked_next current)
               | None \<Rightarrow> Ok 1) (\<lambda>expected.
     if sequence \<noteq> expected then Err (NonContiguous expected sequence)
     else Ok (CommandCursor_through sequence))"

text \<open>How many commands a cursor has taken: the cursor counts, it never skips.\<close>

definition cursor_position :: "CommandCursor \<Rightarrow> nat" where
  "cursor_position c = (case acknowledged_through c of None \<Rightarrow> 0 | Some s \<Rightarrow> unat s)"

definition command_cursor_ok :: "CommandCursor \<Rightarrow> bool" where
  "command_cursor_ok c \<longleftrightarrow>
     (case acknowledged_through c of None \<Rightarrow> True | Some s \<Rightarrow> s \<noteq> 0 \<and> s \<le> CommandSequence_MAX)"

lemma CommandSequence_checked_next_eq_Ok:
  assumes "s \<le> CommandSequence_MAX"
  shows "CommandSequence_checked_next s = Ok s' \<longleftrightarrow>
    unat s' = unat s + 1 \<and> s' \<le> CommandSequence_MAX"
proof -
  from assms have le: "unat s \<le> 9223372036854775807"
    by (simp add: CommandSequence_MAX_def word_le_nat_alt)
  then have val: "unat (s + 1) = unat s + 1" by (simp add: unat_word_ariths)
  then have "s + 1 \<noteq> 0" by (metis Suc_eq_plus1 nat.distinct(1) unsigned_0)
  then show ?thesis
    using val le
    by (auto simp: CommandSequence_checked_next_def CommandSequence_new_def CommandSequence_MAX_def
        word_less_nat_alt word_le_nat_alt intro: unat_eqI)
qed

lemma CommandCursor_advance_eq_Ok:
  assumes "command_cursor_ok c"
  shows "CommandCursor_advance c s = Ok c' \<longleftrightarrow>
    c' = CommandCursor_through s \<and> unat s = cursor_position c + 1 \<and> s \<le> CommandSequence_MAX"
  using assms
  by (auto simp: CommandCursor_advance_def cursor_position_def command_cursor_ok_def result_simps
      CommandSequence_checked_next_eq_Ok CommandSequence_MAX_def unat_eqI split: option.splits)

lemma CommandCursor_advance_ok:
  "command_cursor_ok c \<Longrightarrow> CommandCursor_advance c s = Ok c' \<Longrightarrow> command_cursor_ok c'"
  by (auto simp: CommandCursor_advance_eq_Ok command_cursor_ok_def CommandCursor_through_def)

lemma cursor_position_advance:
  "command_cursor_ok c \<Longrightarrow> CommandCursor_advance c s = Ok c' \<Longrightarrow>
   cursor_position c' = cursor_position c + 1"
  by (auto simp: CommandCursor_advance_eq_Ok cursor_position_def CommandCursor_through_def)

end
