(* ===== verification/Lifecycle.thy ===== *)
theory Lifecycle
  imports Prelude
begin

text \<open>
  The lifecycle of a job attempt, \<open>automata-ci-core/src/execution/lifecycle.rs\<close>: the states, the
  transition table, and what the table implies for every path through it.
\<close>

datatype JobLifecycle =
    Queued | Leased | Preparing | Running | Cancelling | Finalizing
  | Succeeded | Failed | Cancelled | TimedOut | Skipped | Lost

fun is_terminal :: "JobLifecycle \<Rightarrow> bool" where
  "is_terminal Succeeded = True"
| "is_terminal Failed = True"
| "is_terminal Cancelled = True"
| "is_terminal TimedOut = True"
| "is_terminal Skipped = True"
| "is_terminal Lost = True"
| "is_terminal _ = False"

datatype TransitionError = TransitionError JobLifecycle JobLifecycle

fun lifecycle_edges :: "JobLifecycle \<Rightarrow> JobLifecycle list" where
  "lifecycle_edges Queued = [Leased, Cancelled, Skipped]"
| "lifecycle_edges Leased = [Preparing, Queued, Cancelling, Failed, Lost]"
| "lifecycle_edges Preparing = [Queued, Running, Cancelling, Failed, TimedOut, Skipped, Lost]"
| "lifecycle_edges Running = [Queued, Cancelling, Finalizing, TimedOut, Lost]"
| "lifecycle_edges Cancelling = [Finalizing, Cancelled, Failed, TimedOut, Lost]"
| "lifecycle_edges Finalizing = [Succeeded, Failed, Cancelled, TimedOut, Lost]"
| "lifecycle_edges _ = []"

definition validate_transition :: "JobLifecycle \<Rightarrow> JobLifecycle \<Rightarrow> (unit, TransitionError) result" where
  "validate_transition self next =
     (if next \<in> set (lifecycle_edges self) then Ok () else Err (TransitionError self next))"

text \<open>The states that hold a lease.\<close>

fun needs_lease :: "JobLifecycle \<Rightarrow> bool" where
  "needs_lease Leased = True"
| "needs_lease Preparing = True"
| "needs_lease Running = True"
| "needs_lease Cancelling = True"
| "needs_lease Finalizing = True"
| "needs_lease _ = False"

lemma validate_transition_eq_Ok [result_simps]:
  "validate_transition a b = Ok u \<longleftrightarrow> b \<in> set (lifecycle_edges a)"
  by (simp add: validate_transition_def)

lemma needs_lease_iff: "needs_lease l \<longleftrightarrow> l \<noteq> Queued \<and> \<not> is_terminal l"
  by (cases l) auto

lemma terminal_no_edges: "is_terminal l \<longleftrightarrow> lifecycle_edges l = []"
  by (cases l) auto

lemma edge_irreflexive: "l \<notin> set (lifecycle_edges l)"
  by (cases l) auto

text \<open>The edges that end the lease are the edges to the queue and to a terminal state.\<close>

lemma edge_releases:
  "b \<in> set (lifecycle_edges a) \<Longrightarrow> b = Queued \<or> is_terminal b \<longleftrightarrow> \<not> needs_lease b"
  by (cases b) auto

definition lifecycle_step :: "JobLifecycle \<Rightarrow> JobLifecycle \<Rightarrow> bool" where
  "lifecycle_step a b \<longleftrightarrow> is_ok (validate_transition a b)"

lemma lifecycle_step_iff: "lifecycle_step a b \<longleftrightarrow> b \<in> set (lifecycle_edges a)"
  by (simp add: lifecycle_step_def validate_transition_def)

text \<open>
  Progress without the requeue edges: along every other edge the rank grows, so an attempt that is
  not requeued reaches a terminal state within six edges.
\<close>

fun lifecycle_rank :: "JobLifecycle \<Rightarrow> nat" where
  "lifecycle_rank Queued = 0"
| "lifecycle_rank Leased = 1"
| "lifecycle_rank Preparing = 2"
| "lifecycle_rank Running = 3"
| "lifecycle_rank Cancelling = 4"
| "lifecycle_rank Finalizing = 5"
| "lifecycle_rank _ = 6"

lemma rank_increases: "lifecycle_step a b \<Longrightarrow> b \<noteq> Queued \<Longrightarrow> lifecycle_rank a < lifecycle_rank b"
  by (cases a) (auto simp: lifecycle_step_iff)

lemma rank_terminal: "lifecycle_rank l = 6 \<longleftrightarrow> is_terminal l"
  by (cases l) auto

lemma rank_bound: "lifecycle_rank l \<le> 6"
  by (cases l) auto

end
