(* ===== verification/Attempt.thy ===== *)
theory Attempt
  imports Ids Lifecycle
begin

text \<open>
  Leases and fenced attempt state: \<open>automata-ci-core/src/execution/lease.rs\<close> and
  \<open>execution/attempt.rs\<close>.  Every mutation is one function from the state to an error or to the new
  state (with the returned lease); the source changes no field before its last check, so an error
  leaves the state as it was.
\<close>

section \<open>Leases\<close>

definition CORE_SCHEMA_VERSION :: u16 where
  "CORE_SCHEMA_VERSION = 1"

record LeaseGuard =
  guard_lease_id :: LeaseId
  guard_fencing_token :: FencingToken

record Lease =
  lease_schema_version :: u16
  lease_id :: LeaseId
  lease_attempt_id :: AttemptId
  lease_runner_id :: RunnerId
  lease_fencing_token :: FencingToken
  issued_at :: UnixMillis
  expires_at :: UnixMillis

datatype LeaseError =
    LeaseUnsupportedSchema u16 u16
  | InvalidInterval UnixMillis UnixMillis
  | RenewalDoesNotExtend UnixMillis UnixMillis

definition Lease_new ::
  "LeaseId \<Rightarrow> AttemptId \<Rightarrow> RunnerId \<Rightarrow> FencingToken \<Rightarrow> UnixMillis \<Rightarrow> UnixMillis \<Rightarrow>
   (Lease, LeaseError) result" where
  "Lease_new lid attempt runner token issued expires =
     (if expires \<le> issued then Err (InvalidInterval issued expires)
      else Ok \<lparr>lease_schema_version = CORE_SCHEMA_VERSION, lease_id = lid, lease_attempt_id = attempt,
               lease_runner_id = runner, lease_fencing_token = token,
               issued_at = issued, expires_at = expires\<rparr>)"

definition Lease_validate :: "Lease \<Rightarrow> (unit, LeaseError) result" where
  "Lease_validate self =
     (if lease_schema_version self \<noteq> CORE_SCHEMA_VERSION
      then Err (LeaseUnsupportedSchema CORE_SCHEMA_VERSION (lease_schema_version self))
      else if expires_at self \<le> issued_at self
      then Err (InvalidInterval (issued_at self) (expires_at self))
      else Ok ())"

definition Lease_guard :: "Lease \<Rightarrow> LeaseGuard" where
  "Lease_guard self =
     \<lparr>guard_lease_id = lease_id self, guard_fencing_token = lease_fencing_token self\<rparr>"

definition is_expired_at :: "Lease \<Rightarrow> UnixMillis \<Rightarrow> bool" where
  "is_expired_at self now \<longleftrightarrow> now \<ge> expires_at self"

definition Lease_renew :: "Lease \<Rightarrow> UnixMillis \<Rightarrow> (Lease, LeaseError) result" where
  "Lease_renew self expires =
     (if expires \<le> expires_at self then Err (RenewalDoesNotExtend (expires_at self) expires)
      else Ok (self\<lparr>expires_at := expires\<rparr>))"

lemma Lease_new_valid: "Lease_new l a r t i e = Ok lease \<Longrightarrow> Lease_validate lease = Ok ()"
  by (auto simp: Lease_new_def Lease_validate_def split: if_splits)

lemma Lease_renew_valid:
  "Lease_validate l = Ok () \<Longrightarrow> Lease_renew l e = Ok l' \<Longrightarrow> Lease_validate l' = Ok ()"
  by (auto simp: Lease_renew_def Lease_validate_def split: if_splits)

section \<open>Attempt state\<close>

record JobAttemptState =
  schema_version :: u16
  attempt_id :: AttemptId
  job_id :: JobId
  attempt_number :: AttemptNumber
  lifecycle :: JobLifecycle
  current_fencing_token :: "FencingToken option"
  active_lease :: "Lease option"

datatype FenceError =
    NoActiveLease
  | LeaseMismatch LeaseId LeaseId
  | StaleFencingToken FencingToken FencingToken
  | FutureFencingToken FencingToken FencingToken

datatype AttemptStateError =
    Transition TransitionError
  | Fence FenceError
  | AttemptLease LeaseError
  | Identifier IdentifierError
  | UnsupportedSchema u16 u16
  | LeaseStateInvariant JobLifecycle
  | LeaseAttemptMismatch
  | LeaseTokenMismatch

definition JobAttemptState_new :: "AttemptId \<Rightarrow> JobId \<Rightarrow> AttemptNumber \<Rightarrow> JobAttemptState" where
  "JobAttemptState_new attempt job number =
     \<lparr>schema_version = CORE_SCHEMA_VERSION, attempt_id = attempt, job_id = job,
      attempt_number = number, lifecycle = Queued, current_fencing_token = None, active_lease = None\<rparr>"

definition acquire_lease ::
  "LeaseId \<Rightarrow> RunnerId \<Rightarrow> UnixMillis \<Rightarrow> UnixMillis \<Rightarrow> JobAttemptState \<Rightarrow>
   (Lease \<times> JobAttemptState, AttemptStateError) result" where
  "acquire_lease lid runner issued expires self =
     and_then (map_err Transition (validate_transition (lifecycle self) Leased)) (\<lambda>_.
     and_then (map_err Identifier (case current_fencing_token self of
                 Some current \<Rightarrow> FencingToken_checked_next current
               | None \<Rightarrow> FencingToken_new 1)) (\<lambda>token.
     and_then (map_err AttemptLease
                 (Lease_new lid (attempt_id self) runner token issued expires)) (\<lambda>lease.
     Ok (lease, self\<lparr>lifecycle := Leased, current_fencing_token := Some token,
                     active_lease := Some lease\<rparr>))))"

definition verify_fence :: "LeaseGuard \<Rightarrow> JobAttemptState \<Rightarrow> (unit, FenceError) result" where
  "verify_fence guard self =
     and_then (ok_or NoActiveLease (active_lease self)) (\<lambda>active.
     let expected = lease_fencing_token active in
     if guard_fencing_token guard < expected
     then Err (StaleFencingToken expected (guard_fencing_token guard))
     else if guard_fencing_token guard > expected
     then Err (FutureFencingToken expected (guard_fencing_token guard))
     else if guard_lease_id guard \<noteq> lease_id active
     then Err (LeaseMismatch (lease_id active) (guard_lease_id guard))
     else Ok ())"

definition apply_transition ::
  "LeaseGuard \<Rightarrow> JobLifecycle \<Rightarrow> JobAttemptState \<Rightarrow> (JobAttemptState, AttemptStateError) result" where
  "apply_transition guard next self =
     and_then (map_err Fence (verify_fence guard self)) (\<lambda>_.
     and_then (map_err Transition (validate_transition (lifecycle self) next)) (\<lambda>_.
     let self = self\<lparr>lifecycle := next\<rparr> in
     Ok (if next = Queued \<or> is_terminal next then self\<lparr>active_lease := None\<rparr> else self)))"

definition renew_lease ::
  "LeaseGuard \<Rightarrow> UnixMillis \<Rightarrow> JobAttemptState \<Rightarrow>
   (Lease \<times> JobAttemptState, AttemptStateError) result" where
  "renew_lease guard expires self =
     and_then (map_err Fence (verify_fence guard self)) (\<lambda>_.
     and_then (map_err Fence (ok_or NoActiveLease (active_lease self))) (\<lambda>active.
     and_then (map_err AttemptLease (Lease_renew active expires)) (\<lambda>active.
     Ok (active, self\<lparr>active_lease := Some active\<rparr>))))"

definition JobAttemptState_validate :: "JobAttemptState \<Rightarrow> (unit, AttemptStateError) result" where
  "JobAttemptState_validate self =
     (if schema_version self \<noteq> CORE_SCHEMA_VERSION
      then Err (UnsupportedSchema CORE_SCHEMA_VERSION (schema_version self))
      else if needs_lease (lifecycle self) \<noteq> (active_lease self \<noteq> None)
      then Err (LeaseStateInvariant (lifecycle self))
      else case active_lease self of
        None \<Rightarrow> Ok ()
      | Some lease \<Rightarrow>
          and_then (map_err AttemptLease (Lease_validate lease)) (\<lambda>_.
          if lease_attempt_id lease \<noteq> attempt_id self then Err LeaseAttemptMismatch
          else if current_fencing_token self \<noteq> Some (lease_fencing_token lease)
          then Err LeaseTokenMismatch
          else Ok ()))"

section \<open>Invariant\<close>

text \<open>What \<open>validate\<close> checks, together with what the token newtype guarantees.\<close>

definition attempt_inv :: "JobAttemptState \<Rightarrow> bool" where
  "attempt_inv s \<longleftrightarrow> JobAttemptState_validate s = Ok () \<and>
     (\<forall>t. current_fencing_token s = Some t \<longrightarrow> fencing_token_ok t)"

inductive attempt_init :: "JobAttemptState \<Rightarrow> bool" where
  "attempt_init (JobAttemptState_new attempt job number)"

inductive attempt_step :: "JobAttemptState \<Rightarrow> JobAttemptState \<Rightarrow> bool" where
  acquire: "acquire_lease lid runner issued expires s = Ok (lease, s') \<Longrightarrow> attempt_step s s'"
| transition: "apply_transition guard next s = Ok s' \<Longrightarrow> attempt_step s s'"
| renew: "renew_lease guard expires s = Ok (lease, s') \<Longrightarrow> attempt_step s s'"

inductive_cases attempt_stepE: "attempt_step s s'"

lemma verify_fence_eq_Ok [result_simps]:
  "verify_fence g s = Ok u \<longleftrightarrow> (\<exists>lease. active_lease s = Some lease \<and> g = Lease_guard lease)"
  by (cases g) (auto simp: verify_fence_def Lease_guard_def Let_def result_simps)

lemma validate_eq_Ok:
  "JobAttemptState_validate s = Ok u \<longleftrightarrow>
     schema_version s = CORE_SCHEMA_VERSION \<and>
     (needs_lease (lifecycle s) \<longleftrightarrow> active_lease s \<noteq> None) \<and>
     (\<forall>lease. active_lease s = Some lease \<longrightarrow>
        Lease_validate lease = Ok () \<and> lease_attempt_id lease = attempt_id s \<and>
        current_fencing_token s = Some (lease_fencing_token lease))"
  by (auto simp: JobAttemptState_validate_def result_simps split: option.splits)

lemma new_inv: "attempt_inv (JobAttemptState_new a j n)"
  by (simp add: attempt_inv_def validate_eq_Ok JobAttemptState_new_def)

lemma fencing_token_one: "fencing_token_ok 1"
  by (simp add: fencing_token_ok_def FencingToken_MAX_def)

lemma acquire_lease_eq_Ok:
  "acquire_lease lid r i e s = Ok (lease, s') \<longleftrightarrow>
     lifecycle s = Queued \<and> i < e \<and>
     (\<exists>t. fencing_token_ok t \<and>
          unat t = (case current_fencing_token s of None \<Rightarrow> 0 | Some c \<Rightarrow> unat c) + 1 \<and>
          lease = \<lparr>lease_schema_version = CORE_SCHEMA_VERSION, lease_id = lid,
                   lease_attempt_id = attempt_id s, lease_runner_id = r,
                   lease_fencing_token = t, issued_at = i, expires_at = e\<rparr> \<and>
          s' = s\<lparr>lifecycle := Leased, current_fencing_token := Some t, active_lease := Some lease\<rparr>)"
proof -
  have edge: "Leased \<in> set (lifecycle_edges l) \<longleftrightarrow> l = Queued" for l
    by (cases l) auto
  have one: "unat t = Suc 0 \<longleftrightarrow> t = 1" for t :: u64
    by (metis One_nat_def unat_eqI unsigned_1)
  show ?thesis
    by (auto simp: acquire_lease_def result_simps edge Lease_new_def checked_next_eq_Ok one
        fencing_token_one split: option.splits if_splits)
qed

lemma acquire_lease_inv:
  "attempt_inv s \<Longrightarrow> acquire_lease lid r i e s = Ok (lease, s') \<Longrightarrow> attempt_inv s'"
  by (auto simp: acquire_lease_eq_Ok attempt_inv_def validate_eq_Ok Lease_validate_def)

lemma apply_transition_eq_Ok:
  "apply_transition g n s = Ok s' \<longleftrightarrow>
     (\<exists>lease. active_lease s = Some lease \<and> g = Lease_guard lease \<and>
        n \<in> set (lifecycle_edges (lifecycle s)) \<and>
        s' = s\<lparr>lifecycle := n, active_lease := (if needs_lease n then Some lease else None)\<rparr>)"
  by (auto simp: apply_transition_def result_simps Let_def needs_lease_iff)

lemma apply_transition_inv:
  "attempt_inv s \<Longrightarrow> apply_transition g n s = Ok s' \<Longrightarrow> attempt_inv s'"
  by (cases "needs_lease n") (auto simp: apply_transition_eq_Ok attempt_inv_def validate_eq_Ok)

lemma renew_lease_eq_Ok:
  "renew_lease g e s = Ok (lease', s') \<longleftrightarrow>
     (\<exists>lease. active_lease s = Some lease \<and> g = Lease_guard lease \<and> expires_at lease < e \<and>
        lease' = lease\<lparr>expires_at := e\<rparr> \<and> s' = s\<lparr>active_lease := Some lease'\<rparr>)"
  by (auto simp: renew_lease_def result_simps Lease_renew_def)

lemma renew_lease_inv:
  "attempt_inv s \<Longrightarrow> renew_lease g e s = Ok (lease, s') \<Longrightarrow> attempt_inv s'"
  by (auto simp: renew_lease_eq_Ok attempt_inv_def validate_eq_Ok Lease_validate_def split: if_splits)

interpretation attempt: inductive_invariant attempt_init attempt_step attempt_inv
proof
  show "attempt_inv s" if "attempt_init s" for s
    using that by cases (simp add: new_inv)
  show "attempt_inv s'" if "attempt_inv s" "attempt_step s s'" for s s'
    using that(2,1)
    by cases (auto intro: acquire_lease_inv apply_transition_inv renew_lease_inv)
qed

section \<open>Fencing\<close>

definition attempt_generation :: "JobAttemptState \<Rightarrow> nat" where
  "attempt_generation s = (case current_fencing_token s of None \<Rightarrow> 0 | Some t \<Rightarrow> unat t)"

lemma acquire_generation:
  "acquire_lease lid r i e s = Ok (lease, s') \<Longrightarrow>
   attempt_generation s' = attempt_generation s + 1 \<and>
   unat (guard_fencing_token (Lease_guard lease)) = attempt_generation s'"
  by (auto simp: acquire_lease_eq_Ok attempt_generation_def Lease_guard_def)

lemma apply_transition_generation:
  "apply_transition g n s = Ok s' \<Longrightarrow> attempt_generation s' = attempt_generation s"
  by (auto simp: apply_transition_eq_Ok attempt_generation_def)

lemma renew_lease_generation:
  "renew_lease g e s = Ok (lease, s') \<Longrightarrow> attempt_generation s' = attempt_generation s"
  by (auto simp: renew_lease_eq_Ok attempt_generation_def)

lemma attempt_step_generation: "attempt_step s s' \<Longrightarrow> attempt_generation s \<le> attempt_generation s'"
  by (erule attempt_stepE)
     (auto dest: acquire_generation apply_transition_generation renew_lease_generation)

interpretation fence: monotone_generation attempt_step attempt_generation
  by unfold_locales (rule attempt_step_generation)

text \<open>A credential older than the high-water token is refused, and the error says why.\<close>

lemma stale_guard_rejected:
  assumes "attempt_inv s" "unat (guard_fencing_token g) < attempt_generation s"
  shows "verify_fence g s =
     (case active_lease s of
        None \<Rightarrow> Err NoActiveLease
      | Some lease \<Rightarrow> Err (StaleFencingToken (lease_fencing_token lease) (guard_fencing_token g)))"
  using assms
  by (auto simp: attempt_inv_def validate_eq_Ok verify_fence_def attempt_generation_def
      word_less_nat_alt Let_def split: option.splits)

lemma superseded_guard_stale:
  assumes "acquire_lease lid r i e s0 = Ok (old, s1)" "attempt_step\<^sup>*\<^sup>* s1 s2"
    and "acquire_lease lid' r' i' e' s2 = Ok (new, s3)" "attempt_step\<^sup>*\<^sup>* s3 s4"
  shows "unat (guard_fencing_token (Lease_guard old)) < attempt_generation s4"
  using acquire_generation[OF assms(1)] acquire_generation[OF assms(3)]
    fence.steps_mono[OF assms(2)] fence.steps_mono[OF assms(4)]
  by linarith

lemma terminal_no_step:
  "attempt_inv s \<Longrightarrow> is_terminal (lifecycle s) \<Longrightarrow> \<not> attempt_step s s'"
  by (auto elim!: attempt_stepE simp: acquire_lease_eq_Ok apply_transition_eq_Ok renew_lease_eq_Ok
      attempt_inv_def validate_eq_Ok needs_lease_iff)

section \<open>Properties\<close>

text \<open>
  C6. Every state that \<open>acquire_lease\<close>, \<open>apply_transition\<close> and \<open>renew_lease\<close> can produce from a new
  attempt passes \<open>JobAttemptState::validate\<close>: a lease is present exactly in the leased states, it is
  well formed, it belongs to the attempt and it carries the high-water fencing token.
\<close>
theorem reachable_attempt_validates:
  assumes "reach attempt_init attempt_step s"
  shows "JobAttemptState_validate s = Ok ()"
  using attempt.reach_inv[OF assms] by (simp add: attempt_inv_def)

definition sample_attempt :: JobAttemptState where
  "sample_attempt = JobAttemptState_new 1 2 1"

lemma sample_attempt_reachable: "reach attempt_init attempt_step sample_attempt"
  by (auto simp: sample_attempt_def intro: reach_init attempt_init.intros)

definition sample_lease :: "LeaseId \<Rightarrow> FencingToken \<Rightarrow> Lease" where
  "sample_lease lid token =
     \<lparr>lease_schema_version = 1, lease_id = lid, lease_attempt_id = 1, lease_runner_id = 9,
      lease_fencing_token = token, issued_at = 10, expires_at = 20\<rparr>"

lemma sample_acquire:
  "acquire_lease 5 9 10 20 sample_attempt =
     Ok (sample_lease 5 1, sample_attempt\<lparr>lifecycle := Leased, current_fencing_token := Some 1,
       active_lease := Some (sample_lease 5 1)\<rparr>)"
  by (simp add: acquire_lease_def sample_attempt_def JobAttemptState_new_def sample_lease_def Lease_new_def
      validate_transition_def FencingToken_new_def FencingToken_MAX_def CORE_SCHEMA_VERSION_def)

lemma sample_requeue:
  "apply_transition (Lease_guard (sample_lease 5 1)) Queued
     (sample_attempt\<lparr>lifecycle := Leased, current_fencing_token := Some 1,
       active_lease := Some (sample_lease 5 1)\<rparr>) =
   Ok (sample_attempt\<lparr>current_fencing_token := Some 1\<rparr>)"
  by (simp add: apply_transition_def verify_fence_def Lease_guard_def sample_lease_def
      validate_transition_def sample_attempt_def JobAttemptState_new_def)

lemma sample_reacquire:
  "acquire_lease 6 9 10 20 (sample_attempt\<lparr>current_fencing_token := Some 1\<rparr>) =
     Ok (sample_lease 6 2, sample_attempt\<lparr>lifecycle := Leased, current_fencing_token := Some 2,
       active_lease := Some (sample_lease 6 2)\<rparr>)"
  by (simp add: acquire_lease_def sample_attempt_def JobAttemptState_new_def sample_lease_def Lease_new_def
      validate_transition_def FencingToken_new_def FencingToken_MAX_def CORE_SCHEMA_VERSION_def
      FencingToken_checked_next_def checked_add_def)

theorem reachable_attempt_validates_witness:
  "JobAttemptState_validate (sample_attempt\<lparr>lifecycle := Leased, current_fencing_token := Some 1,
       active_lease := Some (sample_lease 5 1)\<rparr>) = Ok ()"
  by (rule reachable_attempt_validates)
     (rule reach_step[OF sample_attempt_reachable acquire[OF sample_acquire]])

text \<open>
  C5. Fencing: once an attempt has been leased again, the guard of every earlier lease is refused
  forever, whatever mutations follow.  The refusal is \<open>NoActiveLease\<close> while no lease is active and
  \<open>StaleFencingToken\<close>, naming both tokens, while one is.
\<close>
theorem superseded_lease_is_fenced:
  assumes "reach attempt_init attempt_step s0"
    and "acquire_lease lid r i e s0 = Ok (old, s1)" "attempt_step\<^sup>*\<^sup>* s1 s2"
    and "acquire_lease lid' r' i' e' s2 = Ok (new, s3)" "attempt_step\<^sup>*\<^sup>* s3 s4"
  shows "verify_fence (Lease_guard old) s4 =
     (case active_lease s4 of
        None \<Rightarrow> Err NoActiveLease
      | Some lease \<Rightarrow> Err (StaleFencingToken (lease_fencing_token lease) (lease_fencing_token old)))"
proof -
  have "attempt_step\<^sup>*\<^sup>* s0 s4"
    using acquire[OF assms(2)] acquire[OF assms(4)] assms(3,5) by (meson r_into_rtranclp rtranclp_trans)
  then have "attempt_inv s4"
    using attempt.reach_inv[OF assms(1)] by (rule attempt.steps_inv)
  from stale_guard_rejected[OF this superseded_guard_stale[OF assms(2-5)]]
  show ?thesis by (simp add: Lease_guard_def split: option.splits)
qed

theorem superseded_lease_is_fenced_witness:
  "verify_fence (Lease_guard (sample_lease 5 1))
     (sample_attempt\<lparr>lifecycle := Leased, current_fencing_token := Some 2,
       active_lease := Some (sample_lease 6 2)\<rparr>) = Err (StaleFencingToken 2 1)"
  using superseded_lease_is_fenced[OF sample_attempt_reachable sample_acquire
      r_into_rtranclp[of attempt_step, OF transition[OF sample_requeue]] sample_reacquire
      rtranclp.rtrancl_refl]
  by (simp add: sample_lease_def)

text \<open>
  C7. A terminal attempt is final: no lease, renewal or transition succeeds on it, so its state never
  changes again.
\<close>
theorem terminal_attempt_is_final:
  assumes "reach attempt_init attempt_step s" "is_terminal (lifecycle s)"
  shows "{s'. attempt_step\<^sup>*\<^sup>* s s'} = {s}"
  using terminal_no_step[OF attempt.reach_inv[OF assms(1)] assms(2)]
  by (auto elim: converse_rtranclpE)

theorem terminal_attempt_is_final_witness:
  "{s'. attempt_step\<^sup>*\<^sup>* (sample_attempt\<lparr>lifecycle := Failed, current_fencing_token := Some 1\<rparr>) s'} =
   {sample_attempt\<lparr>lifecycle := Failed, current_fencing_token := Some 1\<rparr>}"
proof -
  have fail: "apply_transition (Lease_guard (sample_lease 5 1)) Failed
     (sample_attempt\<lparr>lifecycle := Leased, current_fencing_token := Some 1,
       active_lease := Some (sample_lease 5 1)\<rparr>) =
     Ok (sample_attempt\<lparr>lifecycle := Failed, current_fencing_token := Some 1\<rparr>)"
    by (simp add: apply_transition_def verify_fence_def Lease_guard_def sample_lease_def
        validate_transition_def sample_attempt_def JobAttemptState_new_def)
  show ?thesis
    by (rule terminal_attempt_is_final[OF reach_step[OF reach_step[OF
          sample_attempt_reachable acquire[OF sample_acquire]] transition[OF fail]]]) simp
qed

end
