(* ===== verification/JournalError.thy ===== *)
theory JournalError
  imports Attempt
begin

text \<open>
  The invariant errors of the runner journal, \<open>automata-ci-runner-journal/src/error.rs\<close>, with the
  constructors of the source in its order.
\<close>

datatype ProviderOperationKind = CreateSandbox | StartSandbox | StopSandbox | DestroySandbox

datatype (plugins only: ) JournalInvariantError =
    NoSession
  | SessionMismatch RunnerSessionId RunnerSessionId
  | SessionHasActiveSlots
  | SessionNegotiationMismatch
  | LeasePollCheckpointMissing RunnerSlotOrdinal
  | LeasePollCheckpointMismatch OperationId OperationId
  | LeasePollOperationConflict
  | LeaseAuthorityReceiptMismatch
  | SlotNotFound RunnerSlotOrdinal
  | SlotOccupied RunnerSlotOrdinal
  | SlotLimitReached
  | LeaseGuardMismatch LeaseGuard LeaseGuard
  | LeaseRunnerMismatch
  | InvalidLease
  | JobIrVersionMismatch
  | InvalidJobIrContent
  | InvalidRuntimeAuthorityContent
  | InvalidRuntimeAuthorityDelivery
  | RuntimeAuthorityDeliveryReplayConflict
  | InvalidManagedSecretBindings
  | InvalidTerminalResultContent
  | InvalidDeliveryEnqueuedAt
  | LeaseExpiryRegression
  | CommandSequenceMismatch CommandSequence CommandSequence
  | CommandReplayConflict
  | CommandReplayOutsideWindow
  | OfferNotAccepted
  | OfferAlreadyAccepted
  | OfferAlreadyRejected
  | OfferNotRejected
  | LeaseRejectionReplayConflict
  | LeaseRejectionOperationMismatch
  | LeaseRejectionNotAcknowledged
  | LeaseTerminal
  | InvalidProviderOperation ProviderOperationKind
  | ProviderOperationPending
  | ProviderOperationReplayConflict
  | InvalidEndpointRequestContent
  | InvalidEndpointResultContent
  | InvalidEndpointResultReservation
  | EndpointOperationLimit
  | EndpointContentRefLimit
  | EndpointContentBytesLimit
  | EndpointOperationPending
  | EndpointOperationNotAccepted
  | EndpointOperationReplayConflict
  | EndpointOperationMissing
  | EndpointOperationCancelled
  | EndpointOperationResolved
  | EndpointCancellationNotRequested
  | EndpointOperationNotAbandonable
  | EndpointSandboxStillPresent
  | EndpointRecoveryPending
  | EndpointOperationsClosed
  | EndpointInvocationNotCommitted
  | EndpointResultExceedsReservation
  | EndpointResultReplayConflict
  | SandboxWithoutCreateIntent
  | SandboxIdentityConflict
  | TerminalResultRequired
  | TerminalResultReplayConflict
  | TerminalResultAlreadyAcknowledgedInput
  | TerminalResultOperationMismatch
  | TerminalResultNotAcknowledged
  | OutboundOperationSequenceMismatch u64 u64
  | LogStreamMismatch
  | LogSegmentReplayConflict
  | LogStreamClosed
  | InvalidLogSpoolContent
  | InvalidLogSegment
  | LogSegmentMutationConflict
  | LogSegmentLimit
  | LogBacklogLimit
  | InvalidLogAcknowledgement
  | LogAcknowledgementConflict
  | SlotNotTerminal
  | LogDeliveryIncomplete
  | OrphanAuthorityMismatch
  | OrphanAbandonmentConflict
  | OrphanNotAuthorized
  | CounterExhausted
  | InvalidProviderName
  | InvalidSandboxHandle
  | InvalidOutboundOperationSequence
  | DecodedCollectionLimit
  | DecodedStateInvalid
  | InvalidLifecycleTransition

type_synonym 'a jresult = "('a, JournalInvariantError) result"

end
