(* ===== verification/Digest.thy ===== *)
theory Digest
  imports Prelude
begin

text \<open>
  The textual form of SHA-256 digests, \<open>automata-ci-core/src/digest.rs\<close>, and the decimal form of
  unsigned integers that \<open>format!\<close> produces.  A digest value is its list of 32 bytes; the digest
  function itself is not part of this file.
\<close>

unbundle bit_operations_syntax

section \<open>Hexadecimal digests\<close>

definition SHA256_DIGEST_BYTES :: nat where
  "SHA256_DIGEST_BYTES = 32"

definition SHA256_DIGEST_HEX_LENGTH :: nat where
  "SHA256_DIGEST_HEX_LENGTH = SHA256_DIGEST_BYTES * 2"

datatype Sha256DigestError =
    InvalidLength nat nat
  | InvalidHex nat

definition hex_digit :: "u8 \<Rightarrow> char" where
  "hex_digit n = char_of (if n < 10 then 48 + unat n else 87 + unat n)"

definition Sha256Digest_display :: "Sha256Digest \<Rightarrow> string" where
  "Sha256Digest_display self =
     concat (map (\<lambda>byte. [hex_digit (drop_bit 4 byte), hex_digit (byte AND 15)]) self)"

definition hex_nibble :: "char \<Rightarrow> u8 option" where
  "hex_nibble c =
     (let byte = of_char c :: nat in
      if 48 \<le> byte \<and> byte \<le> 57 then Some (of_nat (byte - 48))
      else if 97 \<le> byte \<and> byte \<le> 102 then Some (of_nat (byte - 97 + 10))
      else if 65 \<le> byte \<and> byte \<le> 70 then Some (of_nat (byte - 65 + 10))
      else None)"

fun parse_hex_pairs :: "nat \<Rightarrow> string \<Rightarrow> (u8 list, Sha256DigestError) result" where
  "parse_hex_pairs index (a # b # rest) =
     and_then (ok_or (InvalidHex (index * 2)) (hex_nibble a)) (\<lambda>high.
     and_then (ok_or (InvalidHex (index * 2 + 1)) (hex_nibble b)) (\<lambda>low.
     and_then (parse_hex_pairs (index + 1) rest) (\<lambda>bytes.
     Ok ((push_bit 4 high OR low) # bytes))))"
| "parse_hex_pairs index _ = Ok []"

definition Sha256Digest_from_str :: "string \<Rightarrow> (Sha256Digest, Sha256DigestError) result" where
  "Sha256Digest_from_str value =
     (if length value \<noteq> SHA256_DIGEST_HEX_LENGTH
      then Err (InvalidLength SHA256_DIGEST_HEX_LENGTH (length value))
      else parse_hex_pairs 0 value)"

lemma hex_nibble_hex_digit: "n < 16 \<Longrightarrow> hex_nibble (hex_digit n) = Some n"
  by (auto simp: hex_nibble_def hex_digit_def Let_def word_less_nat_alt unat_eqI of_char_of
      intro!: unat_eqI)

lemma low_nibble: "b AND 15 = take_bit 4 (b :: u8)"
proof -
  have "(15 :: u8) = mask 4" by (simp add: mask_eq_exp_minus_1)
  then show ?thesis by (simp only: take_bit_eq_mask)
qed

lemma byte_nibbles: "push_bit 4 (drop_bit 4 b) OR (b AND 15) = (b :: u8)"
  unfolding low_nibble by (rule bit_eqI) (auto simp: bit_simps)

lemma nibble_bounds: "drop_bit 4 (b :: u8) < 16" "(b AND 15) < 16"
proof -
  have "unat b < 2 ^ LENGTH(8)" by (rule unsigned_less)
  then have "unat b < 256" by simp
  then show "drop_bit 4 b < 16"
    by (simp add: word_less_nat_alt unat_drop_bit_eq drop_bit_nat_def)
  show "(b AND 15) < 16"
    unfolding low_nibble by (simp add: word_less_nat_alt take_bit_eq_mod unat_mod_distrib)
qed

lemma parse_hex_pairs_display: "parse_hex_pairs i (Sha256Digest_display d) = Ok d"
  by (induction d arbitrary: i)
     (simp_all add: Sha256Digest_display_def hex_nibble_hex_digit nibble_bounds byte_nibbles)

lemma length_display: "length (Sha256Digest_display d) = 2 * length d"
  by (induction d) (simp_all add: Sha256Digest_display_def)

lemma display_inj: "Sha256Digest_display d = Sha256Digest_display d' \<Longrightarrow> d = d'"
  by (metis parse_hex_pairs_display sum.inject(2))

lemma from_str_display: "length d = 32 \<Longrightarrow> Sha256Digest_from_str (Sha256Digest_display d) = Ok d"
  by (simp add: Sha256Digest_from_str_def parse_hex_pairs_display length_display
      SHA256_DIGEST_HEX_LENGTH_def SHA256_DIGEST_BYTES_def)

section \<open>Decimal integers\<close>

fun decimal_string :: "nat \<Rightarrow> string" where
  "decimal_string n = (if n < 10 then [char_of (48 + n)] else decimal_string (n div 10) @ [char_of (48 + n mod 10)])"

declare decimal_string.simps [simp del]

definition is_digit_char :: "char \<Rightarrow> bool" where
  "is_digit_char c \<longleftrightarrow> 48 \<le> (of_char c :: nat) \<and> (of_char c :: nat) \<le> 57"

definition decimal_value :: "string \<Rightarrow> nat" where
  "decimal_value s = foldl (\<lambda>n c. n * 10 + (of_char c - 48)) 0 s"

lemma digit_char: "(n :: nat) < 10 \<Longrightarrow> of_char (char_of (48 + n) :: char) = 48 + n"
  by (simp add: of_char_of)

lemma decimal_value_decimal: "decimal_value (decimal_string n) = n"
proof (induction n rule: decimal_string.induct)
  case (1 n)
  show ?case
  proof (cases "n < 10")
    case True
    then show ?thesis by (subst decimal_string.simps) (simp add: decimal_value_def digit_char)
  next
    case False
    with 1 show ?thesis
      by (subst decimal_string.simps) (simp add: decimal_value_def digit_char)
  qed
qed

lemma decimal_inj: "decimal_string m = decimal_string n \<Longrightarrow> m = n"
  by (metis decimal_value_decimal)

lemma decimal_digits: "\<forall>c \<in> set (decimal_string n). is_digit_char c"
proof (induction n rule: decimal_string.induct)
  case (1 n)
  then show ?case by (subst decimal_string.simps) (auto simp: is_digit_char_def digit_char)
qed

lemma length_decimal_le: "n < 10 ^ k \<Longrightarrow> 0 < k \<Longrightarrow> length (decimal_string n) \<le> k"
proof (induction k arbitrary: n)
  case (Suc k)
  show ?case
  proof (cases "n < 10")
    case True
    then show ?thesis by (subst decimal_string.simps) simp
  next
    case False
    with Suc.prems have "n div 10 < 10 ^ k" "0 < k"
      by (auto simp: less_mult_imp_div_less intro: gr0I)
    from Suc.IH[OF this] False show ?thesis by (subst decimal_string.simps) simp
  qed
qed simp

section \<open>Properties\<close>

text \<open>
  C38. Printing a 32-byte digest and parsing the text gives the digest back, so the two durable
  representations of a digest never disagree.
\<close>
theorem digest_roundtrip:
  assumes "length d = SHA256_DIGEST_BYTES"
  shows "Sha256Digest_from_str (Sha256Digest_display d) = Ok d"
  using assms by (simp add: from_str_display SHA256_DIGEST_BYTES_def)

theorem digest_roundtrip_witness:
  "length (replicate 32 (171 :: u8)) = SHA256_DIGEST_BYTES \<and>
   Sha256Digest_from_str (Sha256Digest_display (replicate 32 171)) = Ok (replicate 32 171)"
  using digest_roundtrip[of "replicate 32 171"] by (simp add: SHA256_DIGEST_BYTES_def)

end
