(* ===== verification/Content.thy ===== *)
theory Content
  imports Digest Ids
begin

text \<open>
  Durable content receipts of the runner spool, \<open>automata-ci-runner-spool/src/model.rs\<close>: kinds,
  identities, file-name keys, the padded allocation class charged for an endpoint result, and the
  capacity limits.  The protection of bytes and the file store are adapters and not part of this file.
\<close>

section \<open>Limits and errors\<close>

definition MAX_PROTECTION_ID_BYTES :: nat where
  "MAX_PROTECTION_ID_BYTES = 64"

definition MAX_CACHE_KEY_BYTES :: nat where
  "MAX_CACHE_KEY_BYTES = 192"

definition ENDPOINT_RESULT_ALLOCATION_GRANULE_BYTES :: u64 where
  "ENDPOINT_RESULT_ALLOCATION_GRANULE_BYTES = 65536"

definition ENDPOINT_RESULT_PROTECTED_ENVELOPE_BYTES :: u64 where
  "ENDPOINT_RESULT_PROTECTED_ENVELOPE_BYTES = 76"

definition MAX_CONTENT_OBJECT_BYTES :: u64 where
  "MAX_CONTENT_OBJECT_BYTES = 268435456"

definition MAX_CONTENT_SPOOL_BYTES :: u64 where
  "MAX_CONTENT_SPOOL_BYTES = 4294967296"

definition MAX_CONTENT_OBJECTS :: u32 where
  "MAX_CONTENT_OBJECTS = 65536"

lemmas spool_limits =
  MAX_PROTECTION_ID_BYTES_def MAX_CACHE_KEY_BYTES_def ENDPOINT_RESULT_ALLOCATION_GRANULE_BYTES_def
  ENDPOINT_RESULT_PROTECTED_ENVELOPE_BYTES_def MAX_CONTENT_OBJECT_BYTES_def
  MAX_CONTENT_SPOOL_BYTES_def MAX_CONTENT_OBJECTS_def

datatype SpoolInvariantError =
    InvalidProtectionId | InvalidCacheKey | InvalidContentIdentity | ObjectTooLarge | InvalidLimits
  | ProtectionOverheadExceeded | ContentMismatch | EndpointResultReservationRequired

section \<open>Endpoint result allocation classes\<close>

definition endpoint_result_allocation :: "u64 \<Rightarrow> (u64, SpoolInvariantError) result" where
  "endpoint_result_allocation plaintext_bytes =
     (if plaintext_bytes > MAX_CONTENT_OBJECT_BYTES then Err ObjectTooLarge
      else and_then (ok_or ObjectTooLarge
             (checked_add plaintext_bytes ENDPOINT_RESULT_PROTECTED_ENVELOPE_BYTES)) (\<lambda>required.
           and_then (ok_or ObjectTooLarge
             (checked_add required (ENDPOINT_RESULT_ALLOCATION_GRANULE_BYTES - 1))) (\<lambda>rounded.
           let rounded = rounded div ENDPOINT_RESULT_ALLOCATION_GRANULE_BYTES in
           ok_or ObjectTooLarge (checked_mul rounded ENDPOINT_RESULT_ALLOCATION_GRANULE_BYTES))))"

definition valid_endpoint_result_allocation :: "u64 \<Rightarrow> bool" where
  "valid_endpoint_result_allocation allocation_bytes \<longleftrightarrow>
     allocation_bytes \<ge> ENDPOINT_RESULT_ALLOCATION_GRANULE_BYTES \<and>
     allocation_bytes mod ENDPOINT_RESULT_ALLOCATION_GRANULE_BYTES = 0 \<and>
     allocation_bytes \<le> MAX_CONTENT_OBJECT_BYTES + ENDPOINT_RESULT_ALLOCATION_GRANULE_BYTES"

section \<open>Kinds, protection identifiers and cache keys\<close>

datatype ContentKind =
    KJobIr | KRuntimeAuthority | KTerminalResult | KLogSpool | KEndpointRequest | KEndpointResult

fun cache_prefix :: "ContentKind \<Rightarrow> string" where
  "cache_prefix KJobIr = ''job-ir''"
| "cache_prefix KRuntimeAuthority = ''runtime-authority''"
| "cache_prefix KTerminalResult = ''terminal-result''"
| "cache_prefix KLogSpool = ''log-spool''"
| "cache_prefix KEndpointRequest = ''endpoint-request''"
| "cache_prefix KEndpointResult = ''endpoint-result''"

definition is_ascii_alphanumeric :: "char \<Rightarrow> bool" where
  "is_ascii_alphanumeric c \<longleftrightarrow>
     (let b = of_char c :: nat in
      48 \<le> b \<and> b \<le> 57 \<or> 65 \<le> b \<and> b \<le> 90 \<or> 97 \<le> b \<and> b \<le> 122)"

definition portable_byte :: "char \<Rightarrow> bool" where
  "portable_byte c \<longleftrightarrow> is_ascii_alphanumeric c \<or> c \<in> set ''._-''"

type_synonym ProtectionId = string
type_synonym ContentCacheKey = string
type_synonym OpaqueContentIdentity = Sha256Digest

definition ProtectionId_new :: "string \<Rightarrow> (ProtectionId, SpoolInvariantError) result" where
  "ProtectionId_new value =
     (if value \<noteq> [] \<and> length value \<le> MAX_PROTECTION_ID_BYTES \<and> list_all portable_byte value
      then Ok value else Err InvalidProtectionId)"

definition ContentCacheKey_validated :: "string \<Rightarrow> (ContentCacheKey, SpoolInvariantError) result" where
  "ContentCacheKey_validated value =
     (if length value \<le> MAX_CACHE_KEY_BYTES \<and> list_all portable_byte value
      then Ok value else Err InvalidCacheKey)"

definition cache_key_text :: "ContentKind \<Rightarrow> ProtectionId \<Rightarrow> Sha256Digest \<Rightarrow> u64 \<Rightarrow> string" where
  "cache_key_text kind protection digest bytes =
     cache_prefix kind @ ''-'' @ protection @ ''-'' @ Sha256Digest_display digest @ ''-'' @
     decimal_string (unat bytes)"

definition derive_public ::
  "ContentKind \<Rightarrow> Sha256Digest \<Rightarrow> u64 \<Rightarrow> ProtectionId \<Rightarrow> (ContentCacheKey, SpoolInvariantError) result" where
  "derive_public kind digest bytes protection_id =
     (if kind = KEndpointResult then Err InvalidContentIdentity
      else ContentCacheKey_validated (cache_key_text kind protection_id digest bytes))"

definition derive_endpoint_result ::
  "OpaqueContentIdentity \<Rightarrow> u64 \<Rightarrow> ProtectionId \<Rightarrow> (ContentCacheKey, SpoolInvariantError) result" where
  "derive_endpoint_result identity allocation_bytes protection_id =
     ContentCacheKey_validated (cache_key_text KEndpointResult protection_id identity allocation_bytes)"

section \<open>Durable receipts\<close>

datatype DurableContentIdentity =
    Public (plaintext_bytes: u64) (plaintext_sha256: Sha256Digest)
  | EndpointResultIdentity (protected_allocation_bytes: u64) (opaque_identity: OpaqueContentIdentity)

record DurableContentRef =
  content_kind :: ContentKind
  identity :: DurableContentIdentity
  cache_key :: ContentCacheKey
  protection_id :: ProtectionId

definition derive_cache_key ::
  "ContentKind \<Rightarrow> DurableContentIdentity \<Rightarrow> ProtectionId \<Rightarrow> (ContentCacheKey, SpoolInvariantError) result" where
  "derive_cache_key kind ident protection =
     (case ident of
        Public bytes digest \<Rightarrow>
          if kind \<noteq> KEndpointResult \<and> bytes \<le> MAX_CONTENT_OBJECT_BYTES
          then derive_public kind digest bytes protection
          else Err InvalidContentIdentity
      | EndpointResultIdentity allocation opaque \<Rightarrow>
          if kind = KEndpointResult \<and> valid_endpoint_result_allocation allocation
          then derive_endpoint_result opaque allocation protection
          else Err InvalidContentIdentity)"

definition after_public_commit ::
  "ContentKind \<Rightarrow> u64 \<Rightarrow> Sha256Digest \<Rightarrow> ProtectionId \<Rightarrow> (DurableContentRef, SpoolInvariantError) result" where
  "after_public_commit kind bytes digest protection =
     (if kind = KEndpointResult then Err InvalidContentIdentity
      else if bytes > MAX_CONTENT_OBJECT_BYTES then Err ObjectTooLarge
      else and_then (derive_public kind digest bytes protection) (\<lambda>key.
           Ok \<lparr>content_kind = kind, identity = Public bytes digest, cache_key = key,
               protection_id = protection\<rparr>))"

definition after_endpoint_result_commit ::
  "u64 \<Rightarrow> OpaqueContentIdentity \<Rightarrow> ProtectionId \<Rightarrow> (DurableContentRef, SpoolInvariantError) result" where
  "after_endpoint_result_commit allocation opaque protection =
     (if \<not> valid_endpoint_result_allocation allocation then Err InvalidContentIdentity
      else and_then (derive_endpoint_result opaque allocation protection) (\<lambda>key.
           Ok \<lparr>content_kind = KEndpointResult, identity = EndpointResultIdentity allocation opaque,
               cache_key = key, protection_id = protection\<rparr>))"

definition accounted_bytes :: "DurableContentRef \<Rightarrow> u64" where
  "accounted_bytes self =
     (case identity self of Public bytes _ \<Rightarrow> bytes | EndpointResultIdentity allocation _ \<Rightarrow> allocation)"

definition public_plaintext_bytes :: "DurableContentRef \<Rightarrow> u64 option" where
  "public_plaintext_bytes self =
     (case identity self of Public bytes _ \<Rightarrow> Some bytes | EndpointResultIdentity _ _ \<Rightarrow> None)"

definition public_plaintext_sha256 :: "DurableContentRef \<Rightarrow> Sha256Digest option" where
  "public_plaintext_sha256 self =
     (case identity self of Public _ digest \<Rightarrow> Some digest | EndpointResultIdentity _ _ \<Rightarrow> None)"

definition endpoint_result_allocation_bytes :: "DurableContentRef \<Rightarrow> u64 option" where
  "endpoint_result_allocation_bytes self =
     (case identity self of EndpointResultIdentity allocation _ \<Rightarrow> Some allocation | Public _ _ \<Rightarrow> None)"

definition endpoint_result_identity :: "DurableContentRef \<Rightarrow> OpaqueContentIdentity option" where
  "endpoint_result_identity self =
     (case identity self of EndpointResultIdentity _ opaque \<Rightarrow> Some opaque | Public _ _ \<Rightarrow> None)"

definition DurableContentRef_validate :: "DurableContentRef \<Rightarrow> (unit, SpoolInvariantError) result" where
  "DurableContentRef_validate self =
     and_then (derive_cache_key (content_kind self) (identity self) (protection_id self)) (\<lambda>expected.
     if cache_key self = expected then Ok () else Err InvalidCacheKey)"

section \<open>Spool limits\<close>

record SpoolLimits =
  object_bytes :: u64
  total_bytes :: u64
  objects :: u32
  protection_overhead_bytes :: u64

definition SpoolLimits_new :: "u64 \<Rightarrow> u64 \<Rightarrow> u32 \<Rightarrow> u64 \<Rightarrow> (SpoolLimits, SpoolInvariantError) result" where
  "SpoolLimits_new max_object max_total max_objects overhead =
     (let encoded_object = checked_add max_object overhead;
          valid = max_object > 0 \<and> max_object \<le> MAX_CONTENT_OBJECT_BYTES \<and>
            max_total \<ge> max_object \<and> max_total \<le> MAX_CONTENT_SPOOL_BYTES \<and>
            max_objects > 0 \<and> max_objects \<le> MAX_CONTENT_OBJECTS \<and>
            (case encoded_object of None \<Rightarrow> False | Some encoded \<Rightarrow> encoded \<le> max_total) in
      if valid
      then Ok \<lparr>object_bytes = max_object, total_bytes = max_total, objects = max_objects,
               protection_overhead_bytes = overhead\<rparr>
      else Err InvalidLimits)"

definition max_encoded_object_bytes :: "SpoolLimits \<Rightarrow> u64" where
  "max_encoded_object_bytes self = object_bytes self + protection_overhead_bytes self"

definition SpoolLimits_default :: SpoolLimits where
  "SpoolLimits_default =
     \<lparr>object_bytes = MAX_CONTENT_OBJECT_BYTES, total_bytes = MAX_CONTENT_SPOOL_BYTES,
      objects = MAX_CONTENT_OBJECTS, protection_overhead_bytes = 1048576\<rparr>"

section \<open>Allocation classes\<close>

lemma endpoint_result_allocation_value:
  assumes "p \<le> MAX_CONTENT_OBJECT_BYTES"
  shows "\<exists>a. endpoint_result_allocation p = Ok a \<and>
    unat a = 65536 * ((unat p + 65611) div 65536)"
proof -
  from assms have p: "unat p \<le> 268435456" by (simp add: spool_limits word_le_nat_alt)
  define q where "q = (65611 + p) div 65536"
  have add: "checked_add p 76 = Some (p + 76)" "unat (p + 76) = unat p + 76"
    using p by (auto simp: checked_add_def unat_word_ariths)
  moreover have add2: "checked_add (p + 76) 65535 = Some (65611 + p)"
    "unat (65611 + p) = unat p + 65611"
    using p by (auto simp: checked_add_def unat_word_ariths)
  then have q: "unat q = (unat p + 65611) div 65536"
    by (simp add: q_def unat_div_distrib)
  then have "unat q \<le> 4097" using p by linarith
  then have mul: "checked_mul q 65536 = Some (q * 65536)" "unat (q * 65536) = unat q * 65536"
    by (auto simp: checked_mul_def unat_word_ariths)
  from assms add add2 mul q show ?thesis
    by (auto simp: endpoint_result_allocation_def spool_limits Let_def q_def[symmetric] not_less)
qed

lemma valid_allocation_iff:
  "valid_endpoint_result_allocation a \<longleftrightarrow>
     65536 \<le> unat a \<and> unat a mod 65536 = 0 \<and> unat a \<le> 268500992"
proof -
  have "a mod 65536 = 0 \<longleftrightarrow> unat (a mod 65536) = 0" by (simp only: unat_eq_0)
  also have "unat (a mod 65536) = unat a mod 65536" by (simp add: unat_mod_distrib)
  finally show ?thesis
    by (simp only: valid_endpoint_result_allocation_def spool_limits word_le_nat_alt) simp
qed

section \<open>Cache keys\<close>

lemma last_separator:
  "xs @ x # ys = xs' @ x # ys' \<Longrightarrow> x \<notin> set ys \<Longrightarrow> x \<notin> set ys' \<Longrightarrow> xs = xs' \<and> ys = ys'"
proof (induction ys arbitrary: ys' rule: rev_induct)
  case Nil
  then show ?case by (cases ys' rule: rev_cases) auto
next
  case (snoc y ys)
  then show ?case
  proof (cases ys' rule: rev_cases)
    case (snoc zs z)
    with snoc.IH[of zs] snoc.prems show ?thesis by auto
  qed auto
qed

lemma cache_prefix_inj:
  "cache_prefix k @ CHR ''-'' # p = cache_prefix k' @ CHR ''-'' # p' \<Longrightarrow> k = k' \<and> p = p'"
  by (cases k; cases k') simp_all

lemma digits_no_dash: "CHR ''-'' \<notin> set (decimal_string n)"
  using decimal_digits[of n] by (auto simp: is_digit_char_def)

lemma cache_key_text_inj:
  assumes "cache_key_text k p d n = cache_key_text k' p' d' n'" "length d = length d'"
  shows "k = k' \<and> p = p' \<and> d = d' \<and> n = n'"
proof -
  have "(cache_prefix k @ ''-'' @ p @ ''-'' @ Sha256Digest_display d) @ CHR ''-'' # decimal_string (unat n) =
        (cache_prefix k' @ ''-'' @ p' @ ''-'' @ Sha256Digest_display d') @ CHR ''-'' # decimal_string (unat n')"
    using assms(1) by (simp add: cache_key_text_def)
  from last_separator[OF this digits_no_dash digits_no_dash]
  have n: "unat n = unat n'" and
    front: "(cache_prefix k @ CHR ''-'' # p) @ CHR ''-'' # Sha256Digest_display d =
     (cache_prefix k' @ CHR ''-'' # p') @ CHR ''-'' # Sha256Digest_display d'"
    by (auto dest: decimal_inj)
  have "length (CHR ''-'' # Sha256Digest_display d) = length (CHR ''-'' # Sha256Digest_display d')"
    by (simp add: length_display assms(2))
  with front have "cache_prefix k @ CHR ''-'' # p = cache_prefix k' @ CHR ''-'' # p'"
    and "Sha256Digest_display d = Sha256Digest_display d'"
    by (simp_all only: append_eq_append_conv simp_thms list.inject)
  with n show ?thesis by (auto dest: cache_prefix_inj display_inj intro: unat_eqI)
qed

lemma portable_digits: "is_digit_char c \<Longrightarrow> portable_byte c"
  by (simp add: is_digit_char_def portable_byte_def is_ascii_alphanumeric_def)

lemma portable_hex: "n < 16 \<Longrightarrow> portable_byte (hex_digit n)"
  by (auto simp: hex_digit_def portable_byte_def is_ascii_alphanumeric_def of_char_of word_less_nat_alt)

lemma portable_display: "list_all portable_byte (Sha256Digest_display d)"
  by (induction d) (auto simp: Sha256Digest_display_def intro!: portable_hex nibble_bounds)

lemma cache_prefix_portable: "list_all portable_byte (cache_prefix k) \<and> length (cache_prefix k) \<le> 17"
  by (cases k) (simp_all add: portable_byte_def is_ascii_alphanumeric_def)

lemma cache_key_validates:
  assumes "ProtectionId_new p0 = Ok p" "length d = 32"
  shows "ContentCacheKey_validated (cache_key_text k p d n) = Ok (cache_key_text k p d n)"
proof -
  have "unat n < 2 ^ LENGTH(64)" by (rule unsigned_less)
  then have "length (decimal_string (unat n)) \<le> 20" by (intro length_decimal_le) auto
  moreover have "list_all portable_byte (decimal_string (unat n))"
    using decimal_digits[of "unat n"] by (auto simp: list_all_iff intro: portable_digits)
  moreover have "length p \<le> 64" "list_all portable_byte p"
    using assms(1) by (auto simp: ProtectionId_new_def spool_limits split: if_splits)
  moreover have "portable_byte (CHR ''-'')" by (simp add: portable_byte_def)
  ultimately show ?thesis
    using cache_prefix_portable[of k] portable_display[of d] assms(2)
    by (simp add: ContentCacheKey_validated_def cache_key_text_def spool_limits length_display)
qed

section \<open>Properties\<close>

text \<open>
  For every plaintext size up to the object bound the padded allocation of an endpoint result is
  computed without overflow, is a valid allocation class, leaves room for the protection envelope and
  wastes less than one granule.
\<close>
theorem allocation_class_fits:
  assumes "p \<le> MAX_CONTENT_OBJECT_BYTES"
  shows "\<exists>a. endpoint_result_allocation p = Ok a \<and> valid_endpoint_result_allocation a \<and>
    unat p + unat ENDPOINT_RESULT_PROTECTED_ENVELOPE_BYTES \<le> unat a \<and>
    unat a < unat p + unat ENDPOINT_RESULT_PROTECTED_ENVELOPE_BYTES +
      unat ENDPOINT_RESULT_ALLOCATION_GRANULE_BYTES"
proof -
  define q where "q = (unat p + 65611) div 65536"
  from endpoint_result_allocation_value[OF assms] obtain a where
    a: "endpoint_result_allocation p = Ok a" "unat a = 65536 * q" unfolding q_def by blast
  from assms have p: "unat p \<le> 268435456" by (simp add: spool_limits word_le_nat_alt)
  have below: "65536 * q \<le> unat p + 65611" unfolding q_def by (rule times_div_less_eq_dividend)
  have above: "unat p + 65611 < 65536 + 65536 * q"
    unfolding q_def by (rule dividend_less_times_div) simp
  from p below above have q: "1 \<le> q" "q \<le> 4097" by linarith+
  with p below above have "65536 \<le> unat a" "unat a \<le> 268500992" "unat p + 76 \<le> unat a"
    "unat a < unat p + 76 + 65536"
    unfolding a(2) by linarith+
  moreover have "unat a mod 65536 = 0" by (simp add: a(2))
  ultimately show ?thesis using a(1) by (auto simp: valid_allocation_iff spool_limits)
qed

theorem allocation_class_fits_witness:
  "\<exists>a. endpoint_result_allocation 65461 = Ok a \<and> valid_endpoint_result_allocation a \<and>
    65537 \<le> unat a \<and> unat a < 131073"
  using allocation_class_fits[of 65461] by (simp add: spool_limits)

text \<open>
  C37. File names in the spool never collide: two receipts with the same cache key have the same kind,
  the same identity and the same protection key.  Digests have their fixed length; protection identifiers may
  contain the separator.
\<close>
theorem cache_keys_never_collide:
  assumes "derive_cache_key k i p = Ok key" "derive_cache_key k' i' p' = Ok key"
    and "length (case i of Public _ d \<Rightarrow> d | EndpointResultIdentity _ d \<Rightarrow> d) = 32"
    and "length (case i' of Public _ d \<Rightarrow> d | EndpointResultIdentity _ d \<Rightarrow> d) = 32"
  shows "k = k' \<and> i = i' \<and> p = p'"
  using assms
  by (auto simp: derive_cache_key_def derive_public_def derive_endpoint_result_def
      ContentCacheKey_validated_def split: DurableContentIdentity.splits if_splits
      dest: cache_key_text_inj)

theorem cache_keys_never_collide_witness:
  "derive_cache_key KJobIr (Public 7 (replicate 32 0)) ''k-1'' \<noteq>
   derive_cache_key KJobIr (Public 7 (replicate 32 0)) ''k''"
  using cache_keys_never_collide[of KJobIr "Public 7 (replicate 32 0)" "''k-1''"
      "cache_key_text KJobIr ''k-1'' (replicate 32 0) 7" KJobIr "Public 7 (replicate 32 0)" "''k''"]
    cache_key_validates[of "''k-1''" "''k-1''" "replicate 32 0" KJobIr 7]
  by (auto simp: derive_cache_key_def derive_public_def spool_limits ProtectionId_new_def
      portable_byte_def is_ascii_alphanumeric_def)

text \<open>
  A receipt for content within the object bound is always issued, and what is issued passes the
  consistency check that guards reopening it.
\<close>
theorem public_receipt_validates:
  assumes "ProtectionId_new p0 = Ok p" "length d = 32" "n \<le> MAX_CONTENT_OBJECT_BYTES"
    and "k \<noteq> KEndpointResult"
  shows "\<exists>r. after_public_commit k n d p = Ok r \<and> DurableContentRef_validate r = Ok () \<and>
    accounted_bytes r = n \<and> public_plaintext_sha256 r = Some d"
  using assms cache_key_validates[OF assms(1,2), of k n]
  by (auto simp: after_public_commit_def derive_public_def DurableContentRef_validate_def
      derive_cache_key_def accounted_bytes_def public_plaintext_sha256_def not_less)

theorem public_receipt_validates_witness:
  "\<exists>r. after_public_commit KLogSpool 10 (replicate 32 1) ''key'' = Ok r \<and>
    DurableContentRef_validate r = Ok () \<and> accounted_bytes r = 10 \<and>
    public_plaintext_sha256 r = Some (replicate 32 1)"
  by (rule public_receipt_validates[of "''key''"])
     (simp_all add: ProtectionId_new_def spool_limits portable_byte_def is_ascii_alphanumeric_def)

text \<open>
  Accepted spool limits never overflow: the largest encoded object is the exact sum of its bounds and
  fits the spool.
\<close>
theorem spool_limits_do_not_overflow:
  assumes "SpoolLimits_new o_max t_max n_max overhead = Ok limits"
  shows "unat (max_encoded_object_bytes limits) = unat o_max + unat overhead \<and>
    max_encoded_object_bytes limits \<le> total_bytes limits"
proof -
  from assms obtain encoded where "checked_add o_max overhead = Some encoded" "encoded \<le> t_max"
    and limits: "limits = \<lparr>object_bytes = o_max, total_bytes = t_max, objects = n_max,
      protection_overhead_bytes = overhead\<rparr>"
    by (auto simp: SpoolLimits_new_def Let_def split: if_splits option.splits)
  moreover from this have "encoded = o_max + overhead"
    by (simp add: checked_add_def split: if_splits)
  ultimately show ?thesis
    by (auto simp: max_encoded_object_bytes_def checked_simps)
qed

theorem spool_limits_do_not_overflow_witness:
  "SpoolLimits_new 100 1000 5 50 = Ok \<lparr>object_bytes = 100, total_bytes = 1000, objects = 5,
      protection_overhead_bytes = 50\<rparr> \<and>
   unat (max_encoded_object_bytes \<lparr>object_bytes = 100, total_bytes = 1000, objects = 5,
      protection_overhead_bytes = 50\<rparr>) = 150"
proof -
  have new: "SpoolLimits_new 100 1000 5 50 = Ok \<lparr>object_bytes = 100, total_bytes = 1000, objects = 5,
      protection_overhead_bytes = 50\<rparr>"
    by (simp add: SpoolLimits_new_def spool_limits checked_add_def)
  from spool_limits_do_not_overflow[OF new] new show ?thesis by simp
qed

end
