(* ===== verification/Text.thy ===== *)
theory Text
  imports Prelude
begin

text \<open>
  Text as the standard library of the sources sees it, for the components that inspect it character by character:
  a string is the list of its Unicode scalar values.  The theory holds the character classes, \<open>trim\<close>,
  \<open>split\<close>, \<open>split_once\<close>, \<open>strip_suffix\<close>, and the decimal notation of unsigned integers in both
  directions.
\<close>

section \<open>Characters and trimming\<close>

type_synonym utext = "nat list"

definition utf8_length :: "utext \<Rightarrow> nat" where
  "utf8_length s =
     sum_list (map (\<lambda>c. if c < 128 then 1 else if c < 2048 then 2 else if c < 65536 then 3 else 4) s)"

text \<open>\<open>char::is_whitespace\<close> and \<open>char::is_control\<close>.\<close>

definition is_whitespace :: "nat \<Rightarrow> bool" where
  "is_whitespace c \<longleftrightarrow> 9 \<le> c \<and> c \<le> 13 \<or> c = 32 \<or> c = 133 \<or> c = 160 \<or> c = 5760 \<or>
     8192 \<le> c \<and> c \<le> 8202 \<or> c = 8232 \<or> c = 8233 \<or> c = 8239 \<or> c = 8287 \<or> c = 12288"

definition is_control :: "nat \<Rightarrow> bool" where
  "is_control c \<longleftrightarrow> c \<le> 31 \<or> 127 \<le> c \<and> c \<le> 159"

definition is_ascii :: "utext \<Rightarrow> bool" where
  "is_ascii s = list_all (\<lambda>c. c < 128) s"

definition trim :: "utext \<Rightarrow> utext" where
  "trim s = rev (dropWhile is_whitespace (rev (dropWhile is_whitespace s)))"

lemma trim_eq_Nil: "trim s = [] \<longleftrightarrow> list_all is_whitespace s"
proof (cases "dropWhile is_whitespace s = []")
  case True
  have "trim s = []" unfolding trim_def True by simp
  moreover from True have "list_all is_whitespace s" by (simp add: list_all_iff dropWhile_eq_Nil_conv)
  ultimately show ?thesis by simp
next
  case False
  then have "\<not> is_whitespace (hd (dropWhile is_whitespace s))" by (rule hd_dropWhile)
  moreover from False have "hd (dropWhile is_whitespace s) \<in> set (dropWhile is_whitespace s)" by simp
  ultimately have "trim s \<noteq> []"
    unfolding trim_def rev_is_Nil_conv dropWhile_eq_Nil_conv set_rev by blast
  with False show ?thesis by (auto simp: list_all_iff)
qed

section \<open>Splitting\<close>

definition chars :: "string \<Rightarrow> utext" where
  "chars s = map of_char s"

fun split_char :: "nat \<Rightarrow> utext \<Rightarrow> utext list" where
  "split_char sep [] = [[]]"
| "split_char sep (c # cs) =
     (if c = sep then [] # split_char sep cs
      else case split_char sep cs of [] \<Rightarrow> [[c]] | part # parts \<Rightarrow> (c # part) # parts)"

fun split_once :: "nat \<Rightarrow> utext \<Rightarrow> (utext \<times> utext) option" where
  "split_once sep [] = None"
| "split_once sep (c # cs) =
     (if c = sep then Some ([], cs)
      else map_option (\<lambda>(front, back). (c # front, back)) (split_once sep cs))"

definition strip_suffix :: "utext \<Rightarrow> utext \<Rightarrow> utext option" where
  "strip_suffix suffix s =
     (if length suffix \<le> length s \<and> drop (length s - length suffix) s = suffix
      then Some (take (length s - length suffix) s) else None)"

lemma split_char_not_Nil [simp]: "split_char sep s \<noteq> []"
  by (cases s) (simp_all split: list.splits)

lemma split_char_plain: "sep \<notin> set s \<Longrightarrow> split_char sep s = [s]"
  by (induction s) auto

lemma split_char_append: "sep \<notin> set s \<Longrightarrow> split_char sep (s @ sep # t) = s # split_char sep t"
  by (induction s) auto

lemma split_once_eq_None: "split_once sep s = None \<longleftrightarrow> sep \<notin> set s"
  by (induction s) auto

lemma split_once_append: "sep \<notin> set s \<Longrightarrow> split_once sep (s @ sep # t) = Some (s, t)"
  by (induction s) auto

lemma strip_suffix_eq_Some: "strip_suffix suffix s = Some t \<longleftrightarrow> s = t @ suffix"
proof
  assume "strip_suffix suffix s = Some t"
  then show "s = t @ suffix"
    by (auto simp: strip_suffix_def split: if_splits) (metis append_take_drop_id)
qed (auto simp: strip_suffix_def)

lemma strip_suffix_eq_None: "strip_suffix suffix s = None \<longleftrightarrow> (\<forall>t. s \<noteq> t @ suffix)"
  by (metis not_None_eq strip_suffix_eq_Some)

lemma strip_suffix_last: "suffix \<noteq> [] \<Longrightarrow> last s \<noteq> last suffix \<Longrightarrow> strip_suffix suffix s = None"
  by (auto simp: strip_suffix_eq_None)

lemma strip_suffix_two: "a \<noteq> c \<Longrightarrow> strip_suffix [a, x] (s @ [c, y]) = None"
  by (auto simp: strip_suffix_eq_None append_eq_append_conv2 Cons_eq_append_conv append_eq_Cons_conv)

section \<open>Decimal notation\<close>

lemma unat_of_nat_small: "n < 2 ^ LENGTH('a) \<Longrightarrow> unat (of_nat n :: 'a::len word) = n"
  by (simp add: unat_of_nat take_bit_nat_eq_self)

lemma of_nat_eq_0_small: "n < 2 ^ LENGTH('a) \<Longrightarrow> (of_nat n :: 'a::len word) = 0 \<longleftrightarrow> n = 0"
  by (auto simp: word_of_nat_eq_0_iff dest: dvd_imp_le)

definition is_digit :: "nat \<Rightarrow> bool" where
  "is_digit c \<longleftrightarrow> 48 \<le> c \<and> c \<le> 57"

definition decimal :: "utext \<Rightarrow> nat" where
  "decimal s = foldl (\<lambda>n c. n * 10 + (c - 48)) 0 s"

text \<open>\<open>str::parse\<close> for an unsigned integer: an optional plus sign, at least one digit, no overflow.\<close>

definition parse_word :: "utext \<Rightarrow> 'a::len word option" where
  "parse_word s =
     (let digits = (case s of c # cs \<Rightarrow> if c = 43 then cs else s | [] \<Rightarrow> s) in
      if digits \<noteq> [] \<and> list_all is_digit digits \<and> decimal digits < 2 ^ LENGTH('a)
      then Some (of_nat (decimal digits)) else None)"

text \<open>\<open>Display\<close> for an unsigned integer.\<close>

fun print_nat :: "nat \<Rightarrow> utext" where
  "print_nat n = (if n < 10 then [48 + n] else print_nat (n div 10) @ [48 + n mod 10])"

declare print_nat.simps [simp del]

lemma decimal_snoc: "decimal (s @ [c]) = decimal s * 10 + (c - 48)"
  by (simp add: decimal_def)

lemma is_digit_add: "n < 10 \<Longrightarrow> is_digit (48 + n)"
  by (simp add: is_digit_def)

lemma print_nat_digits: "print_nat n \<noteq> []" "list_all is_digit (print_nat n)" "decimal (print_nat n) = n"
proof (induction n rule: print_nat.induct)
  case (1 n)
  { case 1 show ?case by (subst print_nat.simps) simp }
  { case 2 show ?case using "1.IH" by (subst print_nat.simps) (simp add: is_digit_add) }
  { case 3
    show ?case
    proof (cases "n < 10")
      case True
      then show ?thesis by (simp add: print_nat.simps decimal_def)
    next
      case False
      then show ?thesis using "1.IH"(3) by (subst print_nat.simps) (simp add: decimal_snoc)
    qed }
qed

lemma parse_word_digits:
  "s \<noteq> [] \<Longrightarrow> list_all is_digit s \<Longrightarrow>
   (parse_word s :: 'a::len word option) =
     (if decimal s < 2 ^ LENGTH('a) then Some (of_nat (decimal s)) else None)"
  by (cases s) (auto simp: parse_word_def is_digit_def Let_def)

lemma parse_print_nat:
  "(parse_word (print_nat n) :: 'a::len word option) = (if n < 2 ^ LENGTH('a) then Some (of_nat n) else None)"
  by (simp add: parse_word_digits print_nat_digits)

lemma digit_not_whitespace: "is_digit c \<Longrightarrow> \<not> is_whitespace c"
  by (auto simp: is_digit_def is_whitespace_def)

lemma trim_id:
  assumes "s \<noteq> []" "\<not> is_whitespace (hd s)" "\<not> is_whitespace (last s)"
  shows "trim s = s"
proof -
  have "dropWhile is_whitespace s = s" using assms(1,2) by (cases s) auto
  moreover have "dropWhile is_whitespace (rev s) = rev s" using assms(1,3) by (cases s rule: rev_cases) auto
  ultimately show ?thesis by (simp add: trim_def)
qed

lemma digits_ascii: "list_all is_digit s \<Longrightarrow> utf8_length s = length s"
  by (induction s) (auto simp: utf8_length_def is_digit_def)

end
