(* ===== verification/Log.thy ===== *)
theory Log
  imports Ids Text
begin

text \<open>
  Execution-log frames and acknowledgements, \<open>automata-ci-core/src/log.rs\<close>.  A group display name is
  the list of its Unicode scalar values, because it is inspected character by character; its byte
  length is the length of its UTF-8 encoding.
\<close>

section \<open>Limits and errors\<close>

definition LOG_SCHEMA_VERSION :: u16 where "LOG_SCHEMA_VERSION = 3"
definition MAX_LOG_FRAME_BYTES :: nat where "MAX_LOG_FRAME_BYTES = 1048576"
definition MAX_LOG_GROUP_ID_BYTES :: nat where "MAX_LOG_GROUP_ID_BYTES = 256"
definition MAX_LOG_GROUP_NAME_BYTES :: nat where "MAX_LOG_GROUP_NAME_BYTES = 512"

lemmas log_limits =
  LOG_SCHEMA_VERSION_def MAX_LOG_FRAME_BYTES_def MAX_LOG_GROUP_ID_BYTES_def MAX_LOG_GROUP_NAME_BYTES_def

datatype LogValidationError =
    LogUnsupportedSchema u16 u16
  | EmptyOutput | EmptyGroupId | GroupIdTooLarge nat | InvalidGroupId | EmptyGroupName
  | GroupNameTooLarge nat | InvalidGroupName | SelfParentGroup | FrameTooLarge nat nat
  | SequenceExhausted

section \<open>Sequences\<close>

type_synonym LogSequence = u64

definition LogSequence_checked_next :: "LogSequence \<Rightarrow> (LogSequence, LogValidationError) result" where
  "LogSequence_checked_next self = ok_or SequenceExhausted (checked_add self 1)"

lemma LogSequence_checked_next_eq_Ok [result_simps]:
  "LogSequence_checked_next s = Ok s' \<longleftrightarrow> unat s' = unat s + 1"
  by (simp add: LogSequence_checked_next_def result_simps checked_simps)

section \<open>Groups, records and frames\<close>

datatype LogChannel = Stdout | Stderr | System

type_synonym LogGroupId = string

definition log_group_id_byte :: "char \<Rightarrow> bool" where
  "log_group_id_byte c \<longleftrightarrow>
     (let b = of_char c :: nat in
      48 \<le> b \<and> b \<le> 57 \<or> 65 \<le> b \<and> b \<le> 90 \<or> 97 \<le> b \<and> b \<le> 122) \<or> c \<in> set '':._-/''"

definition LogGroupId_new :: "string \<Rightarrow> (LogGroupId, LogValidationError) result" where
  "LogGroupId_new value =
     (if value = [] then Err EmptyGroupId
      else if length value > MAX_LOG_GROUP_ID_BYTES then Err (GroupIdTooLarge MAX_LOG_GROUP_ID_BYTES)
      else if \<not> list_all log_group_id_byte value then Err InvalidGroupId
      else Ok value)"

datatype LogGroupKind = Setup | Step | ActionPre | ActionPost | Cleanup

record LogGroup =
  group_id :: LogGroupId
  parent_id :: "LogGroupId option"
  group_name :: utext
  group_kind :: LogGroupKind
  ordinal :: u32

definition invalid_log_group_name_character :: "nat \<Rightarrow> bool" where
  "invalid_log_group_name_character c \<longleftrightarrow> is_control c \<or> c = 1564 \<or> 8206 \<le> c \<and> c \<le> 8207 \<or>
     8234 \<le> c \<and> c \<le> 8238 \<or> 8294 \<le> c \<and> c \<le> 8297"

definition LogGroup_validate :: "LogGroup \<Rightarrow> (unit, LogValidationError) result" where
  "LogGroup_validate self =
     (if trim (group_name self) = [] then Err EmptyGroupName
      else if utf8_length (group_name self) > MAX_LOG_GROUP_NAME_BYTES
      then Err (GroupNameTooLarge MAX_LOG_GROUP_NAME_BYTES)
      else if list_ex invalid_log_group_name_character (group_name self) then Err InvalidGroupName
      else if parent_id self = Some (group_id self) then Err SelfParentGroup
      else Ok ())"

definition LogGroup_new ::
  "LogGroupId \<Rightarrow> LogGroupId option \<Rightarrow> utext \<Rightarrow> LogGroupKind \<Rightarrow> u32 \<Rightarrow> (LogGroup, LogValidationError) result" where
  "LogGroup_new gid parent name kind ord =
     (let grp = \<lparr>group_id = gid, parent_id = parent, group_name = name, group_kind = kind,
                   ordinal = ord\<rparr> in
      and_then (LogGroup_validate grp) (\<lambda>_. Ok grp))"

datatype JobConclusion =
    ConclusionSuccess | ConclusionFailure | ConclusionCancelled | ConclusionTimedOut | ConclusionSkipped

datatype LogRecord =
    GroupStarted LogGroup
  | LogOutput LogGroupId LogChannel "u8 list"
  | GroupFinished LogGroupId JobConclusion
  | StreamFinished

record LogFrame =
  frame_schema_version :: u16
  frame_stream_id :: LogStreamId
  frame_attempt_id :: AttemptId
  frame_sequence :: LogSequence
  emitted_at :: UnixMillis
  frame_record :: LogRecord

definition LogFrame_validate :: "LogFrame \<Rightarrow> (unit, LogValidationError) result" where
  "LogFrame_validate self =
     (if frame_schema_version self \<noteq> LOG_SCHEMA_VERSION
      then Err (LogUnsupportedSchema LOG_SCHEMA_VERSION (frame_schema_version self))
      else case frame_record self of
        GroupStarted grp \<Rightarrow> LogGroup_validate grp
      | LogOutput _ _ payload \<Rightarrow>
          if payload = [] then Err EmptyOutput
          else if length payload > MAX_LOG_FRAME_BYTES
          then Err (FrameTooLarge (length payload) MAX_LOG_FRAME_BYTES)
          else Ok ()
      | GroupFinished _ _ \<Rightarrow> Ok ()
      | StreamFinished \<Rightarrow> Ok ())"

definition LogFrame_new ::
  "LogStreamId \<Rightarrow> AttemptId \<Rightarrow> LogSequence \<Rightarrow> UnixMillis \<Rightarrow> LogRecord \<Rightarrow>
   (LogFrame, LogValidationError) result" where
  "LogFrame_new stream attempt sequence emitted record =
     (let frame = \<lparr>frame_schema_version = LOG_SCHEMA_VERSION, frame_stream_id = stream,
                   frame_attempt_id = attempt, frame_sequence = sequence, emitted_at = emitted,
                   frame_record = record\<rparr> in
      and_then (LogFrame_validate frame) (\<lambda>_. Ok frame))"

fun record_channel :: "LogRecord \<Rightarrow> LogChannel option" where
  "record_channel (LogOutput _ channel _) = Some channel"
| "record_channel _ = None"

fun record_payload :: "LogRecord \<Rightarrow> u8 list" where
  "record_payload (LogOutput _ _ payload) = payload"
| "record_payload _ = []"

definition is_end_of_stream :: "LogFrame \<Rightarrow> bool" where
  "is_end_of_stream self \<longleftrightarrow> frame_record self = StreamFinished"

section \<open>Acknowledgements\<close>

record LogAck =
  ack_schema_version :: u16
  ack_stream_id :: LogStreamId
  contiguous_through :: "LogSequence option"

definition LogAck_new :: "LogStreamId \<Rightarrow> LogSequence option \<Rightarrow> LogAck" where
  "LogAck_new stream through =
     \<lparr>ack_schema_version = LOG_SCHEMA_VERSION, ack_stream_id = stream, contiguous_through = through\<rparr>"

definition next_expected :: "LogAck \<Rightarrow> (LogSequence, LogValidationError) result" where
  "next_expected self =
     (case contiguous_through self of
        Some sequence \<Rightarrow> LogSequence_checked_next sequence
      | None \<Rightarrow> Ok 0)"

definition LogAck_validate :: "LogAck \<Rightarrow> (unit, LogValidationError) result" where
  "LogAck_validate self =
     (if ack_schema_version self = LOG_SCHEMA_VERSION then Ok ()
      else Err (LogUnsupportedSchema LOG_SCHEMA_VERSION (ack_schema_version self)))"

section \<open>Properties\<close>

text \<open>
  A frame that can be built validates at every later boundary, its payload is within the frame
  bound, a started group has a visible display name without control or directional formatting characters,
  and it is not its own parent.
\<close>
theorem built_frame_validates:
  assumes "LogFrame_new stream attempt sequence emitted record = Ok frame"
  shows "LogFrame_validate frame = Ok () \<and>
    length (record_payload (frame_record frame)) \<le> MAX_LOG_FRAME_BYTES \<and>
    (case frame_record frame of
       GroupStarted grp \<Rightarrow>
         list_ex (\<lambda>c. \<not> is_whitespace c) (group_name grp) \<and>
         list_all (\<lambda>c. \<not> invalid_log_group_name_character c) (group_name grp) \<and>
         parent_id grp \<noteq> Some (group_id grp)
     | LogOutput _ _ payload \<Rightarrow> payload \<noteq> []
     | _ \<Rightarrow> True)"
  using assms
  by (auto simp: LogFrame_new_def LogFrame_validate_def LogGroup_validate_def Let_def result_simps
      trim_eq_Nil list_all_iff list_ex_iff split: LogRecord.splits if_splits)

theorem built_frame_validates_witness:
  "LogFrame_validate \<lparr>frame_schema_version = 3, frame_stream_id = 1, frame_attempt_id = 2,
     frame_sequence = 0, emitted_at = 5, frame_record = LogOutput ''step'' Stdout [104, 105]\<rparr> = Ok ()"
  using built_frame_validates[of 1 2 0 5 "LogOutput ''step'' Stdout [104, 105]"]
  by (simp add: LogFrame_new_def LogFrame_validate_def log_limits)

end
