(* ===== verification/JournalBase.thy ===== *)
theory JournalBase
  imports JournalError Content Log
begin

text \<open>
  Bounds and content references of the crash-durable runner journal:
  \<open>automata-ci-runner-journal/src/lib.rs\<close> and \<open>model/content.rs\<close>.
\<close>

section \<open>Bounds\<close>

definition RUNNER_JOURNAL_SCHEMA_VERSION :: u16 where "RUNNER_JOURNAL_SCHEMA_VERSION = 6"
definition MAX_DELIVERY_ENQUEUED_AT_MILLIS :: int where
  "MAX_DELIVERY_ENQUEUED_AT_MILLIS = 253402300799999"
definition MAX_JOURNAL_BYTES :: nat where "MAX_JOURNAL_BYTES = 16777216"
definition MAX_JOURNALED_SLOTS :: nat where "MAX_JOURNALED_SLOTS = 256"
definition MAX_PROVIDER_OPERATIONS_PER_SLOT :: nat where "MAX_PROVIDER_OPERATIONS_PER_SLOT = 32"
definition MAX_LOGICAL_STEPS :: nat where "MAX_LOGICAL_STEPS = 2048"
definition MAX_ENDPOINT_OPERATIONS_PER_JOB :: nat where
  "MAX_ENDPOINT_OPERATIONS_PER_JOB = MAX_LOGICAL_STEPS * 15 + 2"
definition MAX_ENDPOINT_CONTENT_REFS_PER_SLOT :: nat where
  "MAX_ENDPOINT_CONTENT_REFS_PER_SLOT = MAX_ENDPOINT_OPERATIONS_PER_JOB * 2"
definition MAX_ENDPOINT_RESULT_CONTENT_BYTES :: u64 where
  "MAX_ENDPOINT_RESULT_CONTENT_BYTES = 17825792"
definition ENDPOINT_REQUEST_COMMITMENT_BYTES :: u64 where "ENDPOINT_REQUEST_COMMITMENT_BYTES = 32"

text \<open>The panic branch of the source is unreachable for both arguments below; its value here is 0.\<close>

definition endpoint_result_allocation_or_panic :: "u64 \<Rightarrow> u64" where
  "endpoint_result_allocation_or_panic plaintext =
     (case endpoint_result_allocation plaintext of Inr bytes \<Rightarrow> bytes | Inl _ \<Rightarrow> 0)"

definition MIN_ENDPOINT_RESULT_ALLOCATION_BYTES :: u64 where
  "MIN_ENDPOINT_RESULT_ALLOCATION_BYTES = endpoint_result_allocation_or_panic 1"
definition MAX_ENDPOINT_RESULT_ALLOCATION_BYTES :: u64 where
  "MAX_ENDPOINT_RESULT_ALLOCATION_BYTES =
     endpoint_result_allocation_or_panic MAX_ENDPOINT_RESULT_CONTENT_BYTES"
definition MAX_ENDPOINT_CONTENT_BYTES_PER_SLOT :: u64 where
  "MAX_ENDPOINT_CONTENT_BYTES_PER_SLOT =
     ENDPOINT_REQUEST_COMMITMENT_BYTES * of_nat MAX_ENDPOINT_OPERATIONS_PER_JOB +
     MIN_ENDPOINT_RESULT_ALLOCATION_BYTES * (of_nat MAX_ENDPOINT_OPERATIONS_PER_JOB - 1) +
     MAX_ENDPOINT_RESULT_ALLOCATION_BYTES"
definition MAX_COMMAND_TOMBSTONES :: nat where "MAX_COMMAND_TOMBSTONES = 256"
definition MAX_JOB_IR_CONTENT_BYTES :: u64 where "MAX_JOB_IR_CONTENT_BYTES = 16777216"
definition MAX_RUNTIME_AUTHORITY_CONTENT_BYTES :: u64 where
  "MAX_RUNTIME_AUTHORITY_CONTENT_BYTES = 524288"
definition MAX_TERMINAL_RESULT_CONTENT_BYTES :: u64 where
  "MAX_TERMINAL_RESULT_CONTENT_BYTES = 4194304"
definition MAX_LOG_SPOOL_CONTENT_BYTES :: u64 where "MAX_LOG_SPOOL_CONTENT_BYTES = 268435456"
definition MAX_LOG_SEGMENTS_PER_SLOT :: nat where "MAX_LOG_SEGMENTS_PER_SLOT = 128"
definition MAX_LOG_SEGMENT_FRAMES :: nat where "MAX_LOG_SEGMENT_FRAMES = 4096"

definition clamp_registration_slots :: "u16 \<Rightarrow> u16" where
  "clamp_registration_slots requested = min requested (of_nat MAX_JOURNALED_SLOTS)"

definition validate_delivery_enqueued_at :: "UnixMillis \<Rightarrow> unit jresult" where
  "validate_delivery_enqueued_at value =
     ensure (0 \<le> value \<and> value \<le> MAX_DELIVERY_ENQUEUED_AT_MILLIS) InvalidDeliveryEnqueuedAt"

section \<open>Content references\<close>

record JobIrContentRef =
  job_ir_version :: JobIrVersion
  job_ir_content :: DurableContentRef

definition JobIrContentRef_validate :: "JobIrContentRef \<Rightarrow> unit jresult" where
  "JobIrContentRef_validate self =
     (let content = job_ir_content self in
      if content_kind content \<noteq> KJobIr \<or> accounted_bytes content = 0 \<or>
         accounted_bytes content > MAX_JOB_IR_CONTENT_BYTES
      then Err InvalidJobIrContent else Ok ())"

definition JobIrContentRef_new :: "JobIrVersion \<Rightarrow> DurableContentRef \<Rightarrow> JobIrContentRef jresult" where
  "JobIrContentRef_new version content =
     (let value = \<lparr>job_ir_version = version, job_ir_content = content\<rparr> in
      and_then (JobIrContentRef_validate value) (\<lambda>_. Ok value))"

type_synonym RuntimeAuthorityContentRef = DurableContentRef

definition RuntimeAuthorityContentRef_validate :: "RuntimeAuthorityContentRef \<Rightarrow> unit jresult" where
  "RuntimeAuthorityContentRef_validate self =
     (if content_kind self \<noteq> KRuntimeAuthority \<or> accounted_bytes self = 0 \<or>
         accounted_bytes self > MAX_RUNTIME_AUTHORITY_CONTENT_BYTES
      then Err InvalidRuntimeAuthorityContent else Ok ())"

definition RuntimeAuthorityContentRef_new ::
  "DurableContentRef \<Rightarrow> RuntimeAuthorityContentRef jresult" where
  "RuntimeAuthorityContentRef_new content =
     and_then (RuntimeAuthorityContentRef_validate content) (\<lambda>_. Ok content)"

record TerminalResultRecord =
  terminal_operation_id :: OperationId
  terminal_content :: DurableContentRef
  terminal_acknowledged :: bool

definition terminal_result_content_bytes_rejected :: "u64 \<Rightarrow> bool" where
  "terminal_result_content_bytes_rejected observed \<longleftrightarrow> observed > MAX_TERMINAL_RESULT_CONTENT_BYTES"

definition TerminalResultRecord_validate :: "TerminalResultRecord \<Rightarrow> unit jresult" where
  "TerminalResultRecord_validate self =
     (let content = terminal_content self in
      if content_kind content \<noteq> KTerminalResult \<or> accounted_bytes content = 0 \<or>
         terminal_result_content_bytes_rejected (accounted_bytes content)
      then Err InvalidTerminalResultContent else Ok ())"

definition TerminalResultRecord_new ::
  "OperationId \<Rightarrow> DurableContentRef \<Rightarrow> TerminalResultRecord jresult" where
  "TerminalResultRecord_new operation content =
     (let value = \<lparr>terminal_operation_id = operation, terminal_content = content,
                   terminal_acknowledged = False\<rparr> in
      and_then (TerminalResultRecord_validate value) (\<lambda>_. Ok value))"

definition TerminalResultRecord_acknowledge :: "TerminalResultRecord \<Rightarrow> TerminalResultRecord" where
  "TerminalResultRecord_acknowledge self = self\<lparr>terminal_acknowledged := True\<rparr>"

definition matches_unacknowledged :: "TerminalResultRecord \<Rightarrow> TerminalResultRecord \<Rightarrow> bool" where
  "matches_unacknowledged self other \<longleftrightarrow>
     terminal_operation_id self = terminal_operation_id other \<and>
     terminal_content self = terminal_content other \<and> \<not> terminal_acknowledged other"

lemma TerminalResultRecord_validate_acknowledge [simp]:
  "TerminalResultRecord_validate (TerminalResultRecord_acknowledge r) = TerminalResultRecord_validate r"
  by (simp add: TerminalResultRecord_validate_def TerminalResultRecord_acknowledge_def)

section \<open>The endpoint budget\<close>

lemma endpoint_budget_values:
  "unat MIN_ENDPOINT_RESULT_ALLOCATION_BYTES = 65536"
  "unat MAX_ENDPOINT_RESULT_ALLOCATION_BYTES = 17891328"
proof -
  have min: "(1 :: u64) \<le> MAX_CONTENT_OBJECT_BYTES" by (simp add: spool_limits)
  have max: "MAX_ENDPOINT_RESULT_CONTENT_BYTES \<le> MAX_CONTENT_OBJECT_BYTES"
    by (simp add: spool_limits MAX_ENDPOINT_RESULT_CONTENT_BYTES_def)
  show "unat MIN_ENDPOINT_RESULT_ALLOCATION_BYTES = 65536"
    using endpoint_result_allocation_value[OF min]
    by (auto simp: MIN_ENDPOINT_RESULT_ALLOCATION_BYTES_def endpoint_result_allocation_or_panic_def)
  show "unat MAX_ENDPOINT_RESULT_ALLOCATION_BYTES = 17891328"
    using endpoint_result_allocation_value[OF max]
    by (auto simp: MAX_ENDPOINT_RESULT_ALLOCATION_BYTES_def endpoint_result_allocation_or_panic_def
        MAX_ENDPOINT_RESULT_CONTENT_BYTES_def)
qed

text \<open>The constant is computed without wrap-around: it is the sum over the integers.\<close>

lemma endpoint_content_budget:
  "unat MAX_ENDPOINT_CONTENT_BYTES_PER_SLOT =
     32 * MAX_ENDPOINT_OPERATIONS_PER_JOB + 65536 * (MAX_ENDPOINT_OPERATIONS_PER_JOB - 1) + 17891328"
proof -
  have min: "MIN_ENDPOINT_RESULT_ALLOCATION_BYTES = 65536"
    and max: "MAX_ENDPOINT_RESULT_ALLOCATION_BYTES = 17891328"
    by (rule unat_eqI, simp add: endpoint_budget_values)+
  show ?thesis
    unfolding min max MAX_ENDPOINT_CONTENT_BYTES_PER_SLOT_def MAX_ENDPOINT_OPERATIONS_PER_JOB_def
      MAX_LOGICAL_STEPS_def ENDPOINT_REQUEST_COMMITMENT_BYTES_def
    by simp
qed

end
