(* ===== verification/LogDelivery.thy ===== *)
theory LogDelivery
  imports JournalBase
begin

text \<open>
  Local production and remote acknowledgement of a segmented log stream, and the cursor of outbound
  operations: \<open>automata-ci-runner-journal/src/model/cursor.rs\<close>.
\<close>

section \<open>Outbound operations\<close>

type_synonym OutboundOperationSequence = u64

definition OutboundOperationSequence_MAX :: u64 where
  "OutboundOperationSequence_MAX = 9223372036854775807"

definition OutboundOperationSequence_new :: "u64 \<Rightarrow> OutboundOperationSequence jresult" where
  "OutboundOperationSequence_new value =
     (if value > OutboundOperationSequence_MAX then Err InvalidOutboundOperationSequence
      else if value = 0 then Err InvalidOutboundOperationSequence
      else Ok value)"

definition OutboundOperationSequence_checked_next ::
  "OutboundOperationSequence \<Rightarrow> OutboundOperationSequence jresult" where
  "OutboundOperationSequence_checked_next self =
     and_then (ok_or CounterExhausted (checked_add self 1)) (\<lambda>next.
     map_err (\<lambda>_. CounterExhausted) (OutboundOperationSequence_new next))"

record OutboundOperationCursor =
  outbound_contiguous_through :: "OutboundOperationSequence option"

definition OutboundOperationCursor_initial :: OutboundOperationCursor where
  "OutboundOperationCursor_initial = \<lparr>outbound_contiguous_through = None\<rparr>"

definition OutboundOperationCursor_advance ::
  "OutboundOperationSequence \<Rightarrow> OutboundOperationCursor \<Rightarrow> OutboundOperationCursor jresult" where
  "OutboundOperationCursor_advance received self =
     and_then (case outbound_contiguous_through self of
                 Some current \<Rightarrow> OutboundOperationSequence_checked_next current
               | None \<Rightarrow> Ok 1) (\<lambda>expected.
     if received \<noteq> expected then Err (OutboundOperationSequenceMismatch expected received)
     else Ok (self\<lparr>outbound_contiguous_through := Some received\<rparr>))"

definition outbound_position :: "OutboundOperationCursor \<Rightarrow> nat" where
  "outbound_position c = (case outbound_contiguous_through c of None \<Rightarrow> 0 | Some s \<Rightarrow> unat s)"

lemma OutboundOperationCursor_advance_eq_Ok:
  "OutboundOperationCursor_advance r c = Ok c' \<longleftrightarrow>
     unat r = outbound_position c + 1 \<and>
     (outbound_contiguous_through c = None \<or> r \<le> OutboundOperationSequence_MAX) \<and>
     c' = c\<lparr>outbound_contiguous_through := Some r\<rparr>"
proof -
  have one: "unat t = Suc 0 \<longleftrightarrow> t = 1" for t :: u64
    by (metis One_nat_def unat_eqI unsigned_1)
  have pos: "unat t = unat u + 1 \<Longrightarrow> t \<noteq> 0" for t u :: u64 by auto
  show ?thesis
    by (cases "outbound_contiguous_through c")
       (auto simp: OutboundOperationCursor_advance_def OutboundOperationSequence_checked_next_def
         OutboundOperationSequence_new_def outbound_position_def result_simps checked_simps one
         dest: pos split: if_splits)
qed

section \<open>Log segments\<close>

definition validate_log_content :: "DurableContentRef \<Rightarrow> unit jresult" where
  "validate_log_content content =
     (if content_kind content \<noteq> KLogSpool \<or> accounted_bytes content > MAX_LOG_SPOOL_CONTENT_BYTES
      then Err InvalidLogSpoolContent else Ok ())"

record LogSegment =
  first_sequence :: LogSequence
  last_sequence :: LogSequence
  frame_count :: u32
  payload_bytes :: u64
  segment_content :: DurableContentRef
  sealed :: bool
  ends_stream :: bool

definition LogSegment_validate :: "LogSegment \<Rightarrow> unit jresult" where
  "LogSegment_validate self =
     and_then (validate_log_content (segment_content self)) (\<lambda>_.
     and_then (ok_or InvalidLogSegment
       (Option.bind (checked_sub (last_sequence self) (first_sequence self)) (\<lambda>span.
        checked_add span 1))) (\<lambda>expected_frames.
     if accounted_bytes (segment_content self) = 0 \<or> frame_count self = 0 \<or>
        unat (frame_count self) > MAX_LOG_SEGMENT_FRAMES \<or>
        ucast (frame_count self) \<noteq> expected_frames \<or>
        payload_bytes self > MAX_LOG_SPOOL_CONTENT_BYTES \<or>
        payload_bytes self > accounted_bytes (segment_content self) \<or>
        (ends_stream self \<and> \<not> sealed self)
     then Err InvalidLogSegment else Ok ()))"

definition LogSegment_new ::
  "LogSequence \<Rightarrow> LogSequence \<Rightarrow> u32 \<Rightarrow> u64 \<Rightarrow> DurableContentRef \<Rightarrow> bool \<Rightarrow> bool \<Rightarrow> LogSegment jresult" where
  "LogSegment_new first final frames payload content seal end_of_stream =
     (let value = \<lparr>first_sequence = first, last_sequence = final, frame_count = frames,
        payload_bytes = payload, segment_content = content, sealed = seal, ends_stream = end_of_stream\<rparr> in
      and_then (LogSegment_validate value) (\<lambda>_. Ok value))"

definition LogSegment_seal :: "LogSegment \<Rightarrow> LogSegment" where
  "LogSegment_seal self = self\<lparr>sealed := True\<rparr>"

record LogSegmentPublication =
  publication_stream_id :: LogStreamId
  previous_open_content :: "DurableContentRef option"
  publication_segment :: LogSegment

definition LogSegmentPublication_new ::
  "LogStreamId \<Rightarrow> DurableContentRef option \<Rightarrow> LogSegment \<Rightarrow> LogSegmentPublication jresult" where
  "LogSegmentPublication_new stream previous segment =
     and_then (LogSegment_validate segment) (\<lambda>_.
     and_then (case previous of Some content \<Rightarrow> validate_log_content content | None \<Rightarrow> Ok ()) (\<lambda>_.
     Ok \<lparr>publication_stream_id = stream, previous_open_content = previous,
         publication_segment = segment\<rparr>))"

record LogSegmentAcknowledgement =
  acknowledgement_stream_id :: LogStreamId
  through :: LogSequence
  head_content :: DurableContentRef

definition LogSegmentAcknowledgement_validate :: "LogSegmentAcknowledgement \<Rightarrow> unit jresult" where
  "LogSegmentAcknowledgement_validate self = validate_log_content (head_content self)"

definition LogSegmentAcknowledgement_new ::
  "LogStreamId \<Rightarrow> LogSequence \<Rightarrow> DurableContentRef \<Rightarrow> LogSegmentAcknowledgement jresult" where
  "LogSegmentAcknowledgement_new stream sequence content =
     and_then (validate_log_content content) (\<lambda>_.
     Ok \<lparr>acknowledgement_stream_id = stream, through = sequence, head_content = content\<rparr>)"

section \<open>The delivery cursor\<close>

record LogDeliveryCursor =
  log_stream_id :: LogStreamId
  segments :: "LogSegment list"
  segment_enqueued_at :: "UnixMillis list"
  produced_through :: "LogSequence option"
  end_of_stream :: "LogSequence option"
  last_acknowledgement :: "LogSegmentAcknowledgement option"

definition LogDeliveryCursor_new :: "LogStreamId \<Rightarrow> LogDeliveryCursor" where
  "LogDeliveryCursor_new stream =
     \<lparr>log_stream_id = stream, segments = [], segment_enqueued_at = [], produced_through = None,
      end_of_stream = None, last_acknowledgement = None\<rparr>"

definition head_segment :: "LogDeliveryCursor \<Rightarrow> LogSegment option" where
  "head_segment self = first_opt (segments self)"

definition open_segment :: "LogDeliveryCursor \<Rightarrow> LogSegment option" where
  "open_segment self =
     (case last_opt (segments self) of
        Some segment \<Rightarrow> if \<not> sealed segment then Some segment else None
      | None \<Rightarrow> None)"

definition log_acknowledged_through :: "LogDeliveryCursor \<Rightarrow> LogSequence option" where
  "log_acknowledged_through self = map_option through (last_acknowledgement self)"

definition is_fully_delivered :: "LogDeliveryCursor \<Rightarrow> bool" where
  "is_fully_delivered self \<longleftrightarrow>
     (case end_of_stream self of
        None \<Rightarrow> False
      | Some end \<Rightarrow> log_acknowledged_through self = Some end \<and> segments self = [])"

definition backlog_content_bytes :: "LogDeliveryCursor \<Rightarrow> u64" where
  "backlog_content_bytes self =
     foldl (\<lambda>total segment. saturating_add total (accounted_bytes (segment_content segment))) 0
       (segments self)"

definition oldest_pending_enqueued_at :: "LogDeliveryCursor \<Rightarrow> UnixMillis option" where
  "oldest_pending_enqueued_at self = first_opt (segment_enqueued_at self)"

text \<open>\<open>record_segment\<close>, first the replacement of the open tail, then a new one-frame tail.\<close>

definition replace_open_segment ::
  "DurableContentRef \<Rightarrow> LogSegment \<Rightarrow> LogDeliveryCursor \<Rightarrow> LogDeliveryCursor jresult" where
  "replace_open_segment previous candidate self =
     and_then (ok_or LogSegmentMutationConflict (last_opt (segments self))) (\<lambda>current.
     if sealed current \<or> segment_content current \<noteq> previous then Err LogSegmentMutationConflict
     else and_then (map_err (\<lambda>_. CounterExhausted)
            (LogSequence_checked_next (last_sequence current))) (\<lambda>expected_last.
     if first_sequence candidate \<noteq> first_sequence current \<or>
        last_sequence candidate \<noteq> expected_last \<or>
        frame_count candidate \<noteq> saturating_add (frame_count current) 1 \<or>
        payload_bytes candidate < payload_bytes current \<or>
        accounted_bytes (segment_content candidate) \<le> accounted_bytes (segment_content current)
     then Err InvalidLogSegment
     else and_then (ok_or LogBacklogLimit
            (Option.bind (checked_sub (backlog_content_bytes self)
               (accounted_bytes (segment_content current))) (\<lambda>bytes.
             checked_add bytes (accounted_bytes (segment_content candidate))))) (\<lambda>retained.
     if retained > MAX_LOG_SPOOL_CONTENT_BYTES then Err LogBacklogLimit
     else Ok (self\<lparr>segments := butlast (segments self) @ [candidate]\<rparr>))))"

definition append_open_segment ::
  "LogSequence \<Rightarrow> LogSegment \<Rightarrow> UnixMillis \<Rightarrow> LogDeliveryCursor \<Rightarrow> LogDeliveryCursor jresult" where
  "append_open_segment expected_first candidate enqueued_at self =
     and_then (validate_delivery_enqueued_at enqueued_at) (\<lambda>_.
     if open_segment self \<noteq> None \<or> first_sequence candidate \<noteq> expected_first \<or>
        first_sequence candidate \<noteq> last_sequence candidate \<or> frame_count candidate \<noteq> 1
     then Err InvalidLogSegment
     else if length (segments self) \<ge> MAX_LOG_SEGMENTS_PER_SLOT then Err LogSegmentLimit
     else and_then (ok_or LogBacklogLimit (checked_add (backlog_content_bytes self)
            (accounted_bytes (segment_content candidate)))) (\<lambda>retained.
     if retained > MAX_LOG_SPOOL_CONTENT_BYTES then Err LogBacklogLimit
     else Ok (self\<lparr>segments := segments self @ [candidate],
                   segment_enqueued_at := segment_enqueued_at self @ [enqueued_at]\<rparr>)))"

text \<open>The common end of both branches.\<close>

definition publish_tail :: "LogSegment \<Rightarrow> LogDeliveryCursor \<Rightarrow> LogDeliveryCursor" where
  "publish_tail candidate self =
     (let self = self\<lparr>produced_through := Some (last_sequence candidate)\<rparr> in
      if ends_stream candidate then self\<lparr>end_of_stream := Some (last_sequence candidate)\<rparr>
      else self)"

definition record_segment ::
  "LogSegmentPublication \<Rightarrow> UnixMillis \<Rightarrow> LogDeliveryCursor \<Rightarrow> LogDeliveryCursor jresult" where
  "record_segment publication enqueued_at self =
     (if end_of_stream self \<noteq> None then Err LogStreamClosed
      else let candidate = publication_segment publication in
      and_then (LogSegment_validate candidate) (\<lambda>_.
      and_then (case produced_through self of
                  None \<Rightarrow> Ok 0
                | Some sequence \<Rightarrow> map_err (\<lambda>_. CounterExhausted) (LogSequence_checked_next sequence))
        (\<lambda>expected_first.
      and_then (case previous_open_content publication of
                  Some previous \<Rightarrow> replace_open_segment previous candidate self
                | None \<Rightarrow> append_open_segment expected_first candidate enqueued_at self) (\<lambda>self.
      Ok (publish_tail candidate self)))))"

definition seal_segment :: "DurableContentRef \<Rightarrow> LogDeliveryCursor \<Rightarrow> (bool \<times> LogDeliveryCursor) jresult" where
  "seal_segment expected_content self =
     and_then (ok_or LogSegmentMutationConflict (last_opt (segments self))) (\<lambda>tail.
     if segment_content tail \<noteq> expected_content then Err LogSegmentMutationConflict
     else if sealed tail then Ok (False, self)
     else Ok (True, self\<lparr>segments := butlast (segments self) @ [LogSegment_seal tail]\<rparr>))"

definition acknowledge_segment ::
  "LogSegmentAcknowledgement \<Rightarrow> LogDeliveryCursor \<Rightarrow> (bool \<times> LogDeliveryCursor) jresult" where
  "acknowledge_segment acknowledgement self =
     (let replay = (case last_acknowledgement self of
                      Some previous \<Rightarrow> if through acknowledgement \<le> through previous
                                       then Some previous else None
                    | None \<Rightarrow> None) in
      case replay of
        Some previous \<Rightarrow>
          if previous = acknowledgement then Ok (False, self) else Err LogAcknowledgementConflict
      | None \<Rightarrow>
          and_then (ok_or InvalidLogAcknowledgement (first_opt (segments self))) (\<lambda>head.
          if \<not> sealed head \<or> last_sequence head \<noteq> through acknowledgement \<or>
             segment_content head \<noteq> head_content acknowledgement
          then Err LogAcknowledgementConflict
          else Ok (True, self\<lparr>segments := tl (segments self),
                 segment_enqueued_at := tl (segment_enqueued_at self),
                 last_acknowledgement := Some acknowledgement\<rparr>)))"

section \<open>Durable validation\<close>

fun validate_segments ::
  "nat \<Rightarrow> nat \<Rightarrow> LogSegment list \<Rightarrow> LogSequence \<Rightarrow> u64 \<Rightarrow> u64 jresult" where
  "validate_segments index count [] expected bytes = Ok bytes"
| "validate_segments index count (segment # rest) expected bytes =
     and_then (LogSegment_validate segment) (\<lambda>_.
     if first_sequence segment \<noteq> expected \<or> (\<not> sealed segment \<and> index + 1 \<noteq> count) \<or>
        (ends_stream segment \<and> index + 1 \<noteq> count)
     then Err DecodedStateInvalid
     else and_then (map_err (\<lambda>_. DecodedStateInvalid)
            (LogSequence_checked_next (last_sequence segment))) (\<lambda>expected.
          and_then (ok_or DecodedStateInvalid
            (checked_add bytes (accounted_bytes (segment_content segment)))) (\<lambda>bytes.
          validate_segments (index + 1) count rest expected bytes)))"

definition LogDeliveryCursor_validate :: "LogDeliveryCursor \<Rightarrow> unit jresult" where
  "LogDeliveryCursor_validate self =
     (if length (segments self) > MAX_LOG_SEGMENTS_PER_SLOT then Err DecodedCollectionLimit
      else if length (segment_enqueued_at self) \<noteq> length (segments self) then Err DecodedStateInvalid
      else and_then (for_each validate_delivery_enqueued_at (segment_enqueued_at self)) (\<lambda>_.
      and_then (case last_acknowledgement self of
                  None \<Rightarrow> Ok ()
                | Some acknowledgement \<Rightarrow>
                    and_then (LogSegmentAcknowledgement_validate acknowledgement) (\<lambda>_.
                    if acknowledgement_stream_id acknowledgement \<noteq> log_stream_id self
                    then Err DecodedStateInvalid else Ok ())) (\<lambda>_.
      and_then (case last_acknowledgement self of
                  None \<Rightarrow> Ok 0
                | Some acknowledgement \<Rightarrow>
                    if segments self = [] then Ok 0
                    else map_err (\<lambda>_. DecodedStateInvalid)
                           (LogSequence_checked_next (through acknowledgement))) (\<lambda>expected.
      and_then (validate_segments 0 (length (segments self)) (segments self) expected 0) (\<lambda>total.
      if total > MAX_LOG_SPOOL_CONTENT_BYTES then Err DecodedCollectionLimit
      else let durable_last = (case last_opt (segments self) of
                 Some segment \<Rightarrow> Some (last_sequence segment)
               | None \<Rightarrow> log_acknowledged_through self) in
           if produced_through self \<noteq> durable_last \<or>
              (case end_of_stream self of
                 None \<Rightarrow> False
               | Some end \<Rightarrow> produced_through self \<noteq> Some end \<or>
                   (case last_opt (segments self) of
                      None \<Rightarrow> False | Some segment \<Rightarrow> \<not> ends_stream segment)) \<or>
              list_ex (\<lambda>segment. ends_stream segment \<and>
                 Some (last_sequence segment) \<noteq> end_of_stream self) (segments self)
           then Err DecodedStateInvalid else Ok ())))))"

section \<open>What validation means\<close>

definition segment_bytes :: "LogSegment \<Rightarrow> nat" where
  "segment_bytes s = unat (accounted_bytes (segment_content s))"

definition backlog :: "LogSegment list \<Rightarrow> nat" where
  "backlog ss = sum_list (map segment_bytes ss)"

text \<open>A list of segments that continues the stream at frame \<open>start\<close>.\<close>

fun chain :: "nat \<Rightarrow> LogSegment list \<Rightarrow> bool" where
  "chain start [] = True"
| "chain start (s # ss) \<longleftrightarrow>
     LogSegment_validate s = Ok () \<and> unat (first_sequence s) = start \<and>
     unat (last_sequence s) + 1 < 2 ^ 64 \<and> (ss \<noteq> [] \<longrightarrow> sealed s \<and> \<not> ends_stream s) \<and>
     chain (unat (last_sequence s) + 1) ss"

definition chain_end :: "nat \<Rightarrow> LogSegment list \<Rightarrow> nat" where
  "chain_end start ss = (if ss = [] then start else unat (last_sequence (last ss)) + 1)"

lemma unat_ucast_u32: "unat (ucast (w :: u32) :: u64) = unat w"
proof -
  have "unat w < 2 ^ LENGTH(32)" by (rule unsigned_less)
  then show ?thesis by (simp add: unsigned_ucast_eq take_bit_nat_eq_self_iff)
qed

lemma LogSegment_validate_eq_Ok:
  "LogSegment_validate s = Ok u \<longleftrightarrow>
     content_kind (segment_content s) = KLogSpool \<and>
     0 < segment_bytes s \<and> segment_bytes s \<le> 268435456 \<and>
     unat (first_sequence s) \<le> unat (last_sequence s) \<and>
     unat (frame_count s) = unat (last_sequence s) - unat (first_sequence s) + 1 \<and>
     unat (frame_count s) \<le> 4096 \<and> unat (payload_bytes s) \<le> segment_bytes s \<and>
     (ends_stream s \<longrightarrow> sealed s)"
proof -
  let ?f = "unat (first_sequence s)" and ?l = "unat (last_sequence s)" and ?n = "unat (frame_count s)"
  have span: "(\<exists>e :: u64. (\<exists>d :: u64. ?l = unat d + ?f \<and> unat e = unat d + 1) \<and> ucast (frame_count s) = e) \<longleftrightarrow>
      ?f \<le> ?l \<and> ?n = ?l - ?f + 1"
  proof
    assume r: "?f \<le> ?l \<and> ?n = ?l - ?f + 1"
    then have "?l = unat (last_sequence s - first_sequence s) + ?f"
      by (simp add: unat_sub word_le_nat_alt)
    moreover from this r have "unat (ucast (frame_count s) :: u64) =
        unat (last_sequence s - first_sequence s) + 1"
      by (simp add: unat_ucast_u32)
    ultimately show "\<exists>e :: u64. (\<exists>d :: u64. ?l = unat d + ?f \<and> unat e = unat d + 1) \<and>
        ucast (frame_count s) = e" by blast
  qed (auto simp: unat_ucast_u32)
  have zero: "frame_count s \<noteq> 0" if "?n = ?l - ?f + 1" using that by auto
  show ?thesis
    unfolding LogSegment_validate_def result_simps validate_log_content_def
      bind_eq_Some_conv checked_simps
    using span zero
    by (auto simp: segment_bytes_def MAX_LOG_SPOOL_CONTENT_BYTES_def MAX_LOG_SEGMENT_FRAMES_def
        word_le_nat_alt word_less_nat_alt unat_gt_0 not_less)
qed

lemma chain_append:
  "chain start (xs @ ys) \<longleftrightarrow>
     chain start xs \<and> chain (chain_end start xs) ys \<and>
     (ys \<noteq> [] \<longrightarrow> (\<forall>s \<in> set xs. sealed s \<and> \<not> ends_stream s))"
  by (induction xs arbitrary: start) (auto simp: chain_end_def)

lemma chain_sealed:
  "chain start (xs @ [y]) \<Longrightarrow> \<forall>s \<in> set xs. sealed s \<and> \<not> ends_stream s"
  by (simp add: chain_append)

lemma validate_segments_eq_Ok:
  "n = i + length ss \<Longrightarrow>
   validate_segments i n ss e t = Ok t' \<longleftrightarrow> chain (unat e) ss \<and> unat t' = unat t + backlog ss"
proof (induction ss arbitrary: i e t)
  case Nil
  then show ?case by (auto simp: backlog_def intro: unat_eqI)
next
  case (Cons s ss)
  have first: "first_sequence s = e \<longleftrightarrow> unat (first_sequence s) = unat e"
    by (auto intro: unat_eqI)
  have tail: "(i + 1 = n) \<longleftrightarrow> ss = []" using Cons.prems by auto
  have "unat t' < 2 ^ LENGTH(64)" by (rule unsigned_less)
  then have total: "unat t + segment_bytes s < 2 ^ 64"
    if "unat t' = unat t + segment_bytes s + backlog ss"
    using that by simp
  have "validate_segments i n (s # ss) e t = Ok t' \<longleftrightarrow>
      LogSegment_validate s = Ok () \<and> unat (first_sequence s) = unat e \<and>
      (ss \<noteq> [] \<longrightarrow> sealed s \<and> \<not> ends_stream s) \<and>
      (\<exists>e' :: u64. unat e' = unat (last_sequence s) + 1 \<and>
        (\<exists>b :: u64. unat b = unat t + segment_bytes s \<and>
           chain (unat e') ss \<and> unat t' = unat b + backlog ss))"
    using Cons.IH[of "i + 1"] Cons.prems
    by (auto simp: result_simps checked_simps first tail segment_bytes_def)
  also have "\<dots> \<longleftrightarrow> LogSegment_validate s = Ok () \<and> unat (first_sequence s) = unat e \<and>
      (ss \<noteq> [] \<longrightarrow> sealed s \<and> \<not> ends_stream s) \<and>
      (\<exists>e' :: u64. unat e' = unat (last_sequence s) + 1) \<and>
      (\<exists>b :: u64. unat b = unat t + segment_bytes s) \<and>
      chain (unat (last_sequence s) + 1) ss \<and> unat t' = unat t + segment_bytes s + backlog ss"
    by (metis (no_types, lifting))
  also have "\<dots> \<longleftrightarrow> chain (unat e) (s # ss) \<and> unat t' = unat t + backlog (s # ss)"
    unfolding ex_unat_eq using total by (auto simp: backlog_def)
  finally show ?case .
qed

definition acknowledged_count :: "LogDeliveryCursor \<Rightarrow> nat" where
  "acknowledged_count c =
     (case last_acknowledgement c of None \<Rightarrow> 0 | Some a \<Rightarrow> unat (through a) + 1)"

definition produced_count :: "LogDeliveryCursor \<Rightarrow> nat" where
  "produced_count c = (case produced_through c of None \<Rightarrow> 0 | Some s \<Rightarrow> unat s + 1)"

definition durable_last :: "LogDeliveryCursor \<Rightarrow> LogSequence option" where
  "durable_last c = (case last_opt (segments c) of
     Some segment \<Rightarrow> Some (last_sequence segment) | None \<Rightarrow> log_acknowledged_through c)"

lemma acknowledged_count_update [simp]:
  "acknowledged_count (c\<lparr>segments := ss\<rparr>) = acknowledged_count c"
  "acknowledged_count (c\<lparr>segment_enqueued_at := ts\<rparr>) = acknowledged_count c"
  by (simp_all add: acknowledged_count_def)

text \<open>The conjuncts of \<open>validate\<close>, with the loop replaced by what it computes.\<close>

definition cursor_inv :: "LogDeliveryCursor \<Rightarrow> bool" where
  "cursor_inv c \<longleftrightarrow>
     length (segments c) \<le> 128 \<and> length (segment_enqueued_at c) = length (segments c) \<and>
     (\<forall>t \<in> set (segment_enqueued_at c). validate_delivery_enqueued_at t = Ok ()) \<and>
     (\<forall>a. last_acknowledgement c = Some a \<longrightarrow>
        validate_log_content (head_content a) = Ok () \<and>
        acknowledgement_stream_id a = log_stream_id c) \<and>
     (segments c \<noteq> [] \<longrightarrow> acknowledged_count c < 2 ^ 64) \<and>
     chain (acknowledged_count c) (segments c) \<and>
     backlog (segments c) \<le> 268435456 \<and>
     produced_through c = durable_last c \<and>
     (\<forall>e. end_of_stream c = Some e \<longrightarrow> produced_through c = Some e \<and>
        (\<forall>s. last_opt (segments c) = Some s \<longrightarrow> ends_stream s)) \<and>
     (\<forall>s \<in> set (segments c). ends_stream s \<longrightarrow> end_of_stream c = Some (last_sequence s))"

lemma cursor_validate_iff: "LogDeliveryCursor_validate c = Ok u \<longleftrightarrow> cursor_inv c"
proof -
  let ?ss = "segments c"
  have loop: "(\<exists>t. validate_segments 0 (length ?ss) ?ss e 0 = Ok t \<and>
        \<not> t > MAX_LOG_SPOOL_CONTENT_BYTES \<and> R) \<longleftrightarrow>
      chain (unat e) ?ss \<and> backlog ?ss \<le> 268435456 \<and> R" for e R
  proof -
    have "(\<exists>t. validate_segments 0 (length ?ss) ?ss e 0 = Ok t \<and>
        \<not> t > MAX_LOG_SPOOL_CONTENT_BYTES \<and> R) \<longleftrightarrow>
      chain (unat e) ?ss \<and> R \<and> backlog ?ss \<le> 268435456 \<and> (\<exists>t :: u64. unat t = backlog ?ss)"
      by (auto simp: validate_segments_eq_Ok MAX_LOG_SPOOL_CONTENT_BYTES_def word_less_nat_alt)
    then show ?thesis unfolding ex_unat_eq by auto
  qed
  have start: "(\<exists>e. (case last_acknowledgement c of None \<Rightarrow> Ok 0
        | Some a \<Rightarrow> if ?ss = [] then Ok 0 else map_err (\<lambda>_. DecodedStateInvalid)
            (LogSequence_checked_next (through a))) = Ok e \<and> chain (unat e) ?ss \<and> R) \<longleftrightarrow>
      (?ss \<noteq> [] \<longrightarrow> acknowledged_count c < 2 ^ 64) \<and> chain (acknowledged_count c) ?ss \<and> R" for R
  proof (cases "last_acknowledgement c = None \<or> ?ss = []")
    case False
    then obtain a where a: "last_acknowledgement c = Some a" "?ss \<noteq> []" by auto
    have "(\<exists>e :: u64. unat e = unat (through a) + 1 \<and> chain (unat e) ?ss \<and> R) \<longleftrightarrow>
        (\<exists>e :: u64. unat e = unat (through a) + 1) \<and> chain (unat (through a) + 1) ?ss \<and> R"
      by (metis (no_types, lifting))
    with a show ?thesis
      unfolding ex_unat_eq by (simp add: result_simps acknowledged_count_def)
  qed (auto simp: acknowledged_count_def split: option.splits)
  show ?thesis
    unfolding LogDeliveryCursor_validate_def result_simps Let_def loop start cursor_inv_def
      durable_last_def[symmetric]
    by (auto simp: result_simps MAX_LOG_SEGMENTS_PER_SLOT_def list_ex_iff
        LogSegmentAcknowledgement_validate_def split: option.splits)
qed

section \<open>Every mutation keeps the cursor valid\<close>

lemma saturating_backlog:
  "unat t + backlog ss < 2 ^ 64 \<Longrightarrow>
   unat (foldl (\<lambda>total s. saturating_add total (accounted_bytes (segment_content s))) t ss) =
     unat t + backlog ss"
proof (induction ss arbitrary: t)
  case (Cons s ss)
  then have "unat (saturating_add t (accounted_bytes (segment_content s))) = unat t + segment_bytes s"
    by (subst saturating_add_exact) (auto simp: backlog_def segment_bytes_def)
  with Cons show ?case by (simp add: backlog_def)
qed (simp add: backlog_def)

lemma backlog_content_bytes_exact:
  "cursor_inv c \<Longrightarrow> unat (backlog_content_bytes c) = backlog (segments c)"
  unfolding backlog_content_bytes_def by (subst saturating_backlog) (auto simp: cursor_inv_def)

lemma backlog_append: "backlog (xs @ [x]) = backlog xs + segment_bytes x"
  by (simp add: backlog_def)

lemma new_cursor_inv: "cursor_inv (LogDeliveryCursor_new stream)"
  by (simp add: cursor_inv_def LogDeliveryCursor_new_def durable_last_def backlog_def
      log_acknowledged_through_def)

lemma cursor_produced:
  assumes "cursor_inv c"
  shows "chain_end (acknowledged_count c) (segments c) = produced_count c"
proof (cases "segments c" rule: rev_cases)
  case Nil
  with assms show ?thesis
    by (auto simp: cursor_inv_def chain_end_def produced_count_def acknowledged_count_def
        durable_last_def log_acknowledged_through_def split: option.splits)
next
  case (snoc ss s)
  with assms show ?thesis
    by (auto simp: cursor_inv_def chain_end_def produced_count_def durable_last_def)
qed

lemma replace_open_segment_OkE:
  assumes "cursor_inv c" "replace_open_segment previous cand c = Ok c'"
  obtains ss cur where "segments c = ss @ [cur]" "\<not> sealed cur"
    "unat (last_sequence cand) = unat (last_sequence cur) + 1"
    "first_sequence cand = first_sequence cur"
    "backlog ss + segment_bytes cand \<le> 268435456" "c' = c\<lparr>segments := ss @ [cand]\<rparr>"
proof -
  from assms(2) obtain cur where
    cur: "last_opt (segments c) = Some cur" "\<not> sealed cur"
      "unat (last_sequence cand) = unat (last_sequence cur) + 1"
      "first_sequence cand = first_sequence cur"
    and bytes: "unat (backlog_content_bytes c) + segment_bytes cand \<le> 268435456 + segment_bytes cur"
    and c': "c' = c\<lparr>segments := butlast (segments c) @ [cand]\<rparr>"
    by (auto simp: replace_open_segment_def result_simps bind_eq_Some_conv checked_simps
        segment_bytes_def MAX_LOG_SPOOL_CONTENT_BYTES_def word_less_nat_alt not_less)
  from cur(1) obtain ss where ss: "segments c = ss @ [cur]" by (auto simp: last_opt_eq_Some)
  with bytes backlog_content_bytes_exact[OF assms(1)]
  have "backlog ss + segment_bytes cand \<le> 268435456" by (simp add: backlog_append)
  with that cur ss c' show ?thesis by simp
qed

lemma append_open_segment_OkE:
  assumes "cursor_inv c" "append_open_segment first cand t c = Ok c'"
  obtains "validate_delivery_enqueued_at t = Ok ()" "open_segment c = None"
    "first_sequence cand = first" "last_sequence cand = first" "length (segments c) < 128"
    "backlog (segments c) + segment_bytes cand \<le> 268435456"
    "c' = c\<lparr>segments := segments c @ [cand], segment_enqueued_at := segment_enqueued_at c @ [t]\<rparr>"
  using assms backlog_content_bytes_exact[OF assms(1)]
  by (auto simp: append_open_segment_def result_simps checked_simps segment_bytes_def
      MAX_LOG_SPOOL_CONTENT_BYTES_def MAX_LOG_SEGMENTS_PER_SLOT_def word_less_nat_alt not_less)

lemma open_segment_None_sealed:
  assumes "cursor_inv c" "open_segment c = None" "s \<in> set (segments c)"
  shows "sealed s"
proof (cases "segments c" rule: rev_cases)
  case (snoc ss x)
  with assms chain_sealed[of "acknowledged_count c" ss x] show ?thesis
    by (auto simp: cursor_inv_def open_segment_def split: if_splits)
qed (use assms in simp)

lemma open_stream_not_ended:
  "cursor_inv c \<Longrightarrow> end_of_stream c = None \<Longrightarrow> s \<in> set (segments c) \<Longrightarrow> \<not> ends_stream s"
  by (auto simp: cursor_inv_def)

lemma publish_tail_simps [simp]:
  "segments (publish_tail cand c) = segments c"
  "segment_enqueued_at (publish_tail cand c) = segment_enqueued_at c"
  "last_acknowledgement (publish_tail cand c) = last_acknowledgement c"
  "log_stream_id (publish_tail cand c) = log_stream_id c"
  "produced_through (publish_tail cand c) = Some (last_sequence cand)"
  "acknowledged_count (publish_tail cand c) = acknowledged_count c"
  "end_of_stream (publish_tail cand c) =
     (if ends_stream cand then Some (last_sequence cand) else end_of_stream c)"
  by (simp_all add: publish_tail_def Let_def acknowledged_count_def)

lemma record_segment_OkE:
  assumes "cursor_inv c" "record_segment p t c = Ok c'"
  obtains (replace) ss cur where "end_of_stream c = None"
      "LogSegment_validate (publication_segment p) = Ok ()" "segments c = ss @ [cur]"
      "\<not> sealed cur" "first_sequence (publication_segment p) = first_sequence cur"
      "unat (last_sequence (publication_segment p)) = unat (last_sequence cur) + 1"
      "backlog ss + segment_bytes (publication_segment p) \<le> 268435456"
      "c' = publish_tail (publication_segment p) (c\<lparr>segments := ss @ [publication_segment p]\<rparr>)"
    | (append) "end_of_stream c = None"
      "LogSegment_validate (publication_segment p) = Ok ()" "open_segment c = None"
      "unat (first_sequence (publication_segment p)) = produced_count c"
      "last_sequence (publication_segment p) = first_sequence (publication_segment p)"
      "length (segments c) < 128" "validate_delivery_enqueued_at t = Ok ()"
      "backlog (segments c) + segment_bytes (publication_segment p) \<le> 268435456"
      "c' = publish_tail (publication_segment p) (c\<lparr>segments := segments c @ [publication_segment p],
         segment_enqueued_at := segment_enqueued_at c @ [t]\<rparr>)"
proof -
  let ?p = "publication_segment p"
  from assms(2) obtain first d where opn: "end_of_stream c = None"
    and valid: "LogSegment_validate ?p = Ok ()"
    and expected: "(case produced_through c of None \<Rightarrow> Ok 0
      | Some sequence \<Rightarrow> map_err (\<lambda>_. CounterExhausted) (LogSequence_checked_next sequence)) = Ok first"
    and d: "(case previous_open_content p of
        Some previous \<Rightarrow> replace_open_segment previous ?p c
      | None \<Rightarrow> append_open_segment first ?p t c) = Ok d"
    and c': "c' = publish_tail ?p d"
    by (auto simp: record_segment_def Let_def result_simps)
  from expected have first: "unat first = produced_count c"
    by (auto simp: produced_count_def result_simps split: option.splits)
  show ?thesis
  proof (cases "previous_open_content p")
    case (Some previous)
    with d have "replace_open_segment previous ?p c = Ok d" by simp
    from replace_open_segment_OkE[OF assms(1) this] show ?thesis
      using replace[OF opn valid] c' by blast
  next
    case None
    with d have "append_open_segment first ?p t c = Ok d" by simp
    from append_open_segment_OkE[OF assms(1) this] show ?thesis
      using append[OF opn valid] c' first by metis
  qed
qed

lemma cursor_inv_snoc:
  "cursor_inv (c\<lparr>segments := ss @ [s]\<rparr>) \<longleftrightarrow>
     length ss < 128 \<and> length (segment_enqueued_at c) = length ss + 1 \<and>
     (\<forall>t \<in> set (segment_enqueued_at c). validate_delivery_enqueued_at t = Ok ()) \<and>
     (\<forall>a. last_acknowledgement c = Some a \<longrightarrow>
        validate_log_content (head_content a) = Ok () \<and>
        acknowledgement_stream_id a = log_stream_id c) \<and>
     acknowledged_count c < 2 ^ 64 \<and>
     chain (acknowledged_count c) ss \<and> (\<forall>s \<in> set ss. sealed s \<and> \<not> ends_stream s) \<and>
     LogSegment_validate s = Ok () \<and>
     unat (first_sequence s) = chain_end (acknowledged_count c) ss \<and>
     unat (last_sequence s) + 1 < 2 ^ 64 \<and>
     backlog ss + segment_bytes s \<le> 268435456 \<and>
     produced_through c = Some (last_sequence s) \<and>
     (end_of_stream c = (if ends_stream s then Some (last_sequence s) else None))"
proof -
  have "acknowledged_count (c\<lparr>segments := ss @ [s]\<rparr>) = acknowledged_count c"
    by (simp add: acknowledged_count_def)
  then show ?thesis
    by (cases "end_of_stream c")
       (auto simp: cursor_inv_def chain_append durable_last_def backlog_append)
qed

section \<open>The frames a cursor holds\<close>

definition frames_of :: "LogSegment \<Rightarrow> nat list" where
  "frames_of s = [unat (first_sequence s) ..< unat (last_sequence s) + 1]"

lemma upt_join: "a \<le> b \<Longrightarrow> b \<le> c \<Longrightarrow> [a ..< b] @ [b ..< c] = [a ..< c]"
  using upt_add_eq_append[of a b "c - b"] by simp

lemma chain_frames:
  "chain start ss \<Longrightarrow> start \<le> chain_end start ss \<and>
     concat (map frames_of ss) = [start ..< chain_end start ss]"
proof (induction ss arbitrary: start)
  case (Cons s ss)
  let ?n = "unat (last_sequence s) + 1"
  from Cons have IH: "?n \<le> chain_end ?n ss" "concat (map frames_of ss) = [?n ..< chain_end ?n ss]"
    and s: "start = unat (first_sequence s)" "start < ?n"
    by (auto simp: LogSegment_validate_eq_Ok)
  have "chain_end start (s # ss) = chain_end ?n ss" by (simp add: chain_end_def)
  moreover have "[start ..< ?n] @ [?n ..< chain_end ?n ss] = [start ..< chain_end ?n ss]"
    using IH(1) s(2) by (intro upt_join) auto
  ultimately show ?case using IH s by (simp add: frames_of_def[of s])
qed (simp add: chain_end_def)

lemma cursor_frames:
  assumes "cursor_inv c"
  shows "acknowledged_count c \<le> produced_count c"
    and "concat (map frames_of (segments c)) = [acknowledged_count c ..< produced_count c]"
  using chain_frames[of "acknowledged_count c" "segments c"] cursor_produced[OF assms] assms
  by (auto simp: cursor_inv_def)


section \<open>Preservation\<close>

lemma publish_tail_segments:
  "publish_tail cand (c\<lparr>segments := ss, segment_enqueued_at := ts\<rparr>) =
     (publish_tail cand (c\<lparr>segment_enqueued_at := ts\<rparr>))\<lparr>segments := ss\<rparr>"
  by (simp add: publish_tail_def Let_def)

lemma cursor_update_self: "segments c = ss \<Longrightarrow> c = c\<lparr>segments := ss\<rparr>"
  by simp

lemma record_segment_inv:
  assumes "cursor_inv c" "record_segment p t c = Ok c'"
    and "unat (last_sequence (publication_segment p)) + 1 < 2 ^ 64"
  shows "cursor_inv c'"
  using assms(1,2)
proof (cases rule: record_segment_OkE)
  case (replace ss cur)
  from assms(1) have "cursor_inv (c\<lparr>segments := ss @ [cur]\<rparr>)"
    using cursor_update_self[OF replace(3)] by simp
  moreover have "c' = (publish_tail (publication_segment p) c)\<lparr>segments := ss @ [publication_segment p]\<rparr>"
    unfolding replace(8) by (simp add: publish_tail_def Let_def)
  ultimately show ?thesis
    using replace(1-7) assms(3) by (simp add: cursor_inv_snoc)
next
  case append
  have sealed: "\<forall>s \<in> set (segments c). sealed s \<and> \<not> ends_stream s"
    using open_segment_None_sealed[OF assms(1)] open_stream_not_ended[OF assms(1)] append by auto
  have "unat (first_sequence (publication_segment p)) < 2 ^ LENGTH(64)" by (rule unsigned_less)
  then have "acknowledged_count c < 2 ^ 64"
    using append(4) cursor_frames(1)[OF assms(1)] by simp
  then show ?thesis
    using append(1-8) assms(1,3) sealed cursor_produced[OF assms(1)]
    unfolding append(9) publish_tail_segments cursor_inv_snoc by (simp add: cursor_inv_def)
qed


lemma seal_segment_eq_Ok:
  "seal_segment content c = Ok (b, c') \<longleftrightarrow>
     (\<exists>ss s. segments c = ss @ [s] \<and> segment_content s = content \<and>
        b = (\<not> sealed s) \<and> c' = c\<lparr>segments := ss @ [LogSegment_seal s]\<rparr>)"
proof -
  have same: "sealed s \<Longrightarrow> LogSegment_seal s = s" for s
    by (cases s) (simp add: LogSegment_seal_def)
  have self: "segments c = ss \<Longrightarrow> c\<lparr>segments := ss\<rparr> = c" for ss by simp
  show ?thesis
    by (auto simp: seal_segment_def result_simps last_opt_eq_Some same self split: if_splits)
qed

lemma LogSegment_seal_simps [simp]:
  "segment_bytes (LogSegment_seal s) = segment_bytes s"
  "first_sequence (LogSegment_seal s) = first_sequence s"
  "last_sequence (LogSegment_seal s) = last_sequence s"
  "ends_stream (LogSegment_seal s) = ends_stream s"
  "segment_content (LogSegment_seal s) = segment_content s"
  "sealed (LogSegment_seal s)"
  "LogSegment_validate s = Ok () \<Longrightarrow> LogSegment_validate (LogSegment_seal s) = Ok ()"
  by (auto simp: LogSegment_seal_def segment_bytes_def LogSegment_validate_eq_Ok)

lemma seal_segment_inv:
  assumes "cursor_inv c" "seal_segment content c = Ok (b, c')"
  shows "cursor_inv c'"
proof -
  from assms(2) obtain ss s where s: "segments c = ss @ [s]"
    and c': "c' = c\<lparr>segments := ss @ [LogSegment_seal s]\<rparr>" by (auto simp: seal_segment_eq_Ok)
  from assms(1) have "cursor_inv (c\<lparr>segments := ss @ [s]\<rparr>)"
    using cursor_update_self[OF s] by simp
  then show ?thesis unfolding c' cursor_inv_snoc by simp
qed

lemma acknowledge_segment_new:
  "acknowledge_segment a c = Ok (True, c') \<longleftrightarrow>
     (\<forall>p. last_acknowledgement c = Some p \<longrightarrow> through p < through a) \<and>
     (\<exists>s ss. segments c = s # ss \<and> sealed s \<and> last_sequence s = through a \<and>
        segment_content s = head_content a \<and>
        c' = c\<lparr>segments := ss, segment_enqueued_at := tl (segment_enqueued_at c),
               last_acknowledgement := Some a\<rparr>)"
  by (auto simp: acknowledge_segment_def Let_def result_simps first_opt_eq_Some not_le
      split: option.splits if_splits)

lemma acknowledge_segment_replay:
  "acknowledge_segment a c = Ok (False, c') \<longleftrightarrow> last_acknowledgement c = Some a \<and> c' = c"
  by (auto simp: acknowledge_segment_def Let_def result_simps split: option.splits if_splits)

lemma acknowledge_segment_inv:
  assumes "cursor_inv c" "acknowledge_segment a c = Ok (b, c')"
    and "acknowledgement_stream_id a = log_stream_id c"
  shows "cursor_inv c'"
proof (cases b)
  case True
  with assms(2) obtain s ss where s: "segments c = s # ss" "sealed s" "last_sequence s = through a"
      "segment_content s = head_content a"
    and c': "c' = c\<lparr>segments := ss, segment_enqueued_at := tl (segment_enqueued_at c),
               last_acknowledgement := Some a\<rparr>" by (auto simp: acknowledge_segment_new)
  have chain: "chain (acknowledged_count c) (s # ss)" using assms(1) s(1) by (simp add: cursor_inv_def)
  have count: "acknowledged_count c' = unat (through a) + 1"
    by (simp add: c' acknowledged_count_def)
  have content: "validate_log_content (head_content a) = Ok ()"
    using chain s(4)
    by (auto simp: LogSegment_validate_eq_Ok validate_log_content_def segment_bytes_def
        MAX_LOG_SPOOL_CONTENT_BYTES_def word_less_nat_alt)
  have last: "durable_last c' = durable_last c"
    using s by (cases ss rule: rev_cases)
      (auto simp: c' durable_last_def log_acknowledged_through_def last_opt_def)
  have times: "length (tl (segment_enqueued_at c)) = length ss"
    "set (tl (segment_enqueued_at c)) \<subseteq> set (segment_enqueued_at c)"
    using assms(1) s(1) by (auto simp: cursor_inv_def dest: list.set_sel(2)[rotated])
  have tail: "last_opt ss = Some x \<Longrightarrow> last_opt (s # ss) = Some x" for x
    by (auto simp: last_opt_def split: if_splits)
  note inv = assms(1)[unfolded cursor_inv_def s(1)]
  show ?thesis
    unfolding cursor_inv_def count last
  proof (intro conjI)
    show "\<forall>e. end_of_stream c' = Some e \<longrightarrow> produced_through c' = Some e \<and>
        (\<forall>s. last_opt (segments c') = Some s \<longrightarrow> ends_stream s)"
    proof (intro allI impI)
      fix e
      assume "end_of_stream c' = Some e"
      then have "end_of_stream c = Some e" by (simp add: c')
      with inv have "produced_through c = Some e" "\<forall>x. last_opt (s # ss) = Some x \<longrightarrow> ends_stream x"
        by blast+
      with tail show "produced_through c' = Some e \<and>
          (\<forall>x. last_opt (segments c') = Some x \<longrightarrow> ends_stream x)" by (simp add: c')
    qed
    show "backlog (segments c') \<le> 268435456" using inv by (simp add: c' backlog_def)
    show "length (segments c') \<le> 128" "length (segment_enqueued_at c') = length (segments c')"
      using inv times(1) by (simp_all add: c')
    show "\<forall>t \<in> set (segment_enqueued_at c'). validate_delivery_enqueued_at t = Ok ()"
      using inv times(2) by (simp add: c' subset_eq)
    show "\<forall>x. last_acknowledgement c' = Some x \<longrightarrow> validate_log_content (head_content x) = Ok () \<and>
        acknowledgement_stream_id x = log_stream_id c'"
      using content assms(3) by (simp add: c')
    show "segments c' \<noteq> [] \<longrightarrow> unat (through a) + 1 < 2 ^ 64" "chain (unat (through a) + 1) (segments c')"
      using chain s(3) by (simp_all add: c')
    show "produced_through c' = durable_last c" using inv by (simp add: c')
    from inv have "\<forall>x \<in> set (s # ss). ends_stream x \<longrightarrow> end_of_stream c = Some (last_sequence x)"
      by blast
    then show "\<forall>x \<in> set (segments c'). ends_stream x \<longrightarrow> end_of_stream c' = Some (last_sequence x)"
      unfolding c' by simp
  qed
next
  case False
  with assms show ?thesis by (simp add: acknowledge_segment_replay)
qed

section \<open>Runs of a stream\<close>

inductive log_init :: "LogDeliveryCursor \<Rightarrow> bool" where
  "log_init (LogDeliveryCursor_new stream)"

text \<open>
  The steps of a stream.  The last sequence number of the \<open>u64\<close> range is never used: a frame with that
  number could not be followed.  An acknowledgement reaches the cursor only after the caller has
  compared its stream.
\<close>

inductive log_step :: "LogDeliveryCursor \<Rightarrow> LogDeliveryCursor \<Rightarrow> bool" where
  produce: "record_segment p t c = Ok c' \<Longrightarrow>
     unat (last_sequence (publication_segment p)) + 1 < 2 ^ 64 \<Longrightarrow> log_step c c'"
| seal: "seal_segment content c = Ok (b, c') \<Longrightarrow> log_step c c'"
| deliver: "acknowledge_segment a c = Ok (b, c') \<Longrightarrow>
     acknowledgement_stream_id a = log_stream_id c \<Longrightarrow> log_step c c'"

interpretation log_cursor: inductive_invariant log_init log_step cursor_inv
proof
  show "cursor_inv c" if "log_init c" for c
    using that by cases (simp add: new_cursor_inv)
  show "cursor_inv c'" if "cursor_inv c" "log_step c c'" for c c'
    using that(2,1)
    by cases (auto intro: record_segment_inv seal_segment_inv acknowledge_segment_inv)
qed

interpretation seal_retry: idempotent_mutation "seal_segment content" cursor_inv for content
proof
  show "c' = c" if "cursor_inv c" "seal_segment content c = Ok (False, c')" for c c'
    using that(2) by (auto simp: seal_segment_def result_simps split: if_splits)
  show "seal_segment content c' = Ok (False, c')"
    if "cursor_inv c" "seal_segment content c = Ok (True, c')" for c c'
    using that(2) by (auto simp: seal_segment_eq_Ok) (simp add: LogSegment_seal_def)
qed

interpretation acknowledge_retry: idempotent_mutation "acknowledge_segment a" cursor_inv for a
  by unfold_locales (auto simp: acknowledge_segment_replay acknowledge_segment_new)

text \<open>Acknowledging the retained segments in order.\<close>

definition head_acknowledgement :: "LogStreamId \<Rightarrow> LogSegment \<Rightarrow> LogSegmentAcknowledgement" where
  "head_acknowledgement stream s =
     \<lparr>acknowledgement_stream_id = stream, through = last_sequence s, head_content = segment_content s\<rparr>"

definition deliver_segment :: "LogSegment \<Rightarrow> LogDeliveryCursor \<Rightarrow> LogDeliveryCursor jresult" where
  "deliver_segment s c =
     and_then (acknowledge_segment (head_acknowledgement (log_stream_id c) s) c) (\<lambda>(_, c'). Ok c')"

lemma deliver_head:
  assumes "cursor_inv c" "segments c = s # ss" "sealed s"
  shows "\<exists>c'. deliver_segment s c = Ok c' \<and> cursor_inv c' \<and> segments c' = ss \<and>
    end_of_stream c' = end_of_stream c \<and> log_acknowledged_through c' = Some (last_sequence s)"
proof -
  let ?a = "head_acknowledgement (log_stream_id c) s"
  let ?c' = "c\<lparr>segments := ss, segment_enqueued_at := tl (segment_enqueued_at c),
               last_acknowledgement := Some ?a\<rparr>"
  have "chain (acknowledged_count c) (s # ss)" using assms(1,2) by (simp add: cursor_inv_def)
  then have "acknowledged_count c \<le> unat (last_sequence s)" by (auto simp: LogSegment_validate_eq_Ok)
  then have "\<forall>p. last_acknowledgement c = Some p \<longrightarrow> through p < last_sequence s"
    by (auto simp: acknowledged_count_def word_less_nat_alt)
  then have "acknowledge_segment ?a c = Ok (True, ?c')"
    using assms(2,3) by (auto simp: acknowledge_segment_new head_acknowledgement_def)
  with acknowledge_segment_inv[OF assms(1) this] show ?thesis
    by (simp add: deliver_segment_def head_acknowledgement_def log_acknowledged_through_def)
qed

lemma drain:
  assumes "cursor_inv c" "end_of_stream c = Some e"
  shows "\<exists>c'. try_fold deliver_segment (segments c) c = Ok c' \<and> is_fully_delivered c'"
  using assms
proof (induction "segments c" arbitrary: c)
  case Nil
  then show ?case
    by (auto simp: is_fully_delivered_def cursor_inv_def durable_last_def)
next
  case (Cons s ss)
  from Cons.hyps(2) Cons.prems have "sealed s"
  proof (cases ss)
    case Nil
    with Cons.hyps(2)[symmetric] Cons.prems show ?thesis
      by (auto simp: cursor_inv_def LogSegment_validate_eq_Ok last_opt_def)
  qed (auto simp: cursor_inv_def Cons.hyps(2)[symmetric])
  then obtain c1 where c1: "deliver_segment s c = Ok c1" "cursor_inv c1" "segments c1 = ss"
    "end_of_stream c1 = end_of_stream c"
    using deliver_head[OF Cons.prems(1) Cons.hyps(2)[symmetric]] by blast
  from Cons.hyps(1)[of c1] c1 Cons.prems(2) show ?case
    by (simp add: Cons.hyps(2)[symmetric])
qed

section \<open>Properties\<close>

definition sample_content :: "u64 \<Rightarrow> DurableContentRef" where
  "sample_content n = \<lparr>content_kind = KLogSpool, identity = Public n [], cache_key = [], protection_id = []\<rparr>"

definition sample_segment :: "bool \<Rightarrow> LogSegment" where
  "sample_segment final =
     \<lparr>first_sequence = 0, last_sequence = 0, frame_count = 1, payload_bytes = 3,
      segment_content = sample_content 5, sealed = final, ends_stream = final\<rparr>"

definition sample_cursor :: "bool \<Rightarrow> LogDeliveryCursor" where
  "sample_cursor final =
     \<lparr>log_stream_id = 7, segments = [sample_segment final], segment_enqueued_at = [100],
      produced_through = Some 0, end_of_stream = (if final then Some 0 else None),
      last_acknowledgement = None\<rparr>"

lemma sample_cursor_recorded:
  "record_segment \<lparr>publication_stream_id = 7, previous_open_content = None,
     publication_segment = sample_segment final\<rparr> 100 (LogDeliveryCursor_new 7) = Ok (sample_cursor final)"
  by (simp add: record_segment_def LogDeliveryCursor_new_def sample_segment_def sample_content_def
      LogSegment_validate_def validate_log_content_def accounted_bytes_def MAX_LOG_SPOOL_CONTENT_BYTES_def
      MAX_LOG_SEGMENT_FRAMES_def checked_sub_def checked_add_def append_open_segment_def
      validate_delivery_enqueued_at_def ensure_def MAX_DELIVERY_ENQUEUED_AT_MILLIS_def open_segment_def
      MAX_LOG_SEGMENTS_PER_SLOT_def backlog_content_bytes_def publish_tail_def sample_cursor_def)

lemma sample_cursor_reachable: "reach log_init log_step (sample_cursor final)"
proof (rule reach_step)
  show "reach log_init log_step (LogDeliveryCursor_new 7)" by (intro reach_init log_init.intros)
  show "log_step (LogDeliveryCursor_new 7) (sample_cursor final)"
    by (rule produce[OF sample_cursor_recorded]) (simp add: sample_segment_def)
qed

lemma sample_delivered:
  "acknowledge_segment (head_acknowledgement 7 (sample_segment True)) (sample_cursor True) =
     Ok (True, (sample_cursor True)\<lparr>segments := [], segment_enqueued_at := [],
       last_acknowledgement := Some (head_acknowledgement 7 (sample_segment True))\<rparr>)"
  by (simp add: acknowledge_segment_def sample_cursor_def sample_segment_def head_acknowledgement_def)

text \<open>
  C29. No log frame is lost, duplicated or reordered: in every reachable cursor, the frames of the
  retained segments, in delivery order, are exactly the frames produced and not yet acknowledged; and
  the cursor passes the validation that guards decoding.
\<close>
theorem retained_frames_are_exact:
  assumes "reach log_init log_step c"
  shows "LogDeliveryCursor_validate c = Ok () \<and>
    concat (map frames_of (segments c)) = [acknowledged_count c ..< produced_count c]"
  using log_cursor.reach_inv[OF assms] cursor_frames(2) by (simp add: cursor_validate_iff)

theorem retained_frames_are_exact_witness:
  "LogDeliveryCursor_validate (sample_cursor False) = Ok () \<and>
   concat (map frames_of (segments (sample_cursor False))) = [0 ..< 1]"
  using retained_frames_are_exact[OF sample_cursor_reachable[of False]]
  by (simp add: sample_cursor_def acknowledged_count_def produced_count_def)

text \<open>
  A new acknowledgement releases exactly one sealed segment, whose frames are the next undelivered
  ones, without a gap or an overlap; production and the end of the stream are not touched.
\<close>
theorem acknowledgement_delivers_next_frames:
  assumes "reach log_init log_step c" "acknowledge_segment a c = Ok (True, c')"
  shows "\<exists>s. segments c = s # segments c' \<and> sealed s \<and> segment_content s = head_content a \<and>
    frames_of s = [acknowledged_count c ..< acknowledged_count c'] \<and>
    acknowledged_count c < acknowledged_count c' \<and>
    produced_count c' = produced_count c \<and> end_of_stream c' = end_of_stream c"
proof -
  from assms(2) obtain s ss where s: "segments c = s # ss" "sealed s" "last_sequence s = through a"
      "segment_content s = head_content a"
    and c': "c' = c\<lparr>segments := ss, segment_enqueued_at := tl (segment_enqueued_at c),
               last_acknowledgement := Some a\<rparr>" by (auto simp: acknowledge_segment_new)
  have "chain (acknowledged_count c) (s # ss)"
    using log_cursor.reach_inv[OF assms(1)] s(1) by (simp add: cursor_inv_def)
  moreover have "acknowledged_count c' = unat (last_sequence s) + 1"
    by (simp add: c' acknowledged_count_def s(3))
  moreover have "produced_count c' = produced_count c" by (simp add: c' produced_count_def)
  ultimately show ?thesis
    using s by (auto simp: c' frames_of_def LogSegment_validate_eq_Ok)
qed

theorem acknowledgement_delivers_next_frames_witness:
  "\<exists>s. segments (sample_cursor True) = [s] \<and> frames_of s = [0 ..< 1]"
  using acknowledgement_delivers_next_frames[OF sample_cursor_reachable sample_delivered]
  by (simp add: acknowledged_count_def sample_cursor_def head_acknowledgement_def sample_segment_def)

text \<open>
  C30. A closed stream can always be delivered: acknowledging its retained segments in order succeeds at
  every one of them and leaves the cursor fully delivered.
\<close>
theorem closed_stream_drains:
  assumes "reach log_init log_step c" "end_of_stream c = Some e"
  shows "\<exists>c'. try_fold deliver_segment (segments c) c = Ok c' \<and> is_fully_delivered c'"
  using drain[OF log_cursor.reach_inv[OF assms(1)] assms(2)] .

theorem closed_stream_drains_witness:
  "\<exists>c'. try_fold deliver_segment [sample_segment True] (sample_cursor True) = Ok c' \<and>
    is_fully_delivered c'"
  using closed_stream_drains[OF sample_cursor_reachable[of True], of 0]
  by (simp add: sample_cursor_def)



end
