(* ===== verification/Provider.thy ===== *)
theory Provider
  imports JournalBase
begin

text \<open>
  Sandbox-provider operations: names, intents, outcomes (\<open>model/provider.rs\<close> of the runner journal) and
  the recovery state that replays them (\<open>ProviderRecoveryState\<close> and \<open>replay_provider_operations\<close> in
  \<open>model/state.rs\<close>).
\<close>

section \<open>Names and handles\<close>

definition MAX_PROVIDER_NAME_BYTES :: nat where "MAX_PROVIDER_NAME_BYTES = 64"
definition MAX_SANDBOX_HANDLE_BYTES :: nat where "MAX_SANDBOX_HANDLE_BYTES = 192"

definition is_ascii_lowercase :: "char \<Rightarrow> bool" where
  "is_ascii_lowercase c \<longleftrightarrow> 97 \<le> (of_char c :: nat) \<and> (of_char c :: nat) \<le> 122"

type_synonym ProviderName = string
type_synonym SandboxHandle = string

definition ProviderName_new :: "string \<Rightarrow> ProviderName jresult" where
  "ProviderName_new value =
     (if value \<noteq> [] \<and> length value \<le> MAX_PROVIDER_NAME_BYTES \<and>
         (case value of [] \<Rightarrow> False | byte # _ \<Rightarrow> is_ascii_lowercase byte \<or> is_digit_char byte) \<and>
         list_all (\<lambda>byte. is_ascii_lowercase byte \<or> is_digit_char byte \<or> byte \<in> set ''._-'') value
      then Ok value else Err InvalidProviderName)"

definition SandboxHandle_new :: "string \<Rightarrow> SandboxHandle jresult" where
  "SandboxHandle_new value =
     (if value \<noteq> [] \<and> length value \<le> MAX_SANDBOX_HANDLE_BYTES \<and>
         list_all (\<lambda>byte. is_ascii_alphanumeric byte \<or> byte \<in> set ''._:-'') value
      then Ok value else Err InvalidSandboxHandle)"

record SandboxIdentity =
  sandbox_provider :: ProviderName
  sandbox_handle :: SandboxHandle

section \<open>Operations and outcomes\<close>

datatype ProviderFailureKind =
    InvalidRequest | Unsupported | PermissionDenied | ResourceExhausted | NotFound | Conflict
  | Unavailable | ProviderTimedOut | Internal

datatype ProviderFailureOutcome =
    KnownNoEffect ProviderFailureKind
  | Uncertain ProviderFailureKind

fun failure_kind :: "ProviderFailureOutcome \<Rightarrow> ProviderFailureKind" where
  "failure_kind (KnownNoEffect kind) = kind"
| "failure_kind (Uncertain kind) = kind"

fun is_uncertain :: "ProviderFailureOutcome \<Rightarrow> bool" where
  "is_uncertain (Uncertain _) = True"
| "is_uncertain (KnownNoEffect _) = False"

datatype ProviderOperationOutcome =
    OutcomePending
  | Applied
  | OutcomeFailed ProviderFailureOutcome

fun outcome_is_pending :: "ProviderOperationOutcome \<Rightarrow> bool" where
  "outcome_is_pending OutcomePending = True"
| "outcome_is_pending (OutcomeFailed (Uncertain _)) = True"
| "outcome_is_pending _ = False"

record ProviderOperation =
  provider_operation_id :: OperationId
  provider_kind :: ProviderOperationKind
  provider_outcome :: ProviderOperationOutcome

definition intent :: "OperationId \<Rightarrow> ProviderOperationKind \<Rightarrow> ProviderOperation" where
  "intent operation kind =
     \<lparr>provider_operation_id = operation, provider_kind = kind, provider_outcome = OutcomePending\<rparr>"

definition provider_is_pending :: "ProviderOperation \<Rightarrow> bool" where
  "provider_is_pending self = outcome_is_pending (provider_outcome self)"

definition mark_applied :: "ProviderOperation \<Rightarrow> (bool \<times> ProviderOperation) jresult" where
  "mark_applied self =
     (case provider_outcome self of
        Applied \<Rightarrow> Ok (False, self)
      | OutcomePending \<Rightarrow> Ok (True, self\<lparr>provider_outcome := Applied\<rparr>)
      | OutcomeFailed (Uncertain _) \<Rightarrow> Ok (True, self\<lparr>provider_outcome := Applied\<rparr>)
      | OutcomeFailed (KnownNoEffect _) \<Rightarrow> Err ProviderOperationReplayConflict)"

definition resolve_failure ::
  "ProviderFailureOutcome \<Rightarrow> ProviderOperation \<Rightarrow> (bool \<times> ProviderOperation) jresult" where
  "resolve_failure failure self =
     (case provider_outcome self of
        OutcomePending \<Rightarrow> Ok (True, self\<lparr>provider_outcome := OutcomeFailed failure\<rparr>)
      | OutcomeFailed existing \<Rightarrow>
          if existing = failure then Ok (False, self)
          else if is_uncertain existing \<and> \<not> is_uncertain failure
          then Ok (True, self\<lparr>provider_outcome := OutcomeFailed failure\<rparr>)
          else Err ProviderOperationReplayConflict
      | Applied \<Rightarrow> Err ProviderOperationReplayConflict)"

section \<open>Recovery state\<close>

record ProviderRecoveryState =
  compacted_operations :: u64
  sandbox_was_created :: bool
  sandbox_live :: bool
  provider_running :: bool

definition ProviderRecoveryState_default :: ProviderRecoveryState where
  "ProviderRecoveryState_default =
     \<lparr>compacted_operations = 0, sandbox_was_created = False, sandbox_live = False,
      provider_running = False\<rparr>"

fun can_begin :: "ProviderRecoveryState \<Rightarrow> ProviderOperationKind \<Rightarrow> bool" where
  "can_begin self CreateSandbox = (\<not> sandbox_was_created self \<and> \<not> sandbox_live self)"
| "can_begin self StartSandbox = (sandbox_live self \<and> \<not> provider_running self)"
| "can_begin self StopSandbox = (sandbox_live self \<and> provider_running self)"
| "can_begin self DestroySandbox = sandbox_live self"

definition recovery_apply :: "ProviderOperation \<Rightarrow> ProviderRecoveryState \<Rightarrow> ProviderRecoveryState jresult" where
  "recovery_apply operation self =
     (if \<not> can_begin self (provider_kind operation) then Err DecodedStateInvalid
      else if provider_outcome operation \<noteq> Applied then Ok self
      else Ok (case provider_kind operation of
             CreateSandbox \<Rightarrow> self\<lparr>sandbox_was_created := True, sandbox_live := True\<rparr>
           | StartSandbox \<Rightarrow> self\<lparr>provider_running := True\<rparr>
           | StopSandbox \<Rightarrow> self\<lparr>provider_running := False\<rparr>
           | DestroySandbox \<Rightarrow> self\<lparr>sandbox_live := False, provider_running := False\<rparr>))"

definition recovery_compact :: "ProviderOperation \<Rightarrow> ProviderRecoveryState \<Rightarrow> ProviderRecoveryState jresult" where
  "recovery_compact operation self =
     (if provider_is_pending operation then Err ProviderOperationPending
      else and_then (recovery_apply operation self) (\<lambda>self.
           and_then (ok_or CounterExhausted (checked_add (compacted_operations self) 1)) (\<lambda>count.
           Ok (self\<lparr>compacted_operations := count\<rparr>))))"

definition is_coherent :: "ProviderRecoveryState \<Rightarrow> bool" where
  "is_coherent self =
     (if compacted_operations self = 0
      then \<not> sandbox_was_created self \<and> \<not> sandbox_live self \<and> \<not> provider_running self
      else (\<not> provider_running self \<or> sandbox_live self) \<and>
           (\<not> sandbox_live self \<or> sandbox_was_created self))"

fun replay_loop ::
  "OperationId list \<Rightarrow> nat \<Rightarrow> nat \<Rightarrow> ProviderOperation list \<Rightarrow> ProviderRecoveryState \<Rightarrow>
   ProviderRecoveryState jresult" where
  "replay_loop seen index count [] recovery = Ok recovery"
| "replay_loop seen index count (operation # rest) recovery =
     (if provider_operation_id operation \<in> set seen \<or>
         (provider_is_pending operation \<and> index + 1 \<noteq> count)
      then Err DecodedStateInvalid
      else and_then (recovery_apply operation recovery) (\<lambda>recovery.
           replay_loop (provider_operation_id operation # seen) (index + 1) count rest recovery))"

definition replay_provider_operations ::
  "ProviderRecoveryState \<Rightarrow> ProviderOperation list \<Rightarrow> ProviderRecoveryState jresult" where
  "replay_provider_operations checkpoint operations =
     replay_loop [] 0 (length operations) operations checkpoint"

section \<open>What a replay means\<close>

text \<open>Distinct identities, no pending operation but the last, and every operation allowed in turn.\<close>

lemma replay_loop_eq_Ok:
  "n = i + length ops \<Longrightarrow>
   replay_loop seen i n ops r = Ok r' \<longleftrightarrow>
     distinct (map provider_operation_id ops) \<and>
     set (map provider_operation_id ops) \<inter> set seen = {} \<and>
     (\<forall>op \<in> set (butlast ops). \<not> provider_is_pending op) \<and> try_fold recovery_apply ops r = Ok r'"
proof (induction ops arbitrary: seen i r)
  case (Cons op ops)
  then show ?case by (auto simp: result_simps)
qed simp

lemma replay_eq_Ok:
  "replay_provider_operations r ops = Ok r' \<longleftrightarrow>
     distinct (map provider_operation_id ops) \<and>
     (\<forall>op \<in> set (butlast ops). \<not> provider_is_pending op) \<and> try_fold recovery_apply ops r = Ok r'"
  unfolding replay_provider_operations_def by (subst replay_loop_eq_Ok) auto

definition recovery_count :: "u64 \<Rightarrow> ProviderRecoveryState \<Rightarrow> ProviderRecoveryState" where
  "recovery_count n r = r\<lparr>compacted_operations := n\<rparr>"

lemma can_begin_count [simp]: "can_begin (recovery_count n r) k = can_begin r k"
  by (cases k) (simp_all add: recovery_count_def)

lemma recovery_apply_count:
  "recovery_apply op (recovery_count n r) =
     (case recovery_apply op r of Inl e \<Rightarrow> Inl e | Inr r' \<Rightarrow> Inr (recovery_count n r'))"
  by (simp add: recovery_apply_def split: ProviderOperationKind.splits)
     (simp add: recovery_count_def)

lemma try_fold_apply_count:
  "try_fold recovery_apply ops (recovery_count n r) =
     (case try_fold recovery_apply ops r of Inl e \<Rightarrow> Inl e | Inr r' \<Rightarrow> Inr (recovery_count n r'))"
proof (induction ops arbitrary: r)
  case (Cons op ops)
  then show ?case by (simp add: recovery_apply_count split: sum.splits)
qed simp

lemma recovery_compact_eq_Ok:
  "recovery_compact op r = Ok r' \<longleftrightarrow>
     \<not> provider_is_pending op \<and>
     (\<exists>s n. recovery_apply op r = Ok s \<and> unat n = unat (compacted_operations s) + 1 \<and>
        r' = recovery_count n s)"
  by (auto simp: recovery_compact_def result_simps checked_simps recovery_count_def)

lemma recovery_apply_count_unchanged:
  "recovery_apply op r = Ok r' \<Longrightarrow> compacted_operations r' = compacted_operations r"
  by (auto simp: recovery_apply_def split: if_splits ProviderOperationKind.splits)

text \<open>The facts about a live sandbox that every replayed state has.\<close>

definition recovery_inv :: "ProviderRecoveryState \<Rightarrow> bool" where
  "recovery_inv r \<longleftrightarrow> (provider_running r \<longrightarrow> sandbox_live r) \<and> (sandbox_live r \<longrightarrow> sandbox_was_created r)"

lemma is_coherent_inv: "is_coherent r \<Longrightarrow> recovery_inv r"
  by (auto simp: is_coherent_def recovery_inv_def split: if_splits)

lemma recovery_apply_inv: "recovery_inv r \<Longrightarrow> recovery_apply op r = Ok r' \<Longrightarrow> recovery_inv r'"
  by (auto simp: recovery_apply_def recovery_inv_def split: if_splits ProviderOperationKind.splits)

lemma try_fold_apply_inv:
  "recovery_inv r \<Longrightarrow> try_fold recovery_apply ops r = Ok r' \<Longrightarrow> recovery_inv r'"
  by (induction ops arbitrary: r) (auto simp: result_simps dest: recovery_apply_inv)

lemma recovery_compact_coherent:
  assumes "is_coherent r" "recovery_compact op r = Ok r'"
  shows "is_coherent r'"
proof -
  from assms(2) obtain s n where "recovery_apply op r = Ok s" "unat n = unat (compacted_operations s) + 1"
    and r': "r' = recovery_count n s" by (auto simp: recovery_compact_eq_Ok)
  moreover from this have "n \<noteq> 0" by auto
  moreover have "recovery_inv s"
    using recovery_apply_inv[OF is_coherent_inv[OF assms(1)]] calculation(1) .
  ultimately show ?thesis by (auto simp: is_coherent_def recovery_count_def recovery_inv_def)
qed

text \<open>Moving the oldest operation into the checkpoint changes nothing a replay can see.\<close>

lemma compact_replay:
  assumes "replay_provider_operations r (op # ops) = Ok r'" "recovery_compact op r = Ok c"
  shows "replay_provider_operations c ops = Ok (recovery_count (compacted_operations c) r')"
proof -
  from assms(1) obtain s where s: "recovery_apply op r = Ok s" "try_fold recovery_apply ops s = Ok r'"
    and ids: "distinct (map provider_operation_id ops)"
      "\<forall>x \<in> set (butlast ops). \<not> provider_is_pending x"
    by (auto simp: replay_eq_Ok result_simps split: if_splits)
  from assms(2) s(1) obtain n where "c = recovery_count n s" "compacted_operations c = n"
    by (auto simp: recovery_compact_eq_Ok recovery_count_def)
  with s ids show ?thesis by (simp add: replay_eq_Ok try_fold_apply_count)
qed

lemma dead_sandbox_stuck:
  assumes "sandbox_was_created r" "\<not> sandbox_live r"
  shows "try_fold recovery_apply ops r = Ok r' \<longleftrightarrow> ops = [] \<and> r' = r"
proof (cases ops)
  case (Cons op rest)
  then show ?thesis
    using assms by (cases "provider_kind op") (auto simp: recovery_apply_def)
qed auto

lemma apply_created_mono:
  "recovery_apply op r = Ok r' \<Longrightarrow> sandbox_was_created r \<Longrightarrow> sandbox_was_created r'"
  by (auto simp: recovery_apply_def split: if_splits ProviderOperationKind.splits)

definition applied_creates :: "ProviderOperation list \<Rightarrow> ProviderOperation list" where
  "applied_creates ops = filter (\<lambda>op. provider_kind op = CreateSandbox \<and> provider_outcome op = Applied) ops"

lemma created_no_more_creates:
  "sandbox_was_created r \<Longrightarrow> try_fold recovery_apply ops r = Ok r' \<Longrightarrow>
   \<forall>op \<in> set ops. provider_kind op \<noteq> CreateSandbox"
proof (induction ops arbitrary: r)
  case (Cons op ops)
  then obtain s where s: "recovery_apply op r = Ok s" "try_fold recovery_apply ops s = Ok r'"
    by (auto simp: result_simps)
  from s(1) Cons.prems(1) have "provider_kind op \<noteq> CreateSandbox"
    by (auto simp: recovery_apply_def split: if_splits)
  with Cons.IH[OF apply_created_mono[OF s(1) Cons.prems(1)] s(2)] show ?case by simp
qed simp

lemma at_most_one_create:
  "try_fold recovery_apply ops r = Ok r' \<Longrightarrow> length (applied_creates ops) \<le> 1"
proof (induction ops arbitrary: r)
  case (Cons op ops)
  then obtain s where s: "recovery_apply op r = Ok s" "try_fold recovery_apply ops s = Ok r'"
    by (auto simp: result_simps)
  show ?case
  proof (cases "provider_kind op = CreateSandbox \<and> provider_outcome op = Applied")
    case True
    with s(1) have "sandbox_was_created s" by (auto simp: recovery_apply_def split: if_splits)
    from created_no_more_creates[OF this s(2)] have "applied_creates ops = []"
      by (auto simp: applied_creates_def)
    then show ?thesis by (simp add: applied_creates_def)
  next
    case False
    with Cons.IH[OF s(2)] show ?thesis by (auto simp: applied_creates_def)
  qed
qed (simp add: applied_creates_def)

section \<open>Properties\<close>

text \<open>
  C32. Compaction is invisible: folding the oldest settled provider operation into the checkpoint
  keeps the checkpoint coherent and replays to the same recovery state, up to the count of
  compacted operations.
\<close>
theorem compaction_preserves_replay:
  assumes "is_coherent r" "replay_provider_operations r (op # ops) = Ok r'" "recovery_compact op r = Ok c"
  shows "is_coherent c \<and>
    replay_provider_operations c ops = Ok (r'\<lparr>compacted_operations := compacted_operations c\<rparr>)"
  using recovery_compact_coherent[OF assms(1,3)] compact_replay[OF assms(2,3)]
  by (simp add: recovery_count_def)

theorem compaction_preserves_replay_witness:
  "is_coherent \<lparr>compacted_operations = 1, sandbox_was_created = True, sandbox_live = True,
     provider_running = False\<rparr> \<and>
   replay_provider_operations \<lparr>compacted_operations = 1, sandbox_was_created = True,
     sandbox_live = True, provider_running = False\<rparr> [intent 2 StartSandbox] =
   Ok \<lparr>compacted_operations = 1, sandbox_was_created = True, sandbox_live = True,
     provider_running = False\<rparr>"
  using compaction_preserves_replay[of ProviderRecoveryState_default
      "\<lparr>provider_operation_id = 1, provider_kind = CreateSandbox, provider_outcome = Applied\<rparr>"
      "[intent 2 StartSandbox]"
      "\<lparr>compacted_operations = 0, sandbox_was_created = True, sandbox_live = True, provider_running = False\<rparr>"
      "\<lparr>compacted_operations = 1, sandbox_was_created = True, sandbox_live = True, provider_running = False\<rparr>"]
  by (simp add: ProviderRecoveryState_default_def is_coherent_def replay_provider_operations_def
      recovery_apply_def intent_def provider_is_pending_def recovery_compact_def checked_add_def)

text \<open>
  C33. A replayable history uses its sandbox soundly: at most one create was applied, nothing follows an
  applied destroy, and a running or live sandbox is one that was created.
\<close>
theorem replayed_history_is_sound:
  assumes "is_coherent r" "replay_provider_operations r ops = Ok r'"
  shows "length (applied_creates ops) \<le> 1 \<and>
    (\<forall>xs d ys. ops = xs @ d # ys \<and> provider_kind d = DestroySandbox \<and> provider_outcome d = Applied
       \<longrightarrow> ys = []) \<and>
    (provider_running r' \<longrightarrow> sandbox_live r') \<and> (sandbox_live r' \<longrightarrow> sandbox_was_created r')"
proof -
  have fold: "try_fold recovery_apply ops r = Ok r'" using assms(2) by (simp add: replay_eq_Ok)
  have "ys = []" if "ops = xs @ d # ys" "provider_kind d = DestroySandbox" "provider_outcome d = Applied"
    for xs d ys
  proof -
    from fold that(1) obtain s t where s: "try_fold recovery_apply xs r = Ok s"
      "recovery_apply d s = Ok t" "try_fold recovery_apply ys t = Ok r'"
      by (auto simp: try_fold_append result_simps)
    have "recovery_inv s" using try_fold_apply_inv[OF is_coherent_inv[OF assms(1)] s(1)] .
    with s(2) that have "sandbox_was_created t" "\<not> sandbox_live t"
      by (auto simp: recovery_apply_def recovery_inv_def split: if_splits)
    with s(3) show ?thesis by (simp add: dead_sandbox_stuck)
  qed
  with at_most_one_create[OF fold] try_fold_apply_inv[OF is_coherent_inv[OF assms(1)] fold]
  show ?thesis by (auto simp: recovery_inv_def)
qed

theorem replayed_history_is_sound_witness:
  "length (applied_creates [\<lparr>provider_operation_id = 1, provider_kind = CreateSandbox,
     provider_outcome = Applied\<rparr>, intent 2 DestroySandbox]) \<le> 1"
proof -
  have "is_coherent ProviderRecoveryState_default"
    "replay_provider_operations ProviderRecoveryState_default
       [\<lparr>provider_operation_id = 1, provider_kind = CreateSandbox, provider_outcome = Applied\<rparr>,
        intent 2 DestroySandbox] =
     Ok \<lparr>compacted_operations = 0, sandbox_was_created = True, sandbox_live = True,
         provider_running = False\<rparr>"
    by (simp_all add: ProviderRecoveryState_default_def is_coherent_def replay_provider_operations_def
        recovery_apply_def intent_def provider_is_pending_def)
  from replayed_history_is_sound[OF this] show ?thesis by blast
qed

end
