(* ===== verification/Endpoint.thy ===== *)
theory Endpoint
  imports JournalBase
begin

text \<open>
  Durable execution-endpoint operations, \<open>automata-ci-runner-journal/src/model/endpoint.rs\<close>: the
  phases from acceptance to resolution and the bytes and references each operation is charged for.
\<close>

section \<open>Content references\<close>

datatype EndpointOperationKind = Exec | Signal | Wait | CopyTo | CopyFrom

type_synonym EndpointRequestContentRef = DurableContentRef
type_synonym EndpointResultContentRef = DurableContentRef

definition EndpointRequestContentRef_validate :: "EndpointRequestContentRef \<Rightarrow> unit jresult" where
  "EndpointRequestContentRef_validate self =
     (if content_kind self \<noteq> KEndpointRequest \<or>
         public_plaintext_bytes self \<noteq> Some ENDPOINT_REQUEST_COMMITMENT_BYTES
      then Err InvalidEndpointRequestContent else Ok ())"

definition EndpointRequestContentRef_new :: "DurableContentRef \<Rightarrow> EndpointRequestContentRef jresult" where
  "EndpointRequestContentRef_new content =
     and_then (EndpointRequestContentRef_validate content) (\<lambda>_. Ok content)"

definition EndpointResultContentRef_validate :: "EndpointResultContentRef \<Rightarrow> unit jresult" where
  "EndpointResultContentRef_validate self =
     (if content_kind self \<noteq> KEndpointResult \<or>
         (case endpoint_result_allocation_bytes self of
            None \<Rightarrow> True
          | Some bytes \<Rightarrow> \<not> (MIN_ENDPOINT_RESULT_ALLOCATION_BYTES \<le> bytes \<and>
                              bytes \<le> MAX_ENDPOINT_RESULT_ALLOCATION_BYTES))
      then Err InvalidEndpointResultContent else Ok ())"

definition EndpointResultContentRef_new :: "DurableContentRef \<Rightarrow> EndpointResultContentRef jresult" where
  "EndpointResultContentRef_new content =
     and_then (EndpointResultContentRef_validate content) (\<lambda>_. Ok content)"

section \<open>Operations\<close>

datatype EndpointOperationState =
    Accepted | InvocationCommitted | CancellationRequested | EndpointCancelled | Abandoned
  | Completed EndpointResultContentRef

record EndpointOperation =
  endpoint_operation_id :: OperationId
  endpoint_kind :: EndpointOperationKind
  endpoint_request :: EndpointRequestContentRef
  reserved_result_bytes :: u64
  endpoint_state :: EndpointOperationState

definition EndpointOperation_accepted ::
  "OperationId \<Rightarrow> EndpointOperationKind \<Rightarrow> EndpointRequestContentRef \<Rightarrow> u64 \<Rightarrow> EndpointOperation jresult" where
  "EndpointOperation_accepted operation kind request reserved =
     and_then (EndpointRequestContentRef_validate request) (\<lambda>_.
     if reserved = 0 \<or> reserved > MAX_ENDPOINT_RESULT_CONTENT_BYTES
     then Err InvalidEndpointResultReservation
     else Ok \<lparr>endpoint_operation_id = operation, endpoint_kind = kind, endpoint_request = request,
              reserved_result_bytes = reserved, endpoint_state = Accepted\<rparr>)"

fun state_is_recovery_pending :: "EndpointOperationState \<Rightarrow> bool" where
  "state_is_recovery_pending Accepted = True"
| "state_is_recovery_pending InvocationCommitted = True"
| "state_is_recovery_pending CancellationRequested = True"
| "state_is_recovery_pending _ = False"

definition is_recovery_pending :: "EndpointOperation \<Rightarrow> bool" where
  "is_recovery_pending self = state_is_recovery_pending (endpoint_state self)"

definition endpoint_result :: "EndpointOperation \<Rightarrow> EndpointResultContentRef option" where
  "endpoint_result self = (case endpoint_state self of Completed result \<Rightarrow> Some result | _ \<Rightarrow> None)"

definition accounted_content_bytes :: "EndpointOperation \<Rightarrow> u64 jresult" where
  "accounted_content_bytes self =
     and_then
       (case endpoint_state self of
          Completed result \<Rightarrow>
            ok_or InvalidEndpointResultContent (endpoint_result_allocation_bytes result)
        | EndpointCancelled \<Rightarrow> Ok 0
        | Abandoned \<Rightarrow> Ok 0
        | _ \<Rightarrow> map_err (\<lambda>_. InvalidEndpointResultReservation)
                 (endpoint_result_allocation (reserved_result_bytes self))) (\<lambda>result_bytes.
     ok_or DecodedStateInvalid (checked_add ENDPOINT_REQUEST_COMMITMENT_BYTES result_bytes))"

definition accounted_content_refs :: "EndpointOperation \<Rightarrow> nat" where
  "accounted_content_refs self =
     (case endpoint_state self of EndpointCancelled \<Rightarrow> 1 | Abandoned \<Rightarrow> 1 | _ \<Rightarrow> 2)"

definition matches_acceptance :: "EndpointOperation \<Rightarrow> EndpointOperation \<Rightarrow> bool" where
  "matches_acceptance self candidate \<longleftrightarrow>
     endpoint_operation_id self = endpoint_operation_id candidate \<and>
     endpoint_kind self = endpoint_kind candidate \<and>
     endpoint_request self = endpoint_request candidate \<and>
     reserved_result_bytes self = reserved_result_bytes candidate"

definition commit_invocation :: "EndpointOperation \<Rightarrow> (bool \<times> EndpointOperation) jresult" where
  "commit_invocation self =
     (case endpoint_state self of
        Accepted \<Rightarrow> Ok (True, self\<lparr>endpoint_state := InvocationCommitted\<rparr>)
      | InvocationCommitted \<Rightarrow> Ok (False, self)
      | CancellationRequested \<Rightarrow> Err EndpointOperationCancelled
      | EndpointCancelled \<Rightarrow> Err EndpointOperationCancelled
      | Abandoned \<Rightarrow> Err EndpointOperationResolved
      | Completed _ \<Rightarrow> Err EndpointOperationResolved)"

definition request_cancellation :: "EndpointOperation \<Rightarrow> bool \<times> EndpointOperation" where
  "request_cancellation self =
     (case endpoint_state self of
        Accepted \<Rightarrow> (True, self\<lparr>endpoint_state := EndpointCancelled\<rparr>)
      | InvocationCommitted \<Rightarrow> (True, self\<lparr>endpoint_state := CancellationRequested\<rparr>)
      | _ \<Rightarrow> (False, self))"

definition complete_cancellation :: "EndpointOperation \<Rightarrow> (bool \<times> EndpointOperation) jresult" where
  "complete_cancellation self =
     (case endpoint_state self of
        CancellationRequested \<Rightarrow> Ok (True, self\<lparr>endpoint_state := EndpointCancelled\<rparr>)
      | EndpointCancelled \<Rightarrow> Ok (False, self)
      | _ \<Rightarrow> Err EndpointCancellationNotRequested)"

definition EndpointOperation_abandon :: "EndpointOperation \<Rightarrow> (bool \<times> EndpointOperation) jresult" where
  "EndpointOperation_abandon self =
     (case endpoint_state self of
        InvocationCommitted \<Rightarrow> Ok (True, self\<lparr>endpoint_state := Abandoned\<rparr>)
      | CancellationRequested \<Rightarrow> Ok (True, self\<lparr>endpoint_state := Abandoned\<rparr>)
      | Abandoned \<Rightarrow> Ok (False, self)
      | _ \<Rightarrow> Err EndpointOperationNotAbandonable)"

definition record_result ::
  "EndpointResultContentRef \<Rightarrow> EndpointOperation \<Rightarrow> (bool \<times> EndpointOperation) jresult" where
  "record_result result self =
     and_then (EndpointResultContentRef_validate result) (\<lambda>_.
     and_then (map_err (\<lambda>_. InvalidEndpointResultReservation)
       (endpoint_result_allocation (reserved_result_bytes self))) (\<lambda>reserved_allocation.
     if accounted_bytes result > reserved_allocation then Err EndpointResultExceedsReservation
     else case endpoint_state self of
       InvocationCommitted \<Rightarrow> Ok (True, self\<lparr>endpoint_state := Completed result\<rparr>)
     | Completed existing \<Rightarrow>
         if existing = result then Ok (False, self) else Err EndpointResultReplayConflict
     | CancellationRequested \<Rightarrow> Err EndpointOperationCancelled
     | EndpointCancelled \<Rightarrow> Err EndpointOperationCancelled
     | Abandoned \<Rightarrow> Err EndpointOperationCancelled
     | Accepted \<Rightarrow> Err EndpointInvocationNotCommitted))"

definition EndpointOperation_validate :: "EndpointOperation \<Rightarrow> unit jresult" where
  "EndpointOperation_validate self =
     and_then (EndpointRequestContentRef_validate (endpoint_request self)) (\<lambda>_.
     if reserved_result_bytes self = 0 \<or>
        reserved_result_bytes self > MAX_ENDPOINT_RESULT_CONTENT_BYTES
     then Err DecodedStateInvalid
     else and_then
       (case endpoint_state self of
          Completed result \<Rightarrow>
            and_then (EndpointResultContentRef_validate result) (\<lambda>_.
            and_then (map_err (\<lambda>_. DecodedStateInvalid)
              (endpoint_result_allocation (reserved_result_bytes self))) (\<lambda>reserved_allocation.
            if accounted_bytes result > reserved_allocation then Err DecodedStateInvalid else Ok ()))
        | _ \<Rightarrow> Ok ()) (\<lambda>_.
     and_then (accounted_content_bytes self) (\<lambda>bytes.
     and_then (ok_or DecodedStateInvalid (checked_sub bytes ENDPOINT_REQUEST_COMMITMENT_BYTES)) (\<lambda>_.
     Ok ()))))"

section \<open>The charge of an operation\<close>

text \<open>The allocation class reserved for a valid operation, as a number.\<close>

definition allocation_of :: "u64 \<Rightarrow> nat" where
  "allocation_of bytes = 65536 * ((unat bytes + 65611) div 65536)"

definition charge :: "EndpointOperation \<Rightarrow> nat" where
  "charge op = 32 + (case endpoint_state op of
     Completed result \<Rightarrow> unat (accounted_bytes result)
   | EndpointCancelled \<Rightarrow> 0 | Abandoned \<Rightarrow> 0
   | _ \<Rightarrow> allocation_of (reserved_result_bytes op))"

definition endpoint_operation_inv :: "EndpointOperation \<Rightarrow> bool" where
  "endpoint_operation_inv op \<longleftrightarrow>
     EndpointRequestContentRef_validate (endpoint_request op) = Ok () \<and>
     reserved_result_bytes op \<noteq> 0 \<and> unat (reserved_result_bytes op) \<le> 17825792 \<and>
     (\<forall>result. endpoint_state op = Completed result \<longrightarrow>
        EndpointResultContentRef_validate result = Ok () \<and>
        unat (accounted_bytes result) \<le> allocation_of (reserved_result_bytes op))"

lemma reserved_allocation:
  assumes "unat n \<le> 17825792"
  obtains a where "endpoint_result_allocation n = Ok a" "unat a = allocation_of n"
  using endpoint_result_allocation_value[of n] assms
  by (auto simp: spool_limits word_le_nat_alt allocation_of_def)

lemma allocation_of_bound: "unat n \<le> 17825792 \<Longrightarrow> allocation_of n \<le> 17891328"
  unfolding allocation_of_def using div_le_mono[of "unat n + 65611" "17825792 + 65611" 65536] by simp

lemma result_allocation:
  "EndpointResultContentRef_validate r = Ok () \<Longrightarrow>
   endpoint_result_allocation_bytes r = Some (accounted_bytes r) \<and> unat (accounted_bytes r) \<le> 17891328"
  by (auto simp: EndpointResultContentRef_validate_def endpoint_result_allocation_bytes_def
      accounted_bytes_def endpoint_budget_values word_le_nat_alt split: if_splits option.splits
      DurableContentIdentity.splits)

lemma accounted_charge:
  assumes "endpoint_operation_inv op"
  obtains n where "accounted_content_bytes op = Ok n" "unat n = charge op" "charge op \<le> 17891360"
proof -
  from assms have r: "unat (reserved_result_bytes op) \<le> 17825792" by (simp add: endpoint_operation_inv_def)
  then obtain a where a: "endpoint_result_allocation (reserved_result_bytes op) = Ok a"
    "unat a = allocation_of (reserved_result_bytes op)" by (rule reserved_allocation)
  have add: "unat b \<le> 17891328 \<Longrightarrow> checked_add ENDPOINT_REQUEST_COMMITMENT_BYTES b =
      Some (32 + b) \<and> unat (32 + b) = 32 + unat b" for b
    by (auto simp: checked_add_def ENDPOINT_REQUEST_COMMITMENT_BYTES_def unat_word_ariths)
  from allocation_of_bound[OF r] a(2) have "unat a \<le> 17891328" by simp
  note bounds = add[OF this] add[of 0]
  show ?thesis
  proof (cases "endpoint_state op")
    case (Completed result)
    with assms have "EndpointResultContentRef_validate result = Ok ()"
      by (simp add: endpoint_operation_inv_def)
    from result_allocation[OF this] add[of "accounted_bytes result"] Completed that
    show ?thesis by (simp add: accounted_content_bytes_def charge_def)
  qed (use that a bounds \<open>unat a \<le> 17891328\<close> in \<open>simp_all add: accounted_content_bytes_def charge_def\<close>)
qed

lemma endpoint_validate_iff: "EndpointOperation_validate op = Ok u \<longleftrightarrow> endpoint_operation_inv op"
proof
  assume inv: "endpoint_operation_inv op"
  then obtain n where n: "accounted_content_bytes op = Ok n" "unat n = charge op"
    using accounted_charge by metis
  then have "checked_sub n ENDPOINT_REQUEST_COMMITMENT_BYTES = Some (n - 32)"
    by (simp add: checked_sub_def ENDPOINT_REQUEST_COMMITMENT_BYTES_def charge_def)
  moreover obtain a where "endpoint_result_allocation (reserved_result_bytes op) = Ok a"
    "unat a = allocation_of (reserved_result_bytes op)"
    using inv reserved_allocation unfolding endpoint_operation_inv_def by metis
  ultimately show "EndpointOperation_validate op = Ok u"
    using inv n(1)
    by (auto simp: EndpointOperation_validate_def endpoint_operation_inv_def result_simps
        MAX_ENDPOINT_RESULT_CONTENT_BYTES_def word_less_nat_alt not_less
        split: EndpointOperationState.splits)
next
  assume valid: "EndpointOperation_validate op = Ok u"
  then have r: "unat (reserved_result_bytes op) \<le> 17825792"
    by (auto simp: EndpointOperation_validate_def result_simps MAX_ENDPOINT_RESULT_CONTENT_BYTES_def
        word_less_nat_alt not_less)
  then obtain a where a: "endpoint_result_allocation (reserved_result_bytes op) = Ok a"
    "unat a = allocation_of (reserved_result_bytes op)" by (rule reserved_allocation)
  from valid r a show "endpoint_operation_inv op"
    by (auto simp: EndpointOperation_validate_def endpoint_operation_inv_def result_simps
        word_less_nat_alt not_less split: EndpointOperationState.splits)
qed

section \<open>Phases\<close>

inductive endpoint_step :: "EndpointOperation \<Rightarrow> EndpointOperation \<Rightarrow> bool" where
  "commit_invocation op = Ok (b, op') \<Longrightarrow> endpoint_step op op'"
| "request_cancellation op = (b, op') \<Longrightarrow> endpoint_step op op'"
| "complete_cancellation op = Ok (b, op') \<Longrightarrow> endpoint_step op op'"
| "EndpointOperation_abandon op = Ok (b, op') \<Longrightarrow> endpoint_step op op'"
| "record_result result op = Ok (b, op') \<Longrightarrow> endpoint_step op op'"

inductive endpoint_init :: "EndpointOperation \<Rightarrow> bool" where
  "EndpointOperation_accepted operation kind request reserved = Ok op \<Longrightarrow> endpoint_init op"

lemmas endpoint_operation_defs =
  commit_invocation_def request_cancellation_def complete_cancellation_def
  EndpointOperation_abandon_def record_result_def

text \<open>The edges between phases, with the condition under which a result is taken.\<close>

lemma endpoint_step_cases:
  assumes "endpoint_step op op'"
  shows "op' = op \<or>
    (\<exists>st. op' = op\<lparr>endpoint_state := st\<rparr> \<and>
      (case endpoint_state op of
         Accepted \<Rightarrow> st = InvocationCommitted \<or> st = EndpointCancelled
       | InvocationCommitted \<Rightarrow> st = CancellationRequested \<or> st = Abandoned \<or>
           (\<exists>result a. st = Completed result \<and> EndpointResultContentRef_validate result = Ok () \<and>
              endpoint_result_allocation (reserved_result_bytes op) = Ok a \<and> accounted_bytes result \<le> a)
       | CancellationRequested \<Rightarrow> st = EndpointCancelled \<or> st = Abandoned
       | _ \<Rightarrow> False))"
  using assms
  by cases (auto simp: endpoint_operation_defs result_simps not_less
      split: EndpointOperationState.splits if_splits)

lemma endpoint_step_inv:
  assumes "endpoint_operation_inv op" "endpoint_step op op'"
  shows "endpoint_operation_inv op' \<and> charge op' \<le> charge op \<and>
    accounted_content_refs op' \<le> accounted_content_refs op"
proof -
  from assms(1) obtain a where "endpoint_result_allocation (reserved_result_bytes op) = Ok a"
    "unat a = allocation_of (reserved_result_bytes op)"
    using reserved_allocation unfolding endpoint_operation_inv_def by metis
  with assms(1) endpoint_step_cases[OF assms(2)] show ?thesis
    by (cases "endpoint_state op")
       (auto simp: endpoint_operation_inv_def charge_def accounted_content_refs_def word_le_nat_alt)
qed

interpretation endpoint: inductive_invariant endpoint_init endpoint_step endpoint_operation_inv
proof
  show "endpoint_operation_inv op" if "endpoint_init op" for op
    using that
    by cases (auto simp: EndpointOperation_accepted_def endpoint_operation_inv_def result_simps
        MAX_ENDPOINT_RESULT_CONTENT_BYTES_def word_less_nat_alt not_less)
qed (use endpoint_step_inv in blast)

lemma charge_mono_steps:
  assumes "endpoint_step\<^sup>*\<^sup>* op op'" "endpoint_operation_inv op"
  shows "charge op' \<le> charge op"
  using assms(1)
proof (induction rule: rtranclp_induct)
  case (step op1 op2)
  from endpoint_step_inv[OF endpoint.steps_inv[OF step(1) assms(2)] step(2)] step(3)
  show ?case by simp
qed simp

lemma resolved_stays:
  "endpoint_step\<^sup>*\<^sup>* op op' \<Longrightarrow> \<not> is_recovery_pending op \<Longrightarrow> op' = op"
proof (induction rule: rtranclp_induct)
  case (step op1 op2)
  then show ?case
    using endpoint_step_cases[OF step(2)]
    by (cases "endpoint_state op") (auto simp: is_recovery_pending_def)
qed simp

lemma completed_only_after_commit:
  assumes "endpoint_step\<^sup>*\<^sup>* op op'" "endpoint_state op \<noteq> InvocationCommitted"
    and "endpoint_state op \<noteq> Accepted" "\<forall>r. endpoint_state op \<noteq> Completed r"
  shows "\<forall>r. endpoint_state op' \<noteq> Completed r \<and> endpoint_state op' \<noteq> InvocationCommitted \<and>
    endpoint_state op' \<noteq> Accepted"
  using assms
proof (induction rule: rtranclp_induct)
  case (step op1 op2)
  then show ?case
    using endpoint_step_cases[OF step(2)] by (cases "endpoint_state op1") auto
qed simp

section \<open>Properties\<close>

text \<open>
  C34. The content charged to an operation when it is accepted covers its whole life: every operation
  that can follow from an accepted one validates, its charge is defined, and it never exceeds the charge taken
  at acceptance, which is bounded by the largest result class.
\<close>
theorem endpoint_charge_never_grows:
  assumes "endpoint_init op" "endpoint_step\<^sup>*\<^sup>* op op'"
  shows "EndpointOperation_validate op' = Ok () \<and>
    (\<exists>n n'. accounted_content_bytes op = Ok n \<and> accounted_content_bytes op' = Ok n' \<and>
       n' \<le> n \<and> unat n \<le> 32 + unat MAX_ENDPOINT_RESULT_ALLOCATION_BYTES)"
proof -
  have inv: "endpoint_operation_inv op" using endpoint.init_inv[OF assms(1)] .
  have inv': "endpoint_operation_inv op'" using endpoint.steps_inv[OF assms(2) inv] .
  obtain n where n: "accounted_content_bytes op = Ok n" "unat n = charge op" "charge op \<le> 17891360"
    using accounted_charge[OF inv] .
  obtain n' where n': "accounted_content_bytes op' = Ok n'" "unat n' = charge op'"
    using accounted_charge[OF inv'] .
  from n n' charge_mono_steps[OF assms(2) inv] inv' show ?thesis
    by (auto simp: endpoint_validate_iff word_le_nat_alt endpoint_budget_values)
qed

text \<open>
  C35. The outcome of an endpoint operation is final, and no result is ever taken for an operation whose
  cancellation was requested or that was cancelled or abandoned.
\<close>
theorem endpoint_outcome_is_final:
  assumes "endpoint_step\<^sup>*\<^sup>* op op'"
  shows "(\<not> is_recovery_pending op \<longrightarrow> op' = op) \<and>
    (endpoint_state op \<in> {CancellationRequested, EndpointCancelled, Abandoned} \<longrightarrow>
       endpoint_result op' = None)"
proof -
  have "endpoint_result op' = None"
    if "endpoint_state op \<in> {CancellationRequested, EndpointCancelled, Abandoned}"
    using completed_only_after_commit[OF assms] that
    by (auto simp: endpoint_result_def split: EndpointOperationState.splits)
  with resolved_stays[OF assms] show ?thesis by blast
qed

definition sample_request :: DurableContentRef where
  "sample_request = \<lparr>content_kind = KEndpointRequest, identity = Public 32 [], cache_key = [],
     protection_id = []\<rparr>"

definition sample_endpoint :: "EndpointOperationState \<Rightarrow> EndpointOperation" where
  "sample_endpoint st = \<lparr>endpoint_operation_id = 1, endpoint_kind = Exec,
     endpoint_request = sample_request, reserved_result_bytes = 100, endpoint_state = st\<rparr>"

lemma sample_endpoint_accepted: "endpoint_init (sample_endpoint Accepted)"
  by (rule endpoint_init.intros[of 1 Exec sample_request 100])
     (simp add: EndpointOperation_accepted_def sample_request_def sample_endpoint_def
       EndpointRequestContentRef_validate_def public_plaintext_bytes_def
       ENDPOINT_REQUEST_COMMITMENT_BYTES_def MAX_ENDPOINT_RESULT_CONTENT_BYTES_def)

lemma sample_endpoint_cancelled:
  "endpoint_step\<^sup>*\<^sup>* (sample_endpoint Accepted) (sample_endpoint EndpointCancelled)"
  by (rule r_into_rtranclp, rule endpoint_step.intros(2)[of _ True])
     (simp add: request_cancellation_def sample_endpoint_def)

theorem endpoint_charge_never_grows_witness:
  "EndpointOperation_validate (sample_endpoint EndpointCancelled) = Ok ()"
  using endpoint_charge_never_grows[OF sample_endpoint_accepted sample_endpoint_cancelled] by blast

theorem endpoint_outcome_is_final_witness:
  "endpoint_result (sample_endpoint EndpointCancelled) = None"
  using endpoint_outcome_is_final[of "sample_endpoint EndpointCancelled" "sample_endpoint EndpointCancelled"]
  by (simp add: sample_endpoint_def)

end
