(* ===== verification/ManagedSecret.thy ===== *)
theory ManagedSecret
  imports Attempt
begin

text \<open>
  Value-free managed-secret bindings of one lease, \<open>automata-ci-protocol/src/message/managed_secret.rs\<close>.
  The hash function and the UUID parser and printer come from libraries, so they are parameters, kept
  together in one record.
\<close>

section \<open>Library functions\<close>

record externals =
  sha256 :: "u8 list \<Rightarrow> Sha256Digest"
  parse_uuid :: "string \<Rightarrow> uuid option"
  hyphenated :: "uuid \<Rightarrow> string"

section \<open>Entries\<close>

definition MANAGED_SECRET_BINDING_OVERLAY_SCHEMA_VERSION :: u16 where
  "MANAGED_SECRET_BINDING_OVERLAY_SCHEMA_VERSION = 1"

definition MAX_MANAGED_SECRET_BINDINGS :: nat where
  "MAX_MANAGED_SECRET_BINDINGS = 256"

datatype ManagedSecretBindingOverlayError =
    OverlayUnsupportedSchema | InvalidCanonicalName | InvalidGrantId | MissingVersionId
  | InvalidVersionId | TooManyBindings | NoncanonicalOrder | DuplicateGrant | DigestMismatch
  | OverlayLeaseMismatch

type_synonym 'a oresult = "('a, ManagedSecretBindingOverlayError) result"

record SecretBinding =
  binding_id :: string
  version_id :: "string option"

record ManagedSecretBindingOverlayEntry =
  canonical_name :: string
  entry_binding :: SecretBinding

definition is_ascii_uppercase :: "char \<Rightarrow> bool" where
  "is_ascii_uppercase c \<longleftrightarrow> 65 \<le> (of_char c :: nat) \<and> (of_char c :: nat) \<le> 90"

definition is_ascii_digit :: "char \<Rightarrow> bool" where
  "is_ascii_digit c \<longleftrightarrow> 48 \<le> (of_char c :: nat) \<and> (of_char c :: nat) \<le> 57"

definition str_starts_with :: "string \<Rightarrow> string \<Rightarrow> bool" where
  "str_starts_with prefix value \<longleftrightarrow> take (length prefix) value = prefix"

definition valid_canonical_name :: "string \<Rightarrow> bool" where
  "valid_canonical_name value \<longleftrightarrow>
     (case value of
        [] \<Rightarrow> False
      | c # rest \<Rightarrow> (c = CHR ''_'' \<or> is_ascii_uppercase c) \<and> length value \<le> 255 \<and>
          list_all (\<lambda>c. c = CHR ''_'' \<or> is_ascii_uppercase c \<or> is_ascii_digit c) rest) \<and>
     \<not> list_ex (\<lambda>prefix. str_starts_with prefix value) [''GITHUB_'', ''ACTIONS_'', ''RUNNER_'', ''AUTOMATA_'']"

definition valid_canonical_uuid :: "externals \<Rightarrow> string \<Rightarrow> bool" where
  "valid_canonical_uuid ext value \<longleftrightarrow>
     (case parse_uuid ext value of
        None \<Rightarrow> False
      | Some parsed \<Rightarrow> parsed \<noteq> 0 \<and> hyphenated ext parsed = value)"

definition OverlayEntry_new ::
  "externals \<Rightarrow> string \<Rightarrow> SecretBinding \<Rightarrow> ManagedSecretBindingOverlayEntry oresult" where
  "OverlayEntry_new ext name binding =
     (if \<not> valid_canonical_name name then Err InvalidCanonicalName
      else if \<not> valid_canonical_uuid ext (binding_id binding) then Err InvalidGrantId
      else and_then (ok_or MissingVersionId (version_id binding)) (\<lambda>version.
           if \<not> valid_canonical_uuid ext version then Err InvalidVersionId
           else Ok \<lparr>canonical_name = name, entry_binding = binding\<rparr>))"

section \<open>Overlays\<close>

record ManagedSecretBindingOverlay =
  overlay_schema_version :: u16
  overlay_attempt_id :: AttemptId
  overlay_lease_id :: LeaseId
  overlay_fencing_token :: FencingToken
  overlay_bindings :: "ManagedSecretBindingOverlayEntry list"
  overlay_digest :: Sha256Digest

fun validate_bindings_loop ::
  "externals \<Rightarrow> string option \<Rightarrow> string list \<Rightarrow> ManagedSecretBindingOverlayEntry list \<Rightarrow> unit oresult" where
  "validate_bindings_loop ext previous grants [] = Ok ()"
| "validate_bindings_loop ext previous grants (entry # rest) =
     and_then (OverlayEntry_new ext (canonical_name entry) (entry_binding entry)) (\<lambda>_.
     if (case previous of None \<Rightarrow> False | Some p \<Rightarrow> p \<ge> canonical_name entry)
     then Err NoncanonicalOrder
     else if binding_id (entry_binding entry) \<in> set grants then Err DuplicateGrant
     else validate_bindings_loop ext (Some (canonical_name entry))
            (binding_id (entry_binding entry) # grants) rest)"

definition validate_bindings :: "externals \<Rightarrow> ManagedSecretBindingOverlay \<Rightarrow> unit oresult" where
  "validate_bindings ext self =
     (if length (overlay_bindings self) > MAX_MANAGED_SECRET_BINDINGS then Err TooManyBindings
      else validate_bindings_loop ext None [] (overlay_bindings self))"

text \<open>\<open>to_be_bytes\<close> of an unsigned integer of \<open>k\<close> bytes.\<close>

definition be_bytes :: "nat \<Rightarrow> nat \<Rightarrow> u8 list" where
  "be_bytes k n = map (\<lambda>i. of_nat (n div 256 ^ (k - 1 - i))) [0 ..< k]"

definition text_bytes :: "string \<Rightarrow> u8 list" where
  "text_bytes s = map (\<lambda>c. of_char c) s"

definition digest_text :: "string \<Rightarrow> u8 list" where
  "digest_text value = be_bytes 4 (min (length value) 4294967295) @ text_bytes value"

definition OVERLAY_DIGEST_DOMAIN :: "u8 list" where
  "OVERLAY_DIGEST_DOMAIN = text_bytes ''automata.managed-secret-binding-overlay.v1'' @ [0]"

text \<open>
  The bytes fed to the hasher.  An entry without a version makes the source panic; validation refuses
  such an entry before the digest is computed, and the text is empty here.
\<close>

definition entry_bytes :: "ManagedSecretBindingOverlayEntry \<Rightarrow> u8 list" where
  "entry_bytes entry =
     digest_text (canonical_name entry) @ digest_text (binding_id (entry_binding entry)) @
     digest_text (case version_id (entry_binding entry) of Some v \<Rightarrow> v | None \<Rightarrow> [])"

definition overlay_preimage :: "ManagedSecretBindingOverlay \<Rightarrow> u8 list" where
  "overlay_preimage self =
     OVERLAY_DIGEST_DOMAIN @ be_bytes 2 (unat (overlay_schema_version self)) @
     be_bytes 16 (unat (overlay_attempt_id self)) @ be_bytes 16 (unat (overlay_lease_id self)) @
     be_bytes 8 (unat (overlay_fencing_token self)) @
     be_bytes 4 (min (length (overlay_bindings self)) 4294967295) @
     concat (map entry_bytes (overlay_bindings self))"

definition compute_digest :: "externals \<Rightarrow> ManagedSecretBindingOverlay \<Rightarrow> Sha256Digest" where
  "compute_digest ext self = sha256 ext (overlay_preimage self)"

text \<open>
  The constructor sorts by name; entries with equal names are refused by the check that follows, so
  the order the sort gives them does not matter for an accepted overlay.
\<close>

definition Overlay_new ::
  "externals \<Rightarrow> Lease \<Rightarrow> (string \<times> SecretBinding) list \<Rightarrow> ManagedSecretBindingOverlay oresult" where
  "Overlay_new ext lease bindings =
     and_then (try_fold (\<lambda>(name, binding) entries.
                 and_then (OverlayEntry_new ext name binding) (\<lambda>entry. Ok (entries @ [entry])))
               bindings []) (\<lambda>entries.
     let overlay = \<lparr>overlay_schema_version = MANAGED_SECRET_BINDING_OVERLAY_SCHEMA_VERSION,
           overlay_attempt_id = lease_attempt_id lease, overlay_lease_id = lease_id lease,
           overlay_fencing_token = lease_fencing_token lease,
           overlay_bindings = sort_key canonical_name entries, overlay_digest = replicate 32 0\<rparr> in
     and_then (validate_bindings ext overlay) (\<lambda>_.
     Ok (overlay\<lparr>overlay_digest := compute_digest ext overlay\<rparr>)))"

definition Overlay_empty :: "externals \<Rightarrow> Lease \<Rightarrow> ManagedSecretBindingOverlay" where
  "Overlay_empty ext lease =
     (let overlay = \<lparr>overlay_schema_version = MANAGED_SECRET_BINDING_OVERLAY_SCHEMA_VERSION,
           overlay_attempt_id = lease_attempt_id lease, overlay_lease_id = lease_id lease,
           overlay_fencing_token = lease_fencing_token lease,
           overlay_bindings = [], overlay_digest = replicate 32 0\<rparr> in
      overlay\<lparr>overlay_digest := compute_digest ext overlay\<rparr>)"

definition validate_canonical :: "externals \<Rightarrow> ManagedSecretBindingOverlay \<Rightarrow> unit oresult" where
  "validate_canonical ext self =
     (if overlay_schema_version self \<noteq> MANAGED_SECRET_BINDING_OVERLAY_SCHEMA_VERSION
      then Err OverlayUnsupportedSchema
      else and_then (validate_bindings ext self) (\<lambda>_.
           if compute_digest ext self \<noteq> overlay_digest self then Err DigestMismatch else Ok ()))"

definition validate_for :: "externals \<Rightarrow> Lease \<Rightarrow> ManagedSecretBindingOverlay \<Rightarrow> unit oresult" where
  "validate_for ext lease self =
     and_then (validate_canonical ext self) (\<lambda>_.
     if overlay_attempt_id self \<noteq> lease_attempt_id lease \<or> overlay_lease_id self \<noteq> lease_id lease \<or>
        overlay_fencing_token self \<noteq> lease_fencing_token lease
     then Err OverlayLeaseMismatch else Ok ())"

section \<open>What the checks establish\<close>

definition entry_ok :: "externals \<Rightarrow> ManagedSecretBindingOverlayEntry \<Rightarrow> bool" where
  "entry_ok ext e \<longleftrightarrow> valid_canonical_name (canonical_name e) \<and>
     valid_canonical_uuid ext (binding_id (entry_binding e)) \<and>
     (\<exists>v. version_id (entry_binding e) = Some v \<and> valid_canonical_uuid ext v)"

lemma OverlayEntry_new_eq_Ok:
  "OverlayEntry_new ext n b = Ok e \<longleftrightarrow>
     e = \<lparr>canonical_name = n, entry_binding = b\<rparr> \<and> entry_ok ext e"
  by (auto simp: OverlayEntry_new_def entry_ok_def result_simps)

lemma validate_bindings_loop_eq_Ok:
  "validate_bindings_loop ext p gs es = Ok () \<longleftrightarrow>
     (\<forall>e \<in> set es. entry_ok ext e) \<and> sorted_wrt (<) (map canonical_name es) \<and>
     (\<forall>q. p = Some q \<longrightarrow> (\<forall>e \<in> set es. q < canonical_name e)) \<and>
     distinct (map (binding_id \<circ> entry_binding) es) \<and>
     (binding_id \<circ> entry_binding) ` set es \<inter> set gs = {}"
proof (induction es arbitrary: p gs)
  case (Cons e es)
  have ok: "entry_ok ext \<lparr>canonical_name = canonical_name e, entry_binding = entry_binding e\<rparr> = entry_ok ext e"
    by (simp add: entry_ok_def)
  show ?case
    by (cases p) (auto simp: result_simps OverlayEntry_new_eq_Ok ok Cons.IH not_le dest: less_trans)
qed simp

lemma validate_bindings_eq_Ok:
  "validate_bindings ext o1 = Ok () \<longleftrightarrow>
     length (overlay_bindings o1) \<le> 256 \<and> (\<forall>e \<in> set (overlay_bindings o1). entry_ok ext e) \<and>
     sorted_wrt (<) (map canonical_name (overlay_bindings o1)) \<and>
     distinct (map (binding_id \<circ> entry_binding) (overlay_bindings o1))"
  by (auto simp: validate_bindings_def MAX_MANAGED_SECRET_BINDINGS_def validate_bindings_loop_eq_Ok)

lemma entries_eq_Ok:
  "try_fold (\<lambda>(name, binding) entries.
     and_then (OverlayEntry_new ext name binding) (\<lambda>entry. Ok (entries @ [entry]))) bs acc = Ok es \<longleftrightarrow>
   es = acc @ map (\<lambda>(n, b). \<lparr>canonical_name = n, entry_binding = b\<rparr>) bs \<and>
   (\<forall>(n, b) \<in> set bs. entry_ok ext \<lparr>canonical_name = n, entry_binding = b\<rparr>)"
  by (induction bs arbitrary: acc) (auto simp: result_simps OverlayEntry_new_eq_Ok)

lemma compute_digest_ignores_digest [simp]:
  "compute_digest ext (o1\<lparr>overlay_digest := d\<rparr>) = compute_digest ext o1"
  by (simp add: compute_digest_def overlay_preimage_def)

lemma validate_bindings_ignores_digest [simp]:
  "validate_bindings ext (o1\<lparr>overlay_digest := d\<rparr>) = validate_bindings ext o1"
  by (simp add: validate_bindings_def)

lemma canonical_with_digest:
  assumes "overlay_schema_version o1 = MANAGED_SECRET_BINDING_OVERLAY_SCHEMA_VERSION"
    and "validate_bindings ext o1 = Ok ()"
  shows "validate_canonical ext (o1\<lparr>overlay_digest := compute_digest ext o1\<rparr>) = Ok ()"
  using assms by (simp add: validate_canonical_def)

section \<open>The digest determines the overlay\<close>

lemma length_be_bytes [simp]: "length (be_bytes k n) = k"
  by (simp add: be_bytes_def)

lemma be_bytes_Suc: "be_bytes (Suc k) n = of_nat (n div 256 ^ k) # be_bytes k n"
proof -
  have "map (\<lambda>i. of_nat (n div 256 ^ (k - i)) :: u8) [0 ..< Suc k] =
      of_nat (n div 256 ^ k) # map (\<lambda>i. of_nat (n div 256 ^ (k - Suc i))) [0 ..< k]"
    by (subst upt_conv_Cons) (auto simp: map_Suc_upt[symmetric] simp del: upt_Suc)
  then show ?thesis by (simp add: be_bytes_def del: upt_Suc)
qed

lemma be_bytes_mod: "be_bytes k (n mod 256 ^ k) = be_bytes k n"
proof (induction k arbitrary: n)
  case (Suc k)
  have head: "(of_nat ((n mod 256 ^ Suc k) div 256 ^ k) :: u8) = of_nat (n div 256 ^ k)"
  proof -
    have "(n mod 256 ^ Suc k) div 256 ^ k = (n div 256 ^ k) mod 256"
      by (simp add: power_Suc2 mod_mult2_eq del: power_Suc)
    then show ?thesis by (simp add: word_of_nat_eq_iff take_bit_eq_mod)
  qed
  have "(n mod 256 ^ Suc k) mod 256 ^ k = n mod 256 ^ k"
    by (metis mod_mod_cancel dvd_triv_right power_Suc)
  then have "be_bytes k (n mod 256 ^ Suc k) = be_bytes k n" using Suc.IH by metis
  with head show ?case by (simp add: be_bytes_Suc)
qed (simp add: be_bytes_def)

lemma be_bytes_inj: "m < 256 ^ k \<Longrightarrow> n < 256 ^ k \<Longrightarrow> be_bytes k m = be_bytes k n \<Longrightarrow> m = n"
proof (induction k arbitrary: m n)
  case (Suc k)
  have lt: "m div 256 ^ k < 256" "n div 256 ^ k < 256"
    using Suc.prems by (auto simp: less_mult_imp_div_less mult.commute)
  from Suc.prems(3) have "(of_nat (m div 256 ^ k) :: u8) = of_nat (n div 256 ^ k)"
    and rest: "be_bytes k m = be_bytes k n" by (auto simp: be_bytes_Suc)
  with lt have high: "m div 256 ^ k = n div 256 ^ k"
    by (simp add: word_of_nat_eq_iff take_bit_eq_mod)
  from rest have "be_bytes k (m mod 256 ^ k) = be_bytes k (n mod 256 ^ k)" by (simp add: be_bytes_mod)
  then have "m mod 256 ^ k = n mod 256 ^ k" by (intro Suc.IH) auto
  with high show ?case by (metis div_mult_mod_eq)
qed simp

lemma text_bytes_inj: "text_bytes a = text_bytes b \<longleftrightarrow> a = b"
proof -
  have "inj (of_char :: char \<Rightarrow> u8)"
  proof (rule injI)
    fix c d :: char
    assume eq: "(of_char c :: u8) = of_char d"
    have "(of_char c :: nat) < 256" "(of_char d :: nat) < 256" by simp_all
    moreover from eq have "(of_nat (of_char c) :: u8) = of_nat (of_char d)"
      by (simp only: of_nat_of_char)
    ultimately have "(of_char c :: nat) = of_char d" by (simp add: word_of_nat_eq_iff take_bit_eq_mod)
    then show "c = d" by simp
  qed
  then show ?thesis unfolding text_bytes_def by (simp add: inj_map_eq_map)
qed

lemma append_same_length:
  "length a = length b \<Longrightarrow> a @ x = b @ y \<longleftrightarrow> a = b \<and> x = y"
  by simp

lemma digest_text_inj:
  assumes "length a < 4294967296" "length b < 4294967296" "digest_text a @ x = digest_text b @ y"
  shows "a = b \<and> x = y"
proof -
  from assms(3) have "be_bytes 4 (min (length a) 4294967295) = be_bytes 4 (min (length b) 4294967295)"
    and rest: "text_bytes a @ x = text_bytes b @ y"
    by (auto simp: digest_text_def)
  then have "length a = length b" using assms(1,2) be_bytes_inj[of "length a" 4 "length b"] by (simp add: min_def split: if_splits)
  then have "length (text_bytes a) = length (text_bytes b)" by (simp add: text_bytes_def)
  with rest show ?thesis by (auto simp: text_bytes_inj)
qed

definition small_entry :: "ManagedSecretBindingOverlayEntry \<Rightarrow> bool" where
  "small_entry e \<longleftrightarrow> length (canonical_name e) < 4294967296 \<and>
     length (binding_id (entry_binding e)) < 4294967296 \<and>
     (\<exists>v. version_id (entry_binding e) = Some v \<and> length v < 4294967296)"

lemma entry_bytes_inj:
  assumes "small_entry a" "small_entry b" "entry_bytes a @ x = entry_bytes b @ y"
  shows "a = b \<and> x = y"
proof -
  from assms(1,2) obtain v w where v: "version_id (entry_binding a) = Some v" "length v < 4294967296"
    and w: "version_id (entry_binding b) = Some w" "length w < 4294967296"
    by (auto simp: small_entry_def)
  from assms(3) v w have eq: "digest_text (canonical_name a) @ digest_text (binding_id (entry_binding a)) @
      digest_text v @ x = digest_text (canonical_name b) @ digest_text (binding_id (entry_binding b)) @
      digest_text w @ y" by (simp add: entry_bytes_def)
  have n: "canonical_name a = canonical_name b" and eq2: "digest_text (binding_id (entry_binding a)) @
      digest_text v @ x = digest_text (binding_id (entry_binding b)) @ digest_text w @ y"
    using digest_text_inj[OF _ _ eq] assms(1,2) by (auto simp: small_entry_def)
  have i: "binding_id (entry_binding a) = binding_id (entry_binding b)" and
    eq3: "digest_text v @ x = digest_text w @ y"
    using digest_text_inj[OF _ _ eq2] assms(1,2) by (auto simp: small_entry_def)
  from digest_text_inj[OF v(2) w(2) eq3] n i v w show ?thesis by simp
qed

lemma entries_bytes_inj:
  "length as = length bs \<Longrightarrow> \<forall>e \<in> set as. small_entry e \<Longrightarrow> \<forall>e \<in> set bs. small_entry e \<Longrightarrow>
   concat (map entry_bytes as) = concat (map entry_bytes bs) \<Longrightarrow> as = bs"
proof (induction as bs rule: list_induct2)
  case (Cons a as b bs)
  then have "entry_bytes a @ concat (map entry_bytes as) = entry_bytes b @ concat (map entry_bytes bs)"
    by simp
  from entry_bytes_inj[OF _ _ this] Cons show ?case by auto
qed simp

lemma preimage_inj:
  assumes "overlay_preimage o1 = overlay_preimage o2"
    and "length (overlay_bindings o1) \<le> 256" "length (overlay_bindings o2) \<le> 256"
    and "\<forall>e \<in> set (overlay_bindings o1). small_entry e" "\<forall>e \<in> set (overlay_bindings o2). small_entry e"
  shows "o1\<lparr>overlay_digest := d\<rparr> = o2\<lparr>overlay_digest := d\<rparr>"
proof -
  have "unat (w :: u16) < 2 ^ LENGTH(16)" "unat (x :: uuid) < 2 ^ LENGTH(128)"
    "unat (y :: u64) < 2 ^ LENGTH(64)" for w x y by (rule unsigned_less)+
  then have bounds: "unat (w :: u16) < 256 ^ 2" "unat (x :: uuid) < 256 ^ 16"
    "unat (y :: u64) < 256 ^ 8" for w x y by simp_all
  have parts: "be_bytes 2 (unat (overlay_schema_version o1)) = be_bytes 2 (unat (overlay_schema_version o2))"
    "be_bytes 16 (unat (overlay_attempt_id o1)) = be_bytes 16 (unat (overlay_attempt_id o2))"
    "be_bytes 16 (unat (overlay_lease_id o1)) = be_bytes 16 (unat (overlay_lease_id o2))"
    "be_bytes 8 (unat (overlay_fencing_token o1)) = be_bytes 8 (unat (overlay_fencing_token o2))"
    "be_bytes 4 (length (overlay_bindings o1)) = be_bytes 4 (length (overlay_bindings o2))"
    "concat (map entry_bytes (overlay_bindings o1)) = concat (map entry_bytes (overlay_bindings o2))"
    using assms(1-3) by (simp_all add: overlay_preimage_def)
  have "overlay_bindings o1 = overlay_bindings o2"
    using entries_bytes_inj[OF be_bytes_inj[OF _ _ parts(5)] assms(4,5) parts(6)] assms(2,3) by simp
  moreover have "overlay_schema_version o1 = overlay_schema_version o2"
    "overlay_attempt_id o1 = overlay_attempt_id o2" "overlay_lease_id o1 = overlay_lease_id o2"
    "overlay_fencing_token o1 = overlay_fencing_token o2"
    using be_bytes_inj[OF bounds(1) bounds(1) parts(1)] be_bytes_inj[OF bounds(2) bounds(2) parts(2)]
      be_bytes_inj[OF bounds(2) bounds(2) parts(3)] be_bytes_inj[OF bounds(3) bounds(3) parts(4)]
    by (auto intro: unat_eqI)
  ultimately show ?thesis by simp
qed

section \<open>Properties\<close>

text \<open>
  An overlay that can be built is accepted for its own lease, and only for a lease with the same
  attempt, identity and fencing token.  Its names are strictly ascending, whatever order the bindings
  were given in.
\<close>
theorem built_overlay_is_bound_to_its_lease:
  assumes "Overlay_new ext lease bindings = Ok o1"
  shows "validate_for ext lease o1 = Ok () \<and>
    sorted_wrt (<) (map canonical_name (overlay_bindings o1)) \<and>
    set (map (\<lambda>e. (canonical_name e, entry_binding e)) (overlay_bindings o1)) = set bindings \<and>
    (validate_for ext other o1 = Ok () \<longleftrightarrow>
       lease_attempt_id other = lease_attempt_id lease \<and> lease_id other = lease_id lease \<and>
       lease_fencing_token other = lease_fencing_token lease)"
proof -
  let ?es = "map (\<lambda>(n, b). \<lparr>canonical_name = n, entry_binding = b\<rparr>) bindings"
  let ?o = "\<lparr>overlay_schema_version = MANAGED_SECRET_BINDING_OVERLAY_SCHEMA_VERSION,
     overlay_attempt_id = lease_attempt_id lease, overlay_lease_id = lease_id lease,
     overlay_fencing_token = lease_fencing_token lease,
     overlay_bindings = sort_key canonical_name ?es, overlay_digest = replicate 32 0\<rparr>"
  from assms have valid: "validate_bindings ext ?o = Ok ()"
    and o1: "o1 = ?o\<lparr>overlay_digest := compute_digest ext ?o\<rparr>"
    by (auto simp: Overlay_new_def Let_def result_simps entries_eq_Ok)
  have canonical: "validate_canonical ext o1 = Ok ()"
    unfolding o1 by (rule canonical_with_digest[OF _ valid]) simp
  have "sorted_wrt (<) (map canonical_name (overlay_bindings o1))"
    using valid by (simp add: validate_bindings_eq_Ok o1)
  moreover have "set (map (\<lambda>e. (canonical_name e, entry_binding e)) (overlay_bindings o1)) = set bindings"
    by (force simp: o1)
  moreover have "overlay_attempt_id o1 = lease_attempt_id lease \<and> overlay_lease_id o1 = lease_id lease \<and>
      overlay_fencing_token o1 = lease_fencing_token lease"
    by (simp add: o1)
  ultimately show ?thesis using canonical by (auto simp: validate_for_def result_simps)
qed

text \<open>
  C36. The digest commits to the whole overlay: two overlays that pass the canonical check and carry the
  same digest agree in attempt, lease, fence, order, names, grants and versions.  The
  hypotheses are that the hash does not collide on these two inputs and that a printed UUID has 36 characters.
\<close>
theorem overlay_digest_commits:
  assumes "validate_canonical ext o1 = Ok ()" "validate_canonical ext o2 = Ok ()"
    and "sha256 ext (overlay_preimage o1) = sha256 ext (overlay_preimage o2) \<Longrightarrow>
      overlay_preimage o1 = overlay_preimage o2"
    and "\<And>u. length (hyphenated ext u) = 36"
    and "overlay_digest o1 = overlay_digest o2"
  shows "o1 = o2"
proof -
  have small: "small_entry e" if "entry_ok ext e" for e
  proof -
    have uuid: "length v < 4294967296" if "valid_canonical_uuid ext v" for v
    proof -
      from that obtain u where "hyphenated ext u = v"
        by (auto simp: valid_canonical_uuid_def split: option.splits)
      with assms(4)[of u] show ?thesis by simp
    qed
    have "length (canonical_name e) \<le> 255"
      using that by (auto simp: entry_ok_def valid_canonical_name_def split: list.splits)
    with that uuid show ?thesis by (auto simp: entry_ok_def small_entry_def)
  qed
  from assms(1,2) have v: "validate_bindings ext o1 = Ok ()" "validate_bindings ext o2 = Ok ()"
    and d: "sha256 ext (overlay_preimage o1) = overlay_digest o1"
      "sha256 ext (overlay_preimage o2) = overlay_digest o2"
    by (auto simp: validate_canonical_def result_simps compute_digest_def)
  from d assms(3,5) have "overlay_preimage o1 = overlay_preimage o2" by simp
  from preimage_inj[OF this, of "overlay_digest o1"] v small
  have "o1\<lparr>overlay_digest := overlay_digest o1\<rparr> = o2\<lparr>overlay_digest := overlay_digest o1\<rparr>"
    by (simp add: validate_bindings_eq_Ok)
  with assms(5) show ?thesis by (cases o1; cases o2) simp
qed

definition sample_externals :: externals where
  "sample_externals = \<lparr>sha256 = (\<lambda>bs. bs), parse_uuid = (\<lambda>_. Some 1), hyphenated = (\<lambda>_. replicate 36 CHR ''0'')\<rparr>"

definition sample_binding :: SecretBinding where
  "sample_binding = \<lparr>binding_id = replicate 36 CHR ''0'', version_id = Some (replicate 36 CHR ''0'')\<rparr>"

lemma sample_overlay: "\<exists>o1. Overlay_new sample_externals (sample_lease 5 1) [(''TOKEN'', sample_binding)] = Ok o1"
  by (simp add: Overlay_new_def OverlayEntry_new_def valid_canonical_name_def is_ascii_uppercase_def
      is_ascii_digit_def str_starts_with_def valid_canonical_uuid_def sample_externals_def sample_binding_def
      validate_bindings_def MAX_MANAGED_SECRET_BINDINGS_def)

theorem built_overlay_is_bound_to_its_lease_witness:
  "\<exists>o1. Overlay_new sample_externals (sample_lease 5 1) [(''TOKEN'', sample_binding)] = Ok o1 \<and>
     validate_for sample_externals (sample_lease 5 1) o1 = Ok () \<and>
     validate_for sample_externals (sample_lease 5 2) o1 \<noteq> Ok ()"
proof -
  obtain o1 where o1: "Overlay_new sample_externals (sample_lease 5 1) [(''TOKEN'', sample_binding)] = Ok o1"
    using sample_overlay by blast
  from built_overlay_is_bound_to_its_lease[OF o1, of "sample_lease 5 2"] o1 show ?thesis
    by (auto simp: sample_lease_def)
qed

theorem overlay_digest_commits_witness:
  "Overlay_empty sample_externals (sample_lease 5 1) =
   \<lparr>overlay_schema_version = 1, overlay_attempt_id = 1, overlay_lease_id = 5, overlay_fencing_token = 1,
    overlay_bindings = [], overlay_digest = overlay_digest (Overlay_empty sample_externals (sample_lease 5 1))\<rparr>"
  by (rule overlay_digest_commits[of sample_externals])
     (simp_all add: validate_canonical_def Overlay_empty_def validate_bindings_def compute_digest_def
       overlay_preimage_def MANAGED_SECRET_BINDING_OVERLAY_SCHEMA_VERSION_def sample_lease_def
       sample_externals_def MAX_MANAGED_SECRET_BINDINGS_def)

end
