(* ===== verification/JournalCommand.thy ===== *)
theory JournalCommand
  imports LogDelivery Provider Endpoint ManagedSecret
begin

text \<open>
  Durable records of the runner journal about commands, lease offers, runtime-authority deliveries and
  orphan reconciliation: \<open>automata-ci-runner-journal/src/model/command.rs\<close> and \<open>model/orphan.rs\<close>, with
  the protocol values they embed (\<open>negotiation.rs\<close>, \<open>message/lease_authority.rs\<close>,
  \<open>message/authority.rs\<close> and \<open>message/lease.rs\<close> of \<open>automata-ci-protocol\<close>).
\<close>

section \<open>Protocol versions\<close>

type_synonym ProtocolVersion = u16

datatype ProtocolRangeError = ZeroVersion | Inverted ProtocolVersion ProtocolVersion

definition ProtocolVersion_new :: "u16 \<Rightarrow> (ProtocolVersion, ProtocolRangeError) result" where
  "ProtocolVersion_new value = (if value = 0 then Err ZeroVersion else Ok value)"

record ProtocolRange =
  range_min :: ProtocolVersion
  range_max :: ProtocolVersion

definition ProtocolRange_new ::
  "ProtocolVersion \<Rightarrow> ProtocolVersion \<Rightarrow> (ProtocolRange, ProtocolRangeError) result" where
  "ProtocolRange_new mn mx =
     (if mn > mx then Err (Inverted mn mx) else Ok \<lparr>range_min = mn, range_max = mx\<rparr>)"

definition ProtocolRange_validate :: "ProtocolRange \<Rightarrow> (unit, ProtocolRangeError) result" where
  "ProtocolRange_validate self =
     (if range_min self = 0 \<or> range_max self = 0 then Err ZeroVersion
      else if range_min self > range_max self then Err (Inverted (range_min self) (range_max self))
      else Ok ())"

definition ProtocolRange_contains :: "ProtocolRange \<Rightarrow> ProtocolVersion \<Rightarrow> bool" where
  "ProtocolRange_contains self version \<longleftrightarrow> version \<ge> range_min self \<and> version \<le> range_max self"

definition SUPPORTED_PROTOCOL_RANGE :: ProtocolRange where
  "SUPPORTED_PROTOCOL_RANGE = \<lparr>range_min = 3, range_max = 3\<rparr>"

section \<open>Lease-authority receipts\<close>

definition MAX_LEASE_AUTHORITY_POLL_CONTRIBUTIONS :: nat where
  "MAX_LEASE_AUTHORITY_POLL_CONTRIBUTIONS = 16"

definition MAX_LEASE_AUTHORITY_NAME_BYTES :: nat where
  "MAX_LEASE_AUTHORITY_NAME_BYTES = 128"

datatype LeaseAuthorityPollContributionError =
    InvalidAuthorityName | ZeroPayloadSchema | InvalidPayloadSize | PayloadDigestMismatch
  | AuthorityUnsupportedSchema | InvalidCount | AuthorityNonCanonicalOrder | BundleDigestMismatch

type_synonym LeaseAuthorityName = string

definition LeaseAuthorityName_new ::
  "string \<Rightarrow> (LeaseAuthorityName, LeaseAuthorityPollContributionError) result" where
  "LeaseAuthorityName_new value =
     (if length value \<le> MAX_LEASE_AUTHORITY_NAME_BYTES \<and>
         (case value of [] \<Rightarrow> False | byte # rest \<Rightarrow>
            is_ascii_lowercase byte \<and>
            list_all (\<lambda>byte. is_ascii_lowercase byte \<or> is_ascii_digit byte \<or> byte \<in> set ''._-'') rest)
      then Ok value else Err InvalidAuthorityName)"

record LeaseAuthorityPollReceipt =
  receipt_name :: LeaseAuthorityName
  payload_schema_version :: u16
  payload_sha256 :: Sha256Digest

definition LeaseAuthorityPollReceipt_from_parts ::
  "LeaseAuthorityName \<Rightarrow> u16 \<Rightarrow> Sha256Digest \<Rightarrow>
   (LeaseAuthorityPollReceipt, LeaseAuthorityPollContributionError) result" where
  "LeaseAuthorityPollReceipt_from_parts name schema digest =
     (if schema = 0 then Err ZeroPayloadSchema
      else Ok \<lparr>receipt_name = name, payload_schema_version = schema, payload_sha256 = digest\<rparr>)"

definition validate_authority_receipts :: "LeaseAuthorityPollReceipt list \<Rightarrow> unit jresult" where
  "validate_authority_receipts receipts =
     (if length receipts > MAX_LEASE_AUTHORITY_POLL_CONTRIBUTIONS \<or>
         \<not> strictly_sorted_by receipt_name receipts \<or>
         list_ex (\<lambda>receipt. payload_schema_version receipt = 0) receipts
      then Err DecodedStateInvalid else Ok ())"

section \<open>Commands\<close>

record DurableCommand =
  command_sequence :: CommandSequence
  command_operation_id :: OperationId
  command_digest :: Sha256Digest

datatype CommandIgnoredReason = StaleLease | SlotUnavailable | UnsupportedCommand | InvalidCommand

datatype CommandDisposition = CommandApplied | CommandIgnored CommandIgnoredReason

record CommandTombstone =
  tombstone_command :: DurableCommand
  tombstone_disposition :: CommandDisposition

record CancellationRecord =
  cancellation_command :: DurableCommand
  requested_at :: UnixMillis

section \<open>Lease offers\<close>

record LeaseOfferRecord =
  offer_slot :: RunnerSlotOrdinal
  offer_lease :: Lease
  offer_job_ir :: JobIrContentRef
  managed_secret_bindings :: "ManagedSecretBindingOverlay option"
  offer_command :: DurableCommand

definition LeaseOfferRecord_new ::
  "RunnerSlotOrdinal \<Rightarrow> Lease \<Rightarrow> JobIrContentRef \<Rightarrow> DurableCommand \<Rightarrow> LeaseOfferRecord jresult" where
  "LeaseOfferRecord_new slot lease job_ir command =
     and_then (map_err (\<lambda>_. InvalidLease) (Lease_validate lease)) (\<lambda>_.
     and_then (JobIrContentRef_validate job_ir) (\<lambda>_.
     Ok \<lparr>offer_slot = slot, offer_lease = lease, offer_job_ir = job_ir,
         managed_secret_bindings = None, offer_command = command\<rparr>))"

definition with_managed_secret_bindings ::
  "externals \<Rightarrow> ManagedSecretBindingOverlay \<Rightarrow> LeaseOfferRecord \<Rightarrow> LeaseOfferRecord jresult" where
  "with_managed_secret_bindings ext overlay self =
     and_then (map_err (\<lambda>_. InvalidManagedSecretBindings)
       (validate_for ext (offer_lease self) overlay)) (\<lambda>_.
     Ok (self\<lparr>managed_secret_bindings := Some overlay\<rparr>))"

definition LeaseOfferRecord_validate :: "externals \<Rightarrow> LeaseOfferRecord \<Rightarrow> unit jresult" where
  "LeaseOfferRecord_validate ext self =
     and_then (map_err (\<lambda>_. InvalidLease) (Lease_validate (offer_lease self))) (\<lambda>_.
     and_then (JobIrContentRef_validate (offer_job_ir self)) (\<lambda>_.
     case managed_secret_bindings self of
       Some overlay \<Rightarrow> map_err (\<lambda>_. InvalidManagedSecretBindings)
                         (validate_for ext (offer_lease self) overlay)
     | None \<Rightarrow> Ok ()))"

datatype LeaseRejectionReason = CapacityChanged | CapabilityChanged | ShuttingDown | InvalidJob

record LeaseRejectionRecord =
  rejection_reason :: LeaseRejectionReason
  response_operation_id :: OperationId
  response_acknowledged :: bool

definition LeaseRejectionRecord_new ::
  "LeaseRejectionReason \<Rightarrow> OperationId \<Rightarrow> LeaseRejectionRecord" where
  "LeaseRejectionRecord_new reason operation =
     \<lparr>rejection_reason = reason, response_operation_id = operation, response_acknowledged = False\<rparr>"

definition acknowledge_response :: "LeaseRejectionRecord \<Rightarrow> LeaseRejectionRecord" where
  "acknowledge_response self = self\<lparr>response_acknowledged := True\<rparr>"

datatype LeasePollCommandRecord =
    NoCommand
  | Recorded DurableCommand CommandDisposition
  | Ignored DurableCommand CommandIgnoredReason
  | LeaseOffer LeaseOfferRecord
  | Cancellation RunnerSlotOrdinal LeaseGuard CancellationRecord

section \<open>Runtime authority\<close>

type_synonym RuntimeAuthorityGeneration = u32

datatype RuntimeAuthorityDeliveryError =
    ZeroGeneration | BindingMismatch | CorrelationMismatch | InvalidAuthorities

definition RuntimeAuthorityGeneration_new ::
  "u32 \<Rightarrow> (RuntimeAuthorityGeneration, RuntimeAuthorityDeliveryError) result" where
  "RuntimeAuthorityGeneration_new value = (if value = 0 then Err ZeroGeneration else Ok value)"

record RuntimeAuthorityDeliveryBinding =
  authority_attempt_id :: AttemptId
  authority_slot :: RunnerSlotOrdinal
  authority_guard :: LeaseGuard
  authority_offer_operation_id :: OperationId
  authority_offer_sequence :: CommandSequence
  authority_job_ir_digest :: Sha256Digest
  authority_generation :: RuntimeAuthorityGeneration

record RuntimeAuthorityDeliveryRecord =
  delivery_binding :: RuntimeAuthorityDeliveryBinding
  request_operation_id :: OperationId
  acknowledgement_operation_id :: OperationId
  bundle_digest :: Sha256Digest
  delivery_content :: RuntimeAuthorityContentRef
  delivery_acknowledged :: bool

definition RuntimeAuthorityDeliveryRecord_validate ::
  "RuntimeAuthorityDeliveryRecord \<Rightarrow> unit jresult" where
  "RuntimeAuthorityDeliveryRecord_validate self =
     and_then (RuntimeAuthorityContentRef_validate (delivery_content self)) (\<lambda>_.
     if authority_generation (delivery_binding self) = 0 \<or>
        public_plaintext_sha256 (delivery_content self) \<noteq> Some (bundle_digest self)
     then Err InvalidRuntimeAuthorityDelivery else Ok ())"

definition RuntimeAuthorityDeliveryRecord_new ::
  "RuntimeAuthorityDeliveryBinding \<Rightarrow> OperationId \<Rightarrow> OperationId \<Rightarrow> Sha256Digest \<Rightarrow>
   RuntimeAuthorityContentRef \<Rightarrow> RuntimeAuthorityDeliveryRecord jresult" where
  "RuntimeAuthorityDeliveryRecord_new binding request acknowledgement digest content =
     (let value = \<lparr>delivery_binding = binding, request_operation_id = request,
        acknowledgement_operation_id = acknowledgement, bundle_digest = digest,
        delivery_content = content, delivery_acknowledged = False\<rparr> in
      and_then (RuntimeAuthorityDeliveryRecord_validate value) (\<lambda>_. Ok value))"

definition RuntimeAuthorityDeliveryRecord_acknowledge ::
  "RuntimeAuthorityGeneration \<Rightarrow> Sha256Digest \<Rightarrow> OperationId \<Rightarrow> RuntimeAuthorityDeliveryRecord \<Rightarrow>
   (bool \<times> RuntimeAuthorityDeliveryRecord) jresult" where
  "RuntimeAuthorityDeliveryRecord_acknowledge generation digest operation self =
     (if authority_generation (delivery_binding self) \<noteq> generation \<or> bundle_digest self \<noteq> digest \<or>
         acknowledgement_operation_id self \<noteq> operation
      then Err RuntimeAuthorityDeliveryReplayConflict
      else if delivery_acknowledged self then Ok (False, self)
      else Ok (True, self\<lparr>delivery_acknowledged := True\<rparr>))"

section \<open>Orphan reconciliation\<close>

record OrphanClaim =
  claim_runner_id :: RunnerId
  claim_session_id :: RunnerSessionId
  claim_slot :: RunnerSlotOrdinal
  claim_guard :: LeaseGuard

definition MAX_ORPHAN_AUTHORITY_PROOF_BYTES :: nat where
  "MAX_ORPHAN_AUTHORITY_PROOF_BYTES = 65536"

datatype OrphanAuthorityError = InvalidProof | Denied | AuthorityUnavailable

type_synonym OrphanAuthorityProof = "u8 list"

definition OrphanAuthorityProof_new ::
  "u8 list \<Rightarrow> (OrphanAuthorityProof, OrphanAuthorityError) result" where
  "OrphanAuthorityProof_new value =
     (if value = [] \<or> length value > MAX_ORPHAN_AUTHORITY_PROOF_BYTES then Err InvalidProof
      else Ok value)"

datatype OrphanDelivery = TerminalResult | LogStream | LeaseRejection

datatype OrphanAbandonmentReason = SessionInvalidated | ControlPlaneRejected

record OrphanAbandonmentPermissions =
  permit_terminal_result :: bool
  permit_log_delivery :: bool
  permit_lease_rejection :: bool

fun allows :: "OrphanAbandonmentPermissions \<Rightarrow> OrphanDelivery \<Rightarrow> bool" where
  "allows self TerminalResult = permit_terminal_result self"
| "allows self LogStream = permit_log_delivery self"
| "allows self LeaseRejection = permit_lease_rejection self"

record OrphanAuthorityGrant =
  grant_claim :: OrphanClaim
  grant_authority_operation_id :: OperationId
  grant_evidence_digest :: Sha256Digest
  grant_permissions :: OrphanAbandonmentPermissions

record OrphanAbandonments =
  abandoned_terminal_result :: "OrphanAbandonmentReason option"
  abandoned_log_delivery :: "OrphanAbandonmentReason option"
  abandoned_lease_rejection :: "OrphanAbandonmentReason option"

fun OrphanAbandonments_get ::
  "OrphanAbandonments \<Rightarrow> OrphanDelivery \<Rightarrow> OrphanAbandonmentReason option" where
  "OrphanAbandonments_get self TerminalResult = abandoned_terminal_result self"
| "OrphanAbandonments_get self LogStream = abandoned_log_delivery self"
| "OrphanAbandonments_get self LeaseRejection = abandoned_lease_rejection self"

fun OrphanAbandonments_set ::
  "OrphanDelivery \<Rightarrow> OrphanAbandonmentReason \<Rightarrow> OrphanAbandonments \<Rightarrow> OrphanAbandonments" where
  "OrphanAbandonments_set TerminalResult reason self = self\<lparr>abandoned_terminal_result := Some reason\<rparr>"
| "OrphanAbandonments_set LogStream reason self = self\<lparr>abandoned_log_delivery := Some reason\<rparr>"
| "OrphanAbandonments_set LeaseRejection reason self = self\<lparr>abandoned_lease_rejection := Some reason\<rparr>"

record OrphanRecord =
  orphan_session_id :: RunnerSessionId
  orphan_guard :: LeaseGuard
  orphan_authority_operation_id :: OperationId
  orphan_evidence_digest :: Sha256Digest
  orphan_permissions :: OrphanAbandonmentPermissions
  orphan_abandonments :: OrphanAbandonments

definition OrphanRecord_from_grant :: "OrphanAuthorityGrant \<Rightarrow> OrphanRecord" where
  "OrphanRecord_from_grant grant =
     \<lparr>orphan_session_id = claim_session_id (grant_claim grant),
      orphan_guard = claim_guard (grant_claim grant),
      orphan_authority_operation_id = grant_authority_operation_id grant,
      orphan_evidence_digest = grant_evidence_digest grant,
      orphan_permissions = grant_permissions grant,
      orphan_abandonments = \<lparr>abandoned_terminal_result = None, abandoned_log_delivery = None,
        abandoned_lease_rejection = None\<rparr>\<rparr>"

definition OrphanRecord_abandon ::
  "OperationId \<Rightarrow> OrphanDelivery \<Rightarrow> OrphanAbandonmentReason \<Rightarrow> OrphanRecord \<Rightarrow>
   (bool \<times> OrphanRecord) jresult" where
  "OrphanRecord_abandon operation delivery reason self =
     (if orphan_authority_operation_id self \<noteq> operation \<or> \<not> allows (orphan_permissions self) delivery
      then Err OrphanAuthorityMismatch
      else case OrphanAbandonments_get (orphan_abandonments self) delivery of
        Some existing \<Rightarrow> if existing = reason then Ok (False, self) else Err OrphanAbandonmentConflict
      | None \<Rightarrow> Ok (True, self\<lparr>orphan_abandonments :=
                  OrphanAbandonments_set delivery reason (orphan_abandonments self)\<rparr>))"

definition matches_grant :: "OrphanAuthorityGrant \<Rightarrow> OrphanRecord \<Rightarrow> bool" where
  "matches_grant grant self \<longleftrightarrow>
     orphan_session_id self = claim_session_id (grant_claim grant) \<and>
     orphan_guard self = claim_guard (grant_claim grant) \<and>
     orphan_authority_operation_id self = grant_authority_operation_id grant \<and>
     orphan_evidence_digest self = grant_evidence_digest grant \<and>
     orphan_permissions self = grant_permissions grant"

definition is_abandoned :: "OrphanDelivery \<Rightarrow> OrphanRecord \<Rightarrow> bool" where
  "is_abandoned delivery self \<longleftrightarrow>
     OrphanAbandonments_get (orphan_abandonments self) delivery \<noteq> None"

section \<open>What the records guarantee\<close>

lemma is_abandoned_from_grant [simp]: "\<not> is_abandoned d (OrphanRecord_from_grant grant)"
  by (cases d) (simp_all add: is_abandoned_def OrphanRecord_from_grant_def)

lemma matches_grant_from_grant [simp]: "matches_grant grant (OrphanRecord_from_grant grant)"
  by (simp add: matches_grant_def OrphanRecord_from_grant_def)

text \<open>An abandonment touches one delivery, keeps the fence of the record and needs the permission.\<close>

lemma OrphanRecord_abandon_OkE:
  assumes "OrphanRecord_abandon operation delivery reason r = Ok (b, r')"
  obtains "allows (orphan_permissions r) delivery" "is_abandoned delivery r'"
    "\<forall>d. d \<noteq> delivery \<longrightarrow> is_abandoned d r' = is_abandoned d r"
    "orphan_session_id r' = orphan_session_id r" "orphan_guard r' = orphan_guard r"
    "orphan_permissions r' = orphan_permissions r" "\<not> b \<Longrightarrow> r' = r"
    "OrphanRecord_abandon operation delivery reason r' = Ok (False, r')"
proof -
  have get: "OrphanAbandonments_get (OrphanAbandonments_set delivery reason a) d =
      (if d = delivery then Some reason else OrphanAbandonments_get a d)" for a d
    by (cases d; cases delivery) simp_all
  show thesis
    using assms
    by (intro that)
       (auto simp: OrphanRecord_abandon_def is_abandoned_def get split: if_splits option.splits)
qed

lemma RuntimeAuthorityDeliveryRecord_acknowledge_OkE:
  assumes "RuntimeAuthorityDeliveryRecord_acknowledge g d operation r = Ok (b, r')"
  obtains "r' = r\<lparr>delivery_acknowledged := True\<rparr>" "\<not> b \<Longrightarrow> r' = r"
    "RuntimeAuthorityDeliveryRecord_acknowledge g d operation r' = Ok (False, r')"
  using assms that
  by (cases r) (auto simp: RuntimeAuthorityDeliveryRecord_acknowledge_def split: if_splits)

lemma RuntimeAuthorityDeliveryRecord_validate_acknowledged [simp]:
  "RuntimeAuthorityDeliveryRecord_validate (r\<lparr>delivery_acknowledged := b\<rparr>) =
   RuntimeAuthorityDeliveryRecord_validate r"
  by (simp add: RuntimeAuthorityDeliveryRecord_validate_def)

lemma LeaseOfferRecord_new_valid:
  "LeaseOfferRecord_new s l j c = Ok r \<Longrightarrow> LeaseOfferRecord_validate ext r = Ok ()"
  by (auto simp: LeaseOfferRecord_new_def LeaseOfferRecord_validate_def result_simps)

lemma with_managed_secret_bindings_valid:
  "LeaseOfferRecord_validate ext r = Ok () \<Longrightarrow> with_managed_secret_bindings ext overlay r = Ok r' \<Longrightarrow>
   LeaseOfferRecord_validate ext r' = Ok ()"
  by (auto simp: with_managed_secret_bindings_def LeaseOfferRecord_validate_def result_simps)

end
