(* ===== verification/JournalSlot.thy ===== *)
theory JournalSlot
  imports JournalCommand
begin

text \<open>
  One occupied slot of the runner journal: \<open>SlotSnapshot\<close> of
  \<open>automata-ci-runner-journal/src/model/state.rs\<close>, its durable validation, and the part of every
  \<open>StoredJournal\<close> operation that works on the slot returned by \<open>slot_mut\<close>.  An operation takes the
  slot to an error or to a flag (did anything change) and the new slot; the caller works on a copy, so an error leaves the
  committed slot as it was.
\<close>

section \<open>State\<close>

datatype LeaseOfferStatus = OfferRecorded | OfferAccepted | OfferRejected

record SlotSnapshot =
  offer :: LeaseOfferRecord
  offer_status :: LeaseOfferStatus
  runtime_authority_delivery :: "RuntimeAuthorityDeliveryRecord option"
  rejection :: "LeaseRejectionRecord option"
  rejection_enqueued_at :: "UnixMillis option"
  slot_expires_at :: UnixMillis
  slot_lifecycle :: JobLifecycle
  cancellation :: "CancellationRecord option"
  terminal_result :: "TerminalResultRecord option"
  terminal_result_enqueued_at :: "UnixMillis option"
  provider_checkpoint :: ProviderRecoveryState
  provider_operations :: "ProviderOperation list"
  endpoint_operations :: "EndpointOperation list"
  sandbox :: "SandboxIdentity option"
  outbound_operations :: OutboundOperationCursor
  log_delivery :: "LogDeliveryCursor option"
  orphan :: "OrphanRecord option"

definition SlotSnapshot_from_offer :: "LeaseOfferRecord \<Rightarrow> SlotSnapshot" where
  "SlotSnapshot_from_offer record =
     \<lparr>offer = record, offer_status = OfferRecorded, runtime_authority_delivery = None,
      rejection = None, rejection_enqueued_at = None,
      slot_expires_at = expires_at (offer_lease record), slot_lifecycle = Leased,
      cancellation = None, terminal_result = None, terminal_result_enqueued_at = None,
      provider_checkpoint = ProviderRecoveryState_default, provider_operations = [],
      endpoint_operations = [], sandbox = None,
      outbound_operations = OutboundOperationCursor_initial, log_delivery = None, orphan = None\<rparr>"

definition slot_ordinal :: "SlotSnapshot \<Rightarrow> RunnerSlotOrdinal" where
  "slot_ordinal self = offer_slot (offer self)"

definition slot_guard :: "SlotSnapshot \<Rightarrow> LeaseGuard" where
  "slot_guard self = Lease_guard (offer_lease (offer self))"

definition require_guard :: "LeaseGuard \<Rightarrow> SlotSnapshot \<Rightarrow> unit jresult" where
  "require_guard received self =
     (if slot_guard self = received then Ok ()
      else Err (LeaseGuardMismatch (slot_guard self) received))"

definition last_pending :: "EndpointOperation list \<Rightarrow> EndpointOperation option" where
  "last_pending operations =
     (case last_opt operations of
        Some operation \<Rightarrow> if is_recovery_pending operation then Some operation else None
      | None \<Rightarrow> None)"

definition endpoint_recovery_pending :: "SlotSnapshot \<Rightarrow> EndpointOperation option" where
  "endpoint_recovery_pending self = last_pending (endpoint_operations self)"

section \<open>Durable validation\<close>

definition binding_matches :: "LeaseOfferRecord \<Rightarrow> RuntimeAuthorityDeliveryBinding \<Rightarrow> bool" where
  "binding_matches record binding \<longleftrightarrow>
     authority_attempt_id binding = lease_attempt_id (offer_lease record) \<and>
     authority_slot binding = offer_slot record \<and>
     authority_guard binding = Lease_guard (offer_lease record) \<and>
     authority_offer_operation_id binding = command_operation_id (offer_command record) \<and>
     authority_offer_sequence binding = command_sequence (offer_command record) \<and>
     public_plaintext_sha256 (job_ir_content (offer_job_ir record)) = Some (authority_job_ir_digest binding)"

definition validate_runtime_authority_delivery :: "SlotSnapshot \<Rightarrow> unit jresult" where
  "validate_runtime_authority_delivery self =
     (case runtime_authority_delivery self of
        None \<Rightarrow> Ok ()
      | Some delivery \<Rightarrow>
          and_then (RuntimeAuthorityDeliveryRecord_validate delivery) (\<lambda>_.
          if offer_status self \<noteq> OfferAccepted \<or>
             \<not> binding_matches (offer self) (delivery_binding delivery)
          then Err InvalidRuntimeAuthorityDelivery else Ok ()))"

fun validate_endpoint_loop ::
  "OperationId list \<Rightarrow> nat \<Rightarrow> nat \<Rightarrow> EndpointOperation list \<Rightarrow> u64 \<Rightarrow> nat \<Rightarrow> (u64 \<times> nat) jresult" where
  "validate_endpoint_loop ids index count [] content_bytes content_refs = Ok (content_bytes, content_refs)"
| "validate_endpoint_loop ids index count (operation # rest) content_bytes content_refs =
     and_then (EndpointOperation_validate operation) (\<lambda>_.
     and_then (ok_or DecodedStateInvalid
       (usize_checked_add content_refs (accounted_content_refs operation))) (\<lambda>content_refs.
     and_then (accounted_content_bytes operation) (\<lambda>bytes.
     and_then (ok_or DecodedStateInvalid (checked_add content_bytes bytes)) (\<lambda>content_bytes.
     if endpoint_operation_id operation \<in> set ids \<or>
        (is_recovery_pending operation \<and> index + 1 \<noteq> count)
     then Err DecodedStateInvalid
     else validate_endpoint_loop (endpoint_operation_id operation # ids) (index + 1) count rest
            content_bytes content_refs))))"

definition validate_endpoint_operations :: "SlotSnapshot \<Rightarrow> unit jresult" where
  "validate_endpoint_operations self =
     (if length (endpoint_operations self) > MAX_ENDPOINT_OPERATIONS_PER_JOB
      then Err DecodedCollectionLimit
      else if endpoint_operations self \<noteq> [] \<and> offer_status self \<noteq> OfferAccepted
      then Err DecodedStateInvalid
      else and_then (validate_endpoint_loop [] 0 (length (endpoint_operations self))
             (endpoint_operations self) 0 0) (\<lambda>(content_bytes, content_refs).
      if content_refs > MAX_ENDPOINT_CONTENT_REFS_PER_SLOT \<or>
         content_bytes > MAX_ENDPOINT_CONTENT_BYTES_PER_SLOT \<or>
         ((slot_lifecycle self = Finalizing \<or> is_terminal (slot_lifecycle self)) \<and>
          endpoint_recovery_pending self \<noteq> None)
      then Err DecodedCollectionLimit else Ok ()))"

definition delivery_is_acknowledged :: "RuntimeAuthorityDeliveryRecord option \<Rightarrow> bool" where
  "delivery_is_acknowledged delivery =
     (case delivery of None \<Rightarrow> False | Some d \<Rightarrow> delivery_acknowledged d)"

definition validate_provider_state :: "SlotSnapshot \<Rightarrow> unit jresult" where
  "validate_provider_state self =
     (if provider_operations self \<noteq> [] \<and> offer_status self \<noteq> OfferAccepted
      then Err DecodedStateInvalid
      else if (provider_operations self \<noteq> [] \<or> sandbox self \<noteq> None) \<and>
              \<not> delivery_is_acknowledged (runtime_authority_delivery self)
      then Err DecodedStateInvalid
      else if \<not> is_coherent (provider_checkpoint self) then Err DecodedStateInvalid
      else and_then (replay_provider_operations (provider_checkpoint self) (provider_operations self))
        (\<lambda>recovery.
      if (sandbox self \<noteq> None) \<noteq> sandbox_live recovery then Err DecodedStateInvalid else Ok ()))"

definition validate_delivery_timestamps :: "SlotSnapshot \<Rightarrow> unit jresult" where
  "validate_delivery_timestamps self =
     (if (rejection self \<noteq> None) \<noteq> (rejection_enqueued_at self \<noteq> None) \<or>
         (terminal_result self \<noteq> None) \<noteq> (terminal_result_enqueued_at self \<noteq> None)
      then Err DecodedStateInvalid
      else for_each validate_delivery_enqueued_at
             (List.map_filter id [rejection_enqueued_at self, terminal_result_enqueued_at self]))"

definition validate_log_state :: "SlotSnapshot \<Rightarrow> unit jresult" where
  "validate_log_state self =
     (case log_delivery self of
        None \<Rightarrow> Ok ()
      | Some log \<Rightarrow>
          if (log_acknowledged_through log \<noteq> None \<and> produced_through log = None) \<or>
             (case (log_acknowledged_through log, produced_through log) of
                (Some ack, Some produced) \<Rightarrow> ack > produced
              | _ \<Rightarrow> False) \<or>
             (case end_of_stream log of
                Some stream_end \<Rightarrow> produced_through log \<noteq> Some stream_end
              | None \<Rightarrow> False)
          then Err DecodedStateInvalid
          else LogDeliveryCursor_validate log)"

definition orphan_abandoned :: "OrphanDelivery \<Rightarrow> OrphanRecord option \<Rightarrow> bool" where
  "orphan_abandoned delivery record =
     (case record of None \<Rightarrow> False | Some r \<Rightarrow> is_abandoned delivery r)"

definition SlotSnapshot_validate ::
  "externals \<Rightarrow> RunnerId \<Rightarrow> RunnerSessionId \<Rightarrow> JobIrVersion \<Rightarrow> SlotSnapshot \<Rightarrow> unit jresult" where
  "SlotSnapshot_validate ext runner session selected_job_ir self =
     and_then (LeaseOfferRecord_validate ext (offer self)) (\<lambda>_.
     and_then (validate_runtime_authority_delivery self) (\<lambda>_.
     and_then (ensure (lease_runner_id (offer_lease (offer self)) = runner) LeaseRunnerMismatch) (\<lambda>_.
     and_then (ensure (job_ir_version (offer_job_ir (offer self)) = selected_job_ir)
       JobIrVersionMismatch) (\<lambda>_.
     and_then (ensure (\<not> slot_expires_at self < expires_at (offer_lease (offer self)))
       DecodedStateInvalid) (\<lambda>_.
     and_then (ensure (\<not> length (provider_operations self) > MAX_PROVIDER_OPERATIONS_PER_SLOT)
       DecodedCollectionLimit) (\<lambda>_.
     and_then (validate_endpoint_operations self) (\<lambda>_.
     and_then (validate_provider_state self) (\<lambda>_.
     and_then (ensure ((offer_status self \<noteq> OfferRejected \<and> rejection self = None) \<or>
                       (offer_status self = OfferRejected \<and> rejection self \<noteq> None))
       DecodedStateInvalid) (\<lambda>_.
     and_then (validate_delivery_timestamps self) (\<lambda>_.
     and_then (ensure (\<not> (orphan self = None \<and> offer_status self = OfferRecorded \<and>
                          slot_lifecycle self \<notin> {Leased, Cancelling})) DecodedStateInvalid) (\<lambda>_.
     and_then (ensure (\<not> (orphan self = None \<and> offer_status self = OfferRejected \<and>
                          slot_lifecycle self \<notin> {Leased, Cancelling})) DecodedStateInvalid) (\<lambda>_.
     and_then (ensure (\<not> (offer_status self = OfferRejected \<and> log_delivery self \<noteq> None))
       DecodedStateInvalid) (\<lambda>_.
     and_then (case terminal_result self of
                 None \<Rightarrow> Ok ()
               | Some result \<Rightarrow>
                   and_then (TerminalResultRecord_validate result) (\<lambda>_.
                   if offer_status self \<noteq> OfferAccepted \<or> \<not> is_terminal (slot_lifecycle self)
                   then Err DecodedStateInvalid else Ok ())) (\<lambda>_.
     and_then (ensure (\<not> (offer_status self = OfferAccepted \<and> is_terminal (slot_lifecycle self) \<and>
                          terminal_result self = None \<and> orphan self = None)) DecodedStateInvalid) (\<lambda>_.
     and_then (case orphan self of
                 None \<Rightarrow> Ok ()
               | Some record \<Rightarrow>
                   if orphan_session_id record \<noteq> session \<or> orphan_guard record \<noteq> slot_guard self \<or>
                      (\<not> is_terminal (slot_lifecycle self) \<and> endpoint_recovery_pending self = None) \<or>
                      (is_abandoned TerminalResult record \<and> terminal_result self = None) \<or>
                      (is_abandoned LogStream record \<and> log_delivery self = None) \<or>
                      (is_abandoned LeaseRejection record \<and> rejection self = None)
                   then Err DecodedStateInvalid else Ok ()) (\<lambda>_.
     and_then (case cancellation self of
                 None \<Rightarrow> Ok ()
               | Some record \<Rightarrow>
                   ensure (\<not> command_sequence (cancellation_command record) \<le>
                             command_sequence (offer_command (offer self))) DecodedStateInvalid) (\<lambda>_.
     and_then (ensure (\<not> (cancellation self \<noteq> None \<and>
                 slot_lifecycle self \<in> {Queued, Leased, Preparing, Running, Skipped}))
       DecodedStateInvalid) (\<lambda>_.
     validate_log_state self))))))))))))))))))"

section \<open>Lease operations\<close>

definition slot_accept_offer :: "SlotSnapshot \<Rightarrow> (bool \<times> SlotSnapshot) jresult" where
  "slot_accept_offer self =
     (if orphan self \<noteq> None then Err OrphanNotAuthorized
      else case offer_status self of
        OfferRecorded \<Rightarrow> Ok (True, self\<lparr>offer_status := OfferAccepted\<rparr>)
      | OfferAccepted \<Rightarrow> Ok (False, self)
      | OfferRejected \<Rightarrow> Err OfferAlreadyRejected)"

definition slot_record_runtime_authority_delivery ::
  "RuntimeAuthorityDeliveryRecord \<Rightarrow> SlotSnapshot \<Rightarrow> (bool \<times> SlotSnapshot) jresult" where
  "slot_record_runtime_authority_delivery delivery self =
     (if offer_status self \<noteq> OfferAccepted then Err OfferNotAccepted
      else and_then (RuntimeAuthorityDeliveryRecord_validate delivery) (\<lambda>_.
      if \<not> binding_matches (offer self) (delivery_binding delivery)
      then Err InvalidRuntimeAuthorityDelivery
      else case runtime_authority_delivery self of
        Some existing \<Rightarrow>
          if existing = delivery then Ok (False, self)
          else Err RuntimeAuthorityDeliveryReplayConflict
      | None \<Rightarrow> Ok (True, self\<lparr>runtime_authority_delivery := Some delivery\<rparr>)))"

definition slot_acknowledge_runtime_authority_delivery ::
  "RuntimeAuthorityGeneration \<Rightarrow> Sha256Digest \<Rightarrow> OperationId \<Rightarrow> SlotSnapshot \<Rightarrow>
   (bool \<times> SlotSnapshot) jresult" where
  "slot_acknowledge_runtime_authority_delivery generation digest operation self =
     and_then (ok_or InvalidRuntimeAuthorityDelivery (runtime_authority_delivery self)) (\<lambda>delivery.
     and_then (RuntimeAuthorityDeliveryRecord_acknowledge generation digest operation delivery)
       (\<lambda>(changed, delivery).
     Ok (changed, self\<lparr>runtime_authority_delivery := Some delivery\<rparr>)))"

definition slot_reject_offer ::
  "LeaseRejectionReason \<Rightarrow> OperationId \<Rightarrow> UnixMillis \<Rightarrow> SlotSnapshot \<Rightarrow> (bool \<times> SlotSnapshot) jresult" where
  "slot_reject_offer reason operation enqueued_at self =
     (if orphan self \<noteq> None then Err OrphanNotAuthorized
      else case offer_status self of
        OfferRecorded \<Rightarrow>
          and_then (validate_delivery_enqueued_at enqueued_at) (\<lambda>_.
          Ok (True, self\<lparr>offer_status := OfferRejected,
                         rejection := Some (LeaseRejectionRecord_new reason operation),
                         rejection_enqueued_at := Some enqueued_at\<rparr>))
      | OfferAccepted \<Rightarrow> Err OfferAlreadyAccepted
      | OfferRejected \<Rightarrow>
          (case rejection self of
             Some record \<Rightarrow>
               if rejection_reason record = reason \<and> response_operation_id record = operation
               then Ok (False, self) else Err LeaseRejectionReplayConflict
           | None \<Rightarrow> Err LeaseRejectionReplayConflict))"

definition slot_acknowledge_offer_rejection ::
  "OperationId \<Rightarrow> SlotSnapshot \<Rightarrow> (bool \<times> SlotSnapshot) jresult" where
  "slot_acknowledge_offer_rejection operation self =
     (if offer_status self \<noteq> OfferRejected then Err OfferNotRejected
      else and_then (ok_or DecodedStateInvalid (rejection self)) (\<lambda>record.
      if response_operation_id record \<noteq> operation then Err LeaseRejectionOperationMismatch
      else if response_acknowledged record then Ok (False, self)
      else Ok (True, self\<lparr>rejection := Some (acknowledge_response record)\<rparr>)))"

definition slot_renew_lease :: "UnixMillis \<Rightarrow> SlotSnapshot \<Rightarrow> (bool \<times> SlotSnapshot) jresult" where
  "slot_renew_lease expires self =
     (if orphan self \<noteq> None then Err OrphanNotAuthorized
      else if offer_status self = OfferRejected then Err OfferAlreadyRejected
      else if expires < slot_expires_at self then Err LeaseExpiryRegression
      else if expires = slot_expires_at self then Ok (False, self)
      else Ok (True, self\<lparr>slot_expires_at := expires\<rparr>))"

text \<open>
  \<open>record_cancellation\<close>: the checks before the command is committed (\<open>Some\<close> ends the call), and the
  effect on the slot after it was committed.
\<close>

definition slot_cancellation_replay :: "CancellationRecord \<Rightarrow> SlotSnapshot \<Rightarrow> bool jresult" where
  "slot_cancellation_replay record self =
     (if orphan self \<noteq> None then Err OrphanNotAuthorized
      else if offer_status self = OfferRejected then Err OfferAlreadyRejected
      else if cancellation self = Some record then Ok True
      else if cancellation self \<noteq> None then Err CommandReplayConflict
      else Ok False)"

definition slot_cancel :: "CancellationRecord \<Rightarrow> SlotSnapshot \<Rightarrow> SlotSnapshot jresult" where
  "slot_cancel record self =
     and_then (if slot_lifecycle self \<noteq> Cancelling
               then map_err (\<lambda>_. InvalidLifecycleTransition)
                      (validate_transition (slot_lifecycle self) Cancelling)
               else Ok ()) (\<lambda>_.
     let self = self\<lparr>cancellation := Some record, slot_lifecycle := Cancelling\<rparr> in
     case last_pending (endpoint_operations self) of
       Some operation \<Rightarrow>
         Ok (self\<lparr>endpoint_operations := butlast (endpoint_operations self) @
               [snd (request_cancellation operation)]\<rparr>)
     | None \<Rightarrow> Ok self)"

definition slot_transition_lifecycle ::
  "JobLifecycle \<Rightarrow> SlotSnapshot \<Rightarrow> (bool \<times> SlotSnapshot) jresult" where
  "slot_transition_lifecycle next self =
     (if offer_status self \<noteq> OfferAccepted then Err OfferNotAccepted
      else if orphan self \<noteq> None then Err OrphanNotAuthorized
      else if slot_lifecycle self = next then Ok (False, self)
      else if is_terminal next then Err TerminalResultRequired
      else if next = Finalizing \<and> endpoint_recovery_pending self \<noteq> None then Err EndpointRecoveryPending
      else and_then (map_err (\<lambda>_. InvalidLifecycleTransition)
             (validate_transition (slot_lifecycle self) next)) (\<lambda>_.
      Ok (True, self\<lparr>slot_lifecycle := next\<rparr>)))"

definition slot_record_terminal_result ::
  "JobLifecycle \<Rightarrow> TerminalResultRecord \<Rightarrow> UnixMillis \<Rightarrow> SlotSnapshot \<Rightarrow> (bool \<times> SlotSnapshot) jresult" where
  "slot_record_terminal_result terminal result enqueued_at self =
     (if offer_status self \<noteq> OfferAccepted then Err OfferNotAccepted
      else if orphan self \<noteq> None then Err OrphanNotAuthorized
      else and_then (TerminalResultRecord_validate result) (\<lambda>_.
      if terminal_acknowledged result then Err TerminalResultAlreadyAcknowledgedInput
      else if \<not> is_terminal terminal then Err InvalidLifecycleTransition
      else if endpoint_recovery_pending self \<noteq> None then Err EndpointRecoveryPending
      else case terminal_result self of
        Some existing \<Rightarrow>
          if matches_unacknowledged existing result \<and> slot_lifecycle self = terminal
          then Ok (False, self) else Err TerminalResultReplayConflict
      | None \<Rightarrow>
          and_then (validate_delivery_enqueued_at enqueued_at) (\<lambda>_.
          and_then (map_err (\<lambda>_. InvalidLifecycleTransition)
             (validate_transition (slot_lifecycle self) terminal)) (\<lambda>_.
          Ok (True, self\<lparr>slot_lifecycle := terminal, terminal_result := Some result,
                         terminal_result_enqueued_at := Some enqueued_at\<rparr>)))))"

definition slot_acknowledge_terminal_result ::
  "OperationId \<Rightarrow> SlotSnapshot \<Rightarrow> (bool \<times> SlotSnapshot) jresult" where
  "slot_acknowledge_terminal_result operation self =
     and_then (ok_or TerminalResultRequired (terminal_result self)) (\<lambda>result.
     if terminal_operation_id result \<noteq> operation then Err TerminalResultOperationMismatch
     else if terminal_acknowledged result then Ok (False, self)
     else Ok (True, self\<lparr>terminal_result := Some (TerminalResultRecord_acknowledge result)\<rparr>))"

section \<open>Endpoint operations\<close>

definition terminalize_orphan_after_endpoint_resolution :: "SlotSnapshot \<Rightarrow> SlotSnapshot" where
  "terminalize_orphan_after_endpoint_resolution self =
     (if orphan self \<noteq> None \<and> \<not> is_terminal (slot_lifecycle self) \<and>
         endpoint_recovery_pending self = None
      then self\<lparr>slot_lifecycle := Lost\<rparr> else self)"

text \<open>\<open>iter_mut().find(...)\<close> followed by a mutation of the operation it found.\<close>

fun update_endpoint ::
  "OperationId \<Rightarrow> (EndpointOperation \<Rightarrow> (bool \<times> EndpointOperation) jresult) \<Rightarrow>
   EndpointOperation list \<Rightarrow> (bool \<times> EndpointOperation list) jresult" where
  "update_endpoint operation f [] = Err EndpointOperationMissing"
| "update_endpoint operation f (current # rest) =
     (if endpoint_operation_id current = operation
      then and_then (f current) (\<lambda>(changed, current). Ok (changed, current # rest))
      else and_then (update_endpoint operation f rest) (\<lambda>(changed, rest). Ok (changed, current # rest)))"

fun sum_content_refs :: "EndpointOperation list \<Rightarrow> nat \<Rightarrow> nat option" where
  "sum_content_refs [] refs = Some refs"
| "sum_content_refs (current # rest) refs =
     Option.bind (usize_checked_add refs (accounted_content_refs current)) (sum_content_refs rest)"

definition sum_content_bytes :: "EndpointOperation list \<Rightarrow> u64 \<Rightarrow> u64 jresult" where
  "sum_content_bytes operations initial =
     try_fold (\<lambda>current so_far.
       and_then (accounted_content_bytes current) (\<lambda>bytes.
       ok_or EndpointContentBytesLimit (checked_add so_far bytes))) operations initial"

definition slot_accept_endpoint_operation ::
  "EndpointOperation \<Rightarrow> SlotSnapshot \<Rightarrow> (bool \<times> SlotSnapshot) jresult" where
  "slot_accept_endpoint_operation operation self =
     (if offer_status self \<noteq> OfferAccepted then Err OfferNotAccepted
      else if is_terminal (slot_lifecycle self) then Err LeaseTerminal
      else if orphan self \<noteq> None then Err OrphanNotAuthorized
      else and_then (EndpointOperation_validate operation) (\<lambda>_.
      if endpoint_state operation \<noteq> Accepted then Err EndpointOperationNotAccepted
      else case find (\<lambda>existing. endpoint_operation_id existing = endpoint_operation_id operation)
                  (endpoint_operations self) of
        Some existing \<Rightarrow>
          if matches_acceptance existing operation then Ok (False, self)
          else Err EndpointOperationReplayConflict
      | None \<Rightarrow>
          if cancellation self \<noteq> None then Err EndpointOperationsClosed
          else if last_pending (endpoint_operations self) \<noteq> None then Err EndpointOperationPending
          else if length (endpoint_operations self) \<ge> MAX_ENDPOINT_OPERATIONS_PER_JOB
          then Err EndpointOperationLimit
          else and_then (ok_or EndpointContentRefLimit
                 (sum_content_refs (endpoint_operations self) (accounted_content_refs operation)))
                 (\<lambda>prospective_refs.
               if prospective_refs > MAX_ENDPOINT_CONTENT_REFS_PER_SLOT
               then Err EndpointContentRefLimit
               else and_then (accounted_content_bytes operation) (\<lambda>initial.
                    and_then (sum_content_bytes (endpoint_operations self) initial) (\<lambda>content_bytes.
                    if content_bytes > MAX_ENDPOINT_CONTENT_BYTES_PER_SLOT
                    then Err EndpointContentBytesLimit
                    else Ok (True, self\<lparr>endpoint_operations :=
                           endpoint_operations self @ [operation]\<rparr>))))))"

definition slot_commit_endpoint_invocation ::
  "OperationId \<Rightarrow> SlotSnapshot \<Rightarrow> (bool \<times> SlotSnapshot) jresult" where
  "slot_commit_endpoint_invocation operation self =
     and_then (update_endpoint operation commit_invocation (endpoint_operations self))
       (\<lambda>(changed, operations). Ok (changed, self\<lparr>endpoint_operations := operations\<rparr>))"

definition slot_record_endpoint_cancellation ::
  "OperationId \<Rightarrow> SlotSnapshot \<Rightarrow> (bool \<times> SlotSnapshot) jresult" where
  "slot_record_endpoint_cancellation operation self =
     and_then (update_endpoint operation (\<lambda>current. Ok (request_cancellation current))
                 (endpoint_operations self)) (\<lambda>(changed, operations).
     Ok (changed, terminalize_orphan_after_endpoint_resolution
                    (self\<lparr>endpoint_operations := operations\<rparr>)))"

definition slot_complete_endpoint_cancellation ::
  "OperationId \<Rightarrow> SlotSnapshot \<Rightarrow> (bool \<times> SlotSnapshot) jresult" where
  "slot_complete_endpoint_cancellation operation self =
     (if sandbox self \<noteq> None then Err EndpointSandboxStillPresent
      else and_then (update_endpoint operation complete_cancellation (endpoint_operations self))
        (\<lambda>(changed, operations).
      Ok (changed, terminalize_orphan_after_endpoint_resolution
                     (self\<lparr>endpoint_operations := operations\<rparr>))))"

definition slot_abandon_endpoint_operation ::
  "OperationId \<Rightarrow> SlotSnapshot \<Rightarrow> (bool \<times> SlotSnapshot) jresult" where
  "slot_abandon_endpoint_operation operation self =
     (if sandbox self \<noteq> None then Err EndpointSandboxStillPresent
      else and_then (update_endpoint operation EndpointOperation_abandon (endpoint_operations self))
        (\<lambda>(changed, operations).
      Ok (changed, terminalize_orphan_after_endpoint_resolution
                     (self\<lparr>endpoint_operations := operations\<rparr>))))"

definition slot_record_endpoint_result ::
  "OperationId \<Rightarrow> EndpointResultContentRef \<Rightarrow> SlotSnapshot \<Rightarrow> (bool \<times> SlotSnapshot) jresult" where
  "slot_record_endpoint_result operation result self =
     and_then (update_endpoint operation (record_result result) (endpoint_operations self))
       (\<lambda>(changed, operations). Ok (changed, self\<lparr>endpoint_operations := operations\<rparr>))"

section \<open>Provider operations\<close>

definition compact_oldest :: "SlotSnapshot \<Rightarrow> SlotSnapshot jresult" where
  "compact_oldest self =
     (case provider_operations self of
        compacted # rest \<Rightarrow>
          if length (provider_operations self) \<ge> MAX_PROVIDER_OPERATIONS_PER_SLOT
          then and_then (recovery_compact compacted (provider_checkpoint self)) (\<lambda>checkpoint.
               Ok (self\<lparr>provider_operations := rest, provider_checkpoint := checkpoint\<rparr>))
          else Ok self
      | [] \<Rightarrow> Ok self)"

fun intent_lifecycle_valid :: "ProviderOperationKind \<Rightarrow> JobLifecycle \<Rightarrow> bool" where
  "intent_lifecycle_valid CreateSandbox l = (l \<in> {Leased, Preparing})"
| "intent_lifecycle_valid StartSandbox l = (l = Preparing)"
| "intent_lifecycle_valid StopSandbox l = (l \<in> {Running, Cancelling})"
| "intent_lifecycle_valid DestroySandbox l = True"

definition slot_record_provider_intent ::
  "ProviderOperation \<Rightarrow> SlotSnapshot \<Rightarrow> (bool \<times> SlotSnapshot) jresult" where
  "slot_record_provider_intent op self =
     (let kind = provider_kind op in
      if offer_status self \<noteq> OfferAccepted then Err OfferNotAccepted
      else if is_terminal (slot_lifecycle self) \<and> orphan self = None \<and> kind \<noteq> DestroySandbox
      then Err LeaseTerminal
      else if orphan self \<noteq> None \<and> kind \<notin> {StopSandbox, DestroySandbox}
      then Err (InvalidProviderOperation kind)
      else if provider_outcome op \<noteq> OutcomePending then Err (InvalidProviderOperation kind)
      else case find (\<lambda>existing. provider_operation_id existing = provider_operation_id op)
                  (provider_operations self) of
        Some existing \<Rightarrow>
          if provider_kind existing = kind then Ok (False, self)
          else Err ProviderOperationReplayConflict
      | None \<Rightarrow>
          if (case last_opt (provider_operations self) of
                Some latest \<Rightarrow> provider_is_pending latest | None \<Rightarrow> False)
          then Err ProviderOperationPending
          else and_then (compact_oldest self) (\<lambda>self.
               and_then (replay_provider_operations (provider_checkpoint self)
                           (provider_operations self)) (\<lambda>recovery.
               if (orphan self \<noteq> None \<or> intent_lifecycle_valid kind (slot_lifecycle self)) \<and>
                  can_begin recovery kind
               then Ok (True, self\<lparr>provider_operations := provider_operations self @ [op]\<rparr>)
               else Err (InvalidProviderOperation kind))))"

definition slot_record_sandbox_created ::
  "OperationId \<Rightarrow> SandboxIdentity \<Rightarrow> SlotSnapshot \<Rightarrow> (bool \<times> SlotSnapshot) jresult" where
  "slot_record_sandbox_created operation created self =
     (case last_opt (provider_operations self) of
        None \<Rightarrow> Err SandboxWithoutCreateIntent
      | Some latest \<Rightarrow>
          if provider_operation_id latest \<noteq> operation \<or> provider_kind latest \<noteq> CreateSandbox
          then Err SandboxWithoutCreateIntent
          else if provider_outcome latest = Applied
          then (if sandbox self = Some created then Ok (False, self) else Err SandboxIdentityConflict)
          else if sandbox self \<noteq> None then Err SandboxIdentityConflict
          else and_then (mark_applied latest) (\<lambda>(changed, latest).
               Ok (changed, self\<lparr>provider_operations := butlast (provider_operations self) @ [latest],
                                 sandbox := Some created\<rparr>)))"

definition slot_complete_provider_operation ::
  "OperationId \<Rightarrow> SlotSnapshot \<Rightarrow> (bool \<times> SlotSnapshot) jresult" where
  "slot_complete_provider_operation operation self =
     (case last_opt (provider_operations self) of
        None \<Rightarrow> Err ProviderOperationReplayConflict
      | Some latest \<Rightarrow>
          if provider_operation_id latest \<noteq> operation then Err ProviderOperationReplayConflict
          else if provider_kind latest = CreateSandbox then Err SandboxWithoutCreateIntent
          else let destroyed = (provider_kind latest = DestroySandbox) in
               and_then (mark_applied latest) (\<lambda>(changed, latest).
               let self = self\<lparr>provider_operations := butlast (provider_operations self) @ [latest]\<rparr> in
               Ok (changed, if changed \<and> destroyed then self\<lparr>sandbox := None\<rparr> else self)))"

definition slot_fail_provider_operation ::
  "OperationId \<Rightarrow> ProviderFailureOutcome \<Rightarrow> SlotSnapshot \<Rightarrow> (bool \<times> SlotSnapshot) jresult" where
  "slot_fail_provider_operation operation failure self =
     (case last_opt (provider_operations self) of
        None \<Rightarrow> Err ProviderOperationReplayConflict
      | Some latest \<Rightarrow>
          if provider_operation_id latest \<noteq> operation then Err ProviderOperationReplayConflict
          else and_then (resolve_failure failure latest) (\<lambda>(changed, latest).
               Ok (changed,
                   self\<lparr>provider_operations := butlast (provider_operations self) @ [latest]\<rparr>)))"

section \<open>Outbound operations and logs\<close>

definition slot_advance_outbound_operation ::
  "OutboundOperationSequence \<Rightarrow> SlotSnapshot \<Rightarrow> (bool \<times> SlotSnapshot) jresult" where
  "slot_advance_outbound_operation sequence self =
     (if outbound_contiguous_through (outbound_operations self) = Some sequence then Ok (False, self)
      else and_then (OutboundOperationCursor_advance sequence (outbound_operations self)) (\<lambda>cursor.
           Ok (True, self\<lparr>outbound_operations := cursor\<rparr>)))"

definition slot_open_log_stream :: "LogStreamId \<Rightarrow> SlotSnapshot \<Rightarrow> (bool \<times> SlotSnapshot) jresult" where
  "slot_open_log_stream stream self =
     (if offer_status self \<noteq> OfferAccepted then Err OfferNotAccepted
      else if orphan self \<noteq> None then Err OrphanNotAuthorized
      else case log_delivery self of
        Some log \<Rightarrow> if log_stream_id log = stream then Ok (False, self) else Err LogStreamMismatch
      | None \<Rightarrow> Ok (True, self\<lparr>log_delivery := Some (LogDeliveryCursor_new stream)\<rparr>))"

definition slot_record_log_segment ::
  "LogSegmentPublication \<Rightarrow> UnixMillis \<Rightarrow> SlotSnapshot \<Rightarrow> (bool \<times> SlotSnapshot) jresult" where
  "slot_record_log_segment publication enqueued_at self =
     (if orphan self \<noteq> None then Err OrphanNotAuthorized
      else and_then (ok_or LogStreamMismatch (log_delivery self)) (\<lambda>log.
      if log_stream_id log \<noteq> publication_stream_id publication then Err LogStreamMismatch
      else if produced_through log = Some (last_sequence (publication_segment publication))
      then (if last_opt (segments log) = Some (publication_segment publication) then Ok (False, self)
            else Err LogSegmentReplayConflict)
      else and_then (record_segment publication enqueued_at log) (\<lambda>log.
           Ok (True, self\<lparr>log_delivery := Some log\<rparr>))))"

definition slot_seal_log_segment ::
  "LogStreamId \<Rightarrow> DurableContentRef \<Rightarrow> SlotSnapshot \<Rightarrow> (bool \<times> SlotSnapshot) jresult" where
  "slot_seal_log_segment stream expected_content self =
     and_then (ok_or LogStreamMismatch (log_delivery self)) (\<lambda>log.
     if log_stream_id log \<noteq> stream then Err LogStreamMismatch
     else and_then (seal_segment expected_content log) (\<lambda>(changed, log).
          Ok (changed, self\<lparr>log_delivery := Some log\<rparr>)))"

definition slot_acknowledge_log_segment ::
  "LogSegmentAcknowledgement \<Rightarrow> SlotSnapshot \<Rightarrow> (bool \<times> SlotSnapshot) jresult" where
  "slot_acknowledge_log_segment acknowledgement self =
     and_then (ok_or LogStreamMismatch (log_delivery self)) (\<lambda>log.
     if log_stream_id log \<noteq> acknowledgement_stream_id acknowledgement then Err LogStreamMismatch
     else and_then (acknowledge_segment acknowledgement log) (\<lambda>(changed, log).
          Ok (changed, self\<lparr>log_delivery := Some log\<rparr>)))"

section \<open>Orphans and release\<close>

definition slot_authorize_orphan ::
  "OrphanAuthorityGrant \<Rightarrow> SlotSnapshot \<Rightarrow> (bool \<times> SlotSnapshot) jresult" where
  "slot_authorize_orphan grant self =
     (case orphan self of
        Some record \<Rightarrow>
          if matches_grant grant record then Ok (False, self) else Err OrphanAuthorityMismatch
      | None \<Rightarrow>
          let self = self\<lparr>orphan := Some (OrphanRecord_from_grant grant)\<rparr> in
          Ok (True, if \<not> is_terminal (slot_lifecycle self) \<and> endpoint_recovery_pending self = None
                    then self\<lparr>slot_lifecycle := Lost\<rparr> else self))"

definition delivery_exists :: "OrphanDelivery \<Rightarrow> SlotSnapshot \<Rightarrow> bool" where
  "delivery_exists delivery self =
     (case delivery of
        TerminalResult \<Rightarrow> terminal_result self \<noteq> None
      | LogStream \<Rightarrow> log_delivery self \<noteq> None
      | LeaseRejection \<Rightarrow> rejection self \<noteq> None)"

definition slot_abandon_orphan_delivery ::
  "OperationId \<Rightarrow> OrphanDelivery \<Rightarrow> OrphanAbandonmentReason \<Rightarrow> SlotSnapshot \<Rightarrow>
   (bool \<times> SlotSnapshot) jresult" where
  "slot_abandon_orphan_delivery operation delivery reason self =
     (if \<not> delivery_exists delivery self then Err OrphanAbandonmentConflict
      else and_then (ok_or OrphanNotAuthorized (orphan self)) (\<lambda>record.
           and_then (OrphanRecord_abandon operation delivery reason record) (\<lambda>(changed, record).
           Ok (changed, self\<lparr>orphan := Some record\<rparr>))))"

text \<open>The checks of \<open>release_slot\<close> and \<open>release_rejected_offer\<close> before the slot is removed.\<close>

definition slot_releasable :: "SlotSnapshot \<Rightarrow> unit jresult" where
  "slot_releasable self =
     (if offer_status self \<noteq> OfferAccepted \<and> orphan self = None then Err OfferNotAccepted
      else if \<not> is_terminal (slot_lifecycle self) \<or>
              (case last_opt (provider_operations self) of
                 Some latest \<Rightarrow> provider_is_pending latest | None \<Rightarrow> False) \<or>
              sandbox self \<noteq> None \<or> list_ex is_recovery_pending (endpoint_operations self)
      then Err SlotNotTerminal
      else if \<not> ((case log_delivery self of None \<Rightarrow> True | Some log \<Rightarrow> is_fully_delivered log) \<or>
                 orphan_abandoned LogStream (orphan self))
      then Err LogDeliveryIncomplete
      else if offer_status self = OfferAccepted \<and>
              \<not> ((case terminal_result self of
                    None \<Rightarrow> False | Some result \<Rightarrow> terminal_acknowledged result) \<or>
                 (orphan self \<noteq> None \<and>
                  (orphan_abandoned TerminalResult (orphan self) \<or> terminal_result self = None)))
      then Err TerminalResultNotAcknowledged
      else if \<not> (case rejection self of
                    None \<Rightarrow> True
                  | Some record \<Rightarrow> response_acknowledged record \<or>
                                   orphan_abandoned LeaseRejection (orphan self))
      then Err LeaseRejectionNotAcknowledged
      else Ok ())"

definition slot_rejection_releasable :: "OperationId \<Rightarrow> SlotSnapshot \<Rightarrow> unit jresult" where
  "slot_rejection_releasable operation self =
     (if offer_status self \<noteq> OfferRejected then Err OfferNotRejected
      else and_then (ok_or DecodedStateInvalid (rejection self)) (\<lambda>record.
      if response_operation_id record \<noteq> operation then Err LeaseRejectionOperationMismatch
      else if \<not> response_acknowledged record then Err LeaseRejectionNotAcknowledged
      else Ok ()))"

section \<open>All operations on a slot\<close>

text \<open>One constructor per method of \<open>RunnerJournal\<close> that mutates an occupied slot in place.\<close>

datatype (plugins only: ) SlotMutation =
    AcceptLease
  | RecordRuntimeAuthorityDelivery RuntimeAuthorityDeliveryRecord
  | AcknowledgeRuntimeAuthorityDelivery RuntimeAuthorityGeneration Sha256Digest OperationId
  | RejectLease LeaseRejectionReason OperationId UnixMillis
  | AcknowledgeLeaseRejection OperationId
  | RenewLease UnixMillis
  | TransitionLifecycle JobLifecycle
  | RecordTerminalResult JobLifecycle TerminalResultRecord UnixMillis
  | AcknowledgeTerminalResult OperationId
  | AcceptEndpointOperation EndpointOperation
  | CommitEndpointInvocation OperationId
  | RecordEndpointCancellation OperationId
  | CompleteEndpointCancellation OperationId
  | AbandonEndpointOperation OperationId
  | RecordEndpointResult OperationId EndpointResultContentRef
  | RecordProviderIntent ProviderOperation
  | RecordSandboxCreated OperationId SandboxIdentity
  | CompleteProviderOperation OperationId
  | FailProviderOperation OperationId ProviderFailureOutcome
  | AdvanceOutboundOperation OutboundOperationSequence
  | OpenLogStream LogStreamId
  | RecordLogSegment LogSegmentPublication UnixMillis
  | SealLogSegment LogStreamId DurableContentRef
  | AcknowledgeLogSegment LogSegmentAcknowledgement
  | AbandonOrphanDelivery OperationId OrphanDelivery OrphanAbandonmentReason

primrec apply_slot :: "SlotMutation \<Rightarrow> SlotSnapshot \<Rightarrow> (bool \<times> SlotSnapshot) jresult" where
  "apply_slot AcceptLease = slot_accept_offer"
| "apply_slot (RecordRuntimeAuthorityDelivery delivery) = slot_record_runtime_authority_delivery delivery"
| "apply_slot (AcknowledgeRuntimeAuthorityDelivery generation digest operation) =
     slot_acknowledge_runtime_authority_delivery generation digest operation"
| "apply_slot (RejectLease reason operation at) = slot_reject_offer reason operation at"
| "apply_slot (AcknowledgeLeaseRejection operation) = slot_acknowledge_offer_rejection operation"
| "apply_slot (RenewLease expires) = slot_renew_lease expires"
| "apply_slot (TransitionLifecycle next) = slot_transition_lifecycle next"
| "apply_slot (RecordTerminalResult terminal result at) = slot_record_terminal_result terminal result at"
| "apply_slot (AcknowledgeTerminalResult operation) = slot_acknowledge_terminal_result operation"
| "apply_slot (AcceptEndpointOperation operation) = slot_accept_endpoint_operation operation"
| "apply_slot (CommitEndpointInvocation operation) = slot_commit_endpoint_invocation operation"
| "apply_slot (RecordEndpointCancellation operation) = slot_record_endpoint_cancellation operation"
| "apply_slot (CompleteEndpointCancellation operation) = slot_complete_endpoint_cancellation operation"
| "apply_slot (AbandonEndpointOperation operation) = slot_abandon_endpoint_operation operation"
| "apply_slot (RecordEndpointResult operation result) = slot_record_endpoint_result operation result"
| "apply_slot (RecordProviderIntent op) = slot_record_provider_intent op"
| "apply_slot (RecordSandboxCreated operation created) = slot_record_sandbox_created operation created"
| "apply_slot (CompleteProviderOperation operation) = slot_complete_provider_operation operation"
| "apply_slot (FailProviderOperation operation failure) = slot_fail_provider_operation operation failure"
| "apply_slot (AdvanceOutboundOperation sequence) = slot_advance_outbound_operation sequence"
| "apply_slot (OpenLogStream stream) = slot_open_log_stream stream"
| "apply_slot (RecordLogSegment publication at) = slot_record_log_segment publication at"
| "apply_slot (SealLogSegment stream content) = slot_seal_log_segment stream content"
| "apply_slot (AcknowledgeLogSegment acknowledgement) = slot_acknowledge_log_segment acknowledgement"
| "apply_slot (AbandonOrphanDelivery operation delivery reason) =
     slot_abandon_orphan_delivery operation delivery reason"

end
