(* ===== verification/SlotPreserve.thy ===== *)
theory SlotPreserve
  imports SlotInvariant
begin

text \<open>
  Every in-place operation on a journal slot keeps the durable invariant, with the exact side
  conditions that the operation itself leaves to the validation before the commit.
\<close>

definition slot_ok ::
  "externals \<Rightarrow> RunnerId \<Rightarrow> RunnerSessionId \<Rightarrow> JobIrVersion \<Rightarrow> SlotSnapshot \<Rightarrow> bool" where
  "slot_ok ext runner session job_ir s \<longleftrightarrow> slot_inv ext runner session job_ir s \<and> no_early_log s"

lemmas slot_ok_parts = slot_ok_def slot_inv_def no_early_log_def slot_guard_def

section \<open>How the parts change\<close>

lemma orphan_ok_None [simp]: "orphan_ok v g l ops res log rej None"
  by (simp add: orphan_ok_def)

lemma recorded_status:
  "authority_ok o1 OfferRecorded d \<Longrightarrow> authority_ok o1 st d"
  "endpoints_ok OfferRecorded l ops \<Longrightarrow> endpoints_ok st l ops"
  "provider_ok OfferRecorded d c pops box \<Longrightarrow> provider_ok st d c pops box"
  "result_ok OfferRecorded l o2 res at \<Longrightarrow> status_ok OfferRecorded l None None \<Longrightarrow>
     result_ok st l o2 res at"
  "status_ok OfferRecorded l None None \<Longrightarrow> status_ok st l None None"
  "rejection_ok OfferRecorded rej at \<Longrightarrow> rejection_ok OfferAccepted rej at"
  by (auto simp: authority_ok_def endpoints_ok_def provider_ok_def result_ok_def status_ok_def
      rejection_ok_def)

lemma rejection_ok_new:
  "validate_delivery_enqueued_at at = Ok () \<Longrightarrow> rejection_ok OfferRejected (Some x) (Some at)"
  by (simp add: rejection_ok_def timestamp_ok_def)

lemma rejection_ok_acknowledge:
  "rejection_ok st (Some x) at \<Longrightarrow> rejection_ok st (Some y) at"
  by (simp add: rejection_ok_def)

lemma orphan_ok_mono:
  assumes "orphan_ok v g l ops res log rej orph"
    and "is_terminal l \<or> last_pending ops \<noteq> None \<Longrightarrow> is_terminal l' \<or> last_pending ops' \<noteq> None"
    and "res \<noteq> None \<Longrightarrow> res' \<noteq> None" "log \<noteq> None \<Longrightarrow> log' \<noteq> None" "rej \<noteq> None \<Longrightarrow> rej' \<noteq> None"
  shows "orphan_ok v g l' ops' res' log' rej' orph"
  using assms by (auto simp: orphan_ok_def)

lemma edge_keeps_cancelled:
  "l' \<in> set (lifecycle_edges l) \<Longrightarrow> cancellation_ok o1 l c \<Longrightarrow> cancellation_ok o1 l' c"
  by (cases l) (auto simp: cancellation_ok_def)

lemma endpoints_ok_lifecycle:
  "endpoints_ok st l ops \<Longrightarrow> (l' = Finalizing \<or> is_terminal l' \<Longrightarrow> last_pending ops = None) \<Longrightarrow>
   endpoints_ok st l' ops"
  by (simp add: endpoints_ok_def)

lemma result_ok_not_terminal:
  "result_ok st l o1 res at \<Longrightarrow> \<not> is_terminal l \<Longrightarrow> \<not> is_terminal l' \<Longrightarrow> result_ok st l' o1 res at"
  by (auto simp: result_ok_def)

lemma result_ok_new:
  "TerminalResultRecord_validate x = Ok () \<Longrightarrow> is_terminal l \<Longrightarrow>
   validate_delivery_enqueued_at at = Ok () \<Longrightarrow> result_ok OfferAccepted l o1 (Some x) (Some at)"
  by (simp add: result_ok_def timestamp_ok_def)

lemma result_ok_acknowledge:
  "result_ok st l o1 (Some x) at \<Longrightarrow> result_ok st l o1 (Some (TerminalResultRecord_acknowledge x)) at"
  by (simp add: result_ok_def)

lemma status_ok_accepted [simp]: "status_ok OfferAccepted l o1 log"
  by (simp add: status_ok_def)

lemma authority_ok_new:
  "RuntimeAuthorityDeliveryRecord_validate d = Ok () \<Longrightarrow> binding_matches o1 (delivery_binding d) \<Longrightarrow>
   authority_ok o1 OfferAccepted (Some d)"
  by (simp add: authority_ok_def)

lemma provider_ok_delivery:
  "provider_ok st d c ops box \<Longrightarrow> (delivery_is_acknowledged d \<Longrightarrow> delivery_is_acknowledged d') \<Longrightarrow>
   provider_ok st d' c ops box"
  by (auto simp: provider_ok_def)

lemma authority_ok_acknowledge:
  "authority_ok o1 st (Some d) \<Longrightarrow> authority_ok o1 st (Some (d\<lparr>delivery_acknowledged := b\<rparr>))"
  by (simp add: authority_ok_def)

lemma offer_ok_extend: "offer_ok ext r j o1 e \<Longrightarrow> e \<le> e' \<Longrightarrow> offer_ok ext r j o1 e'"
  by (simp add: offer_ok_def)

section \<open>Leases\<close>

lemma slot_accept_offer_ok:
  assumes "slot_ok ext r v j s" "slot_accept_offer s = Ok (b, s')"
  shows "slot_ok ext r v j s'"
proof (cases b)
  case True
  with assms(2) have s: "orphan s = None" "offer_status s = OfferRecorded"
    "s' = s\<lparr>offer_status := OfferAccepted\<rparr>"
    by (auto simp: slot_accept_offer_def split: if_splits LeaseOfferStatus.splits)
  with assms(1) show ?thesis
    by (auto simp: slot_ok_parts intro: recorded_status)
qed (use assms in \<open>auto simp: slot_accept_offer_def split: if_splits LeaseOfferStatus.splits\<close>)

lemma slot_record_runtime_authority_delivery_ok:
  assumes "slot_ok ext r v j s" "slot_record_runtime_authority_delivery d s = Ok (b, s')"
  shows "slot_ok ext r v j s'"
proof (cases b)
  case True
  with assms(2) have s: "offer_status s = OfferAccepted" "runtime_authority_delivery s = None"
    "RuntimeAuthorityDeliveryRecord_validate d = Ok ()" "binding_matches (offer s) (delivery_binding d)"
    "s' = s\<lparr>runtime_authority_delivery := Some d\<rparr>"
    by (auto simp: slot_record_runtime_authority_delivery_def result_simps split: if_splits option.splits)
  with assms(1) show ?thesis
    by (auto simp: slot_ok_parts intro: authority_ok_new provider_ok_delivery)
       (auto simp: delivery_is_acknowledged_def elim!: provider_ok_delivery)
qed (use assms in \<open>auto simp: slot_record_runtime_authority_delivery_def result_simps
      split: if_splits option.splits\<close>)

lemma slot_acknowledge_runtime_authority_delivery_ok:
  assumes "slot_ok ext r v j s" "slot_acknowledge_runtime_authority_delivery g d i s = Ok (b, s')"
  shows "slot_ok ext r v j s'"
proof -
  from assms(2) obtain x y where x: "runtime_authority_delivery s = Some x"
    "RuntimeAuthorityDeliveryRecord_acknowledge g d i x = Ok (b, y)"
    "s' = s\<lparr>runtime_authority_delivery := Some y\<rparr>"
    by (auto simp: slot_acknowledge_runtime_authority_delivery_def result_simps)
  from x(2) have "y = x\<lparr>delivery_acknowledged := True\<rparr>"
    by (rule RuntimeAuthorityDeliveryRecord_acknowledge_OkE)
  with assms(1) x show ?thesis
    by (auto simp: slot_ok_parts delivery_is_acknowledged_def
        intro: authority_ok_acknowledge elim!: provider_ok_delivery)
qed

lemma slot_reject_offer_ok:
  assumes "slot_ok ext r v j s" "slot_reject_offer reason i at s = Ok (b, s')"
  shows "slot_ok ext r v j s'"
proof (cases b)
  case True
  with assms(2) have s: "orphan s = None" "offer_status s = OfferRecorded"
    "validate_delivery_enqueued_at at = Ok ()"
    "s' = s\<lparr>offer_status := OfferRejected, rejection := Some (LeaseRejectionRecord_new reason i),
            rejection_enqueued_at := Some at\<rparr>"
    by (auto simp: slot_reject_offer_def result_simps split: if_splits LeaseOfferStatus.splits option.splits)
  with assms(1) show ?thesis
    by (auto simp: slot_ok_parts intro: recorded_status rejection_ok_new)
qed (use assms in \<open>auto simp: slot_reject_offer_def result_simps
      split: if_splits LeaseOfferStatus.splits option.splits\<close>)

lemma slot_acknowledge_offer_rejection_ok:
  assumes "slot_ok ext r v j s" "slot_acknowledge_offer_rejection i s = Ok (b, s')"
  shows "slot_ok ext r v j s'"
proof (cases b)
  case True
  with assms(2) obtain x where s: "offer_status s = OfferRejected" "rejection s = Some x"
    "s' = s\<lparr>rejection := Some (acknowledge_response x)\<rparr>"
    by (auto simp: slot_acknowledge_offer_rejection_def result_simps split: if_splits)
  with assms(1) show ?thesis
    by (auto simp: slot_ok_parts intro: rejection_ok_acknowledge elim!: orphan_ok_mono)
qed (use assms in \<open>auto simp: slot_acknowledge_offer_rejection_def result_simps split: if_splits\<close>)

lemma slot_renew_lease_ok:
  assumes "slot_ok ext r v j s" "slot_renew_lease e s = Ok (b, s')"
  shows "slot_ok ext r v j s'"
  using assms
  by (auto simp: slot_renew_lease_def slot_ok_parts not_less split: if_splits intro: offer_ok_extend)

lemma slot_transition_lifecycle_ok:
  assumes "slot_ok ext r v j s" "slot_transition_lifecycle l s = Ok (b, s')"
  shows "slot_ok ext r v j s'"
proof (cases b)
  case True
  with assms(2) have s: "offer_status s = OfferAccepted" "orphan s = None" "\<not> is_terminal l"
    "l = Finalizing \<longrightarrow> endpoint_recovery_pending s = None" "l \<in> set (lifecycle_edges (slot_lifecycle s))"
    "s' = s\<lparr>slot_lifecycle := l\<rparr>"
    by (auto simp: slot_transition_lifecycle_def result_simps split: if_splits)
  then have "\<not> is_terminal (slot_lifecycle s)" by (auto simp: terminal_no_edges)
  with assms(1) s edge_keeps_cancelled[OF s(5)] show ?thesis
    by (auto simp: slot_ok_parts endpoint_recovery_pending_def
        intro: result_ok_not_terminal elim!: endpoints_ok_lifecycle)
qed (use assms in \<open>auto simp: slot_transition_lifecycle_def result_simps split: if_splits\<close>)

lemma slot_record_terminal_result_ok:
  assumes "slot_ok ext r v j s" "slot_record_terminal_result l res at s = Ok (b, s')"
  shows "slot_ok ext r v j s'"
proof (cases b)
  case True
  with assms(2) have s: "offer_status s = OfferAccepted" "orphan s = None" "is_terminal l"
    "TerminalResultRecord_validate res = Ok ()" "validate_delivery_enqueued_at at = Ok ()"
    "endpoint_recovery_pending s = None" "l \<in> set (lifecycle_edges (slot_lifecycle s))"
    "s' = s\<lparr>slot_lifecycle := l, terminal_result := Some res, terminal_result_enqueued_at := Some at\<rparr>"
    by (auto simp: slot_record_terminal_result_def result_simps split: if_splits option.splits)
  with assms(1) edge_keeps_cancelled[OF s(7)] show ?thesis
    by (auto simp: slot_ok_parts endpoint_recovery_pending_def
        intro: result_ok_new elim!: endpoints_ok_lifecycle)
qed (use assms in \<open>auto simp: slot_record_terminal_result_def result_simps split: if_splits option.splits\<close>)

lemma slot_acknowledge_terminal_result_ok:
  assumes "slot_ok ext r v j s" "slot_acknowledge_terminal_result i s = Ok (b, s')"
  shows "slot_ok ext r v j s'"
proof (cases b)
  case True
  with assms(2) obtain x where s: "terminal_result s = Some x"
    "s' = s\<lparr>terminal_result := Some (TerminalResultRecord_acknowledge x)\<rparr>"
    by (auto simp: slot_acknowledge_terminal_result_def result_simps split: if_splits)
  with assms(1) show ?thesis
    by (auto simp: slot_ok_parts intro: result_ok_acknowledge elim!: orphan_ok_mono)
qed (use assms in \<open>auto simp: slot_acknowledge_terminal_result_def result_simps split: if_splits\<close>)

section \<open>Endpoint operations\<close>

lemma last_pending_simps [simp]:
  "last_pending [] = None"
  "last_pending (ops @ [op]) = (if is_recovery_pending op then Some op else None)"
  by (simp_all add: last_pending_def)

lemma last_pending_append: "ys \<noteq> [] \<Longrightarrow> last_pending (xs @ ys) = last_pending ys"
  by (cases ys rule: rev_cases) (simp_all add: append_assoc[symmetric] del: append_assoc)

lemma content_sums [simp]:
  "content_charge (xs @ ys) = content_charge xs + content_charge ys"
  "content_refs (xs @ ys) = content_refs xs + content_refs ys"
  "content_charge (op # ys) = charge op + content_charge ys"
  "content_refs (op # ys) = accounted_content_refs op + content_refs ys"
  "content_charge [] = 0" "content_refs [] = 0"
  by (simp_all add: content_charge_def content_refs_def)

lemma update_endpoint_OkE:
  assumes "update_endpoint i f ops = Ok (b, ops')"
  obtains xs op ys op' where "ops = xs @ op # ys" "\<forall>x \<in> set xs. endpoint_operation_id x \<noteq> i"
    "endpoint_operation_id op = i" "f op = Ok (b, op')" "ops' = xs @ op' # ys"
proof -
  have "\<exists>xs op ys op'. ops = xs @ op # ys \<and> (\<forall>x \<in> set xs. endpoint_operation_id x \<noteq> i) \<and>
    endpoint_operation_id op = i \<and> f op = Ok (b, op') \<and> ops' = xs @ op' # ys"
    using assms
  proof (induction ops arbitrary: ops')
    case (Cons op ops)
    show ?case
    proof (cases "endpoint_operation_id op = i")
      case True
      with Cons.prems show ?thesis
        by (intro exI[of _ "[]"]) (auto simp: result_simps)
    next
      case False
      with Cons.prems obtain ops1 where o1: "update_endpoint i f ops = Ok (b, ops1)" "ops' = op # ops1"
        by (auto simp: result_simps)
      from Cons.IH[OF o1(1)] obtain xs op1 ys op2 where
        "ops = xs @ op1 # ys" "\<forall>x \<in> set xs. endpoint_operation_id x \<noteq> i"
        "endpoint_operation_id op1 = i" "f op1 = Ok (b, op2)" "ops1 = xs @ op2 # ys" by blast
      with False o1(2) show ?thesis by (intro exI[of _ "op # xs"]) auto
    qed
  qed simp
  with that show thesis by blast
qed

lemma update_endpoint_at:
  "\<forall>x \<in> set xs. endpoint_operation_id x \<noteq> i \<Longrightarrow> endpoint_operation_id op = i \<Longrightarrow>
   f op = Ok (b, op') \<Longrightarrow> update_endpoint i f (xs @ op # ys) = Ok (b, xs @ op' # ys)"
  by (induction xs) auto

lemma endpoint_step_frame:
  assumes "endpoint_step op op'"
  shows "endpoint_operation_id op' = endpoint_operation_id op"
    "is_recovery_pending op' \<Longrightarrow> is_recovery_pending op"
  using endpoint_step_cases[OF assms]
  by (cases "endpoint_state op"; auto simp: is_recovery_pending_def)+

text \<open>A step of one operation keeps the whole list within its limits.\<close>

lemma endpoints_ok_step:
  assumes "endpoints_ok st l (xs @ op # ys)" "endpoint_step op op'"
  shows "endpoints_ok st l (xs @ op' # ys)"
proof -
  have inv: "endpoint_operation_inv op" using assms(1) by (simp add: endpoints_ok_def)
  note step = endpoint_step_inv[OF inv assms(2)] endpoint_step_frame[OF assms(2)]
  have pending: "last_pending (xs @ op # ys) = None \<Longrightarrow> last_pending (xs @ op' # ys) = None"
    using step(3) by (cases ys rule: rev_cases)
      (auto simp: append_assoc[symmetric] append_Cons[symmetric]
        simp del: append_assoc append_Cons split: if_splits)
  have but: "x \<in> set (butlast (xs @ op' # ys)) \<Longrightarrow>
      x \<in> set (butlast (xs @ op # ys)) \<or> (x = op' \<and> op \<in> set (butlast (xs @ op # ys)))" for x
    by (auto simp: butlast_append split: if_splits)
  have first: "\<forall>x \<in> set (butlast (xs @ op # ys)). \<not> is_recovery_pending x"
    using assms(1) unfolding endpoints_ok_def by blast
  have rest: "\<forall>x \<in> set (butlast (xs @ op' # ys)). \<not> is_recovery_pending x"
    using but first step(3) by blast
  show ?thesis
    using assms(1) step pending rest unfolding endpoints_ok_def by auto
qed

lemma update_endpoint_ok:
  assumes "update_endpoint i f ops = Ok (b, ops')" "endpoints_ok st l ops"
    and "\<And>op b op'. f op = Ok (b, op') \<Longrightarrow> endpoint_step op op'"
  shows "endpoints_ok st l ops'"
  using assms(1)
proof (rule update_endpoint_OkE)
  fix xs op ys op'
  assume "ops = xs @ op # ys" "f op = Ok (b, op')" "ops' = xs @ op' # ys"
  with assms(2) assms(3)[of op b op'] show ?thesis by (auto intro: endpoints_ok_step)
qed

lemma result_ok_orphan_lost:
  "result_ok st l (Some o1) res at \<Longrightarrow> \<not> is_terminal l \<Longrightarrow> result_ok st Lost (Some o1) res at"
  by (auto simp: result_ok_def)

lemma status_ok_orphan: "status_ok st l (Some o1) log \<Longrightarrow> status_ok st l' (Some o1) log"
  by (auto simp: status_ok_def)

lemma cancellation_ok_lost: "cancellation_ok o1 l c \<Longrightarrow> cancellation_ok o1 Lost c"
  by (auto simp: cancellation_ok_def)

lemma terminalize_ok:
  assumes "slot_ok ext r v j s" "endpoints_ok (offer_status s) (slot_lifecycle s) ops"
  shows "slot_ok ext r v j (terminalize_orphan_after_endpoint_resolution (s\<lparr>endpoint_operations := ops\<rparr>))"
proof (cases "orphan s")
  case None
  with assms show ?thesis
    by (simp add: terminalize_orphan_after_endpoint_resolution_def slot_ok_parts)
next
  case (Some o1)
  show ?thesis
  proof (cases "is_terminal (slot_lifecycle s) \<or> last_pending ops \<noteq> None")
    case True
    with assms Some show ?thesis
      by (auto simp: terminalize_orphan_after_endpoint_resolution_def slot_ok_parts
          endpoint_recovery_pending_def elim!: orphan_ok_mono)
  next
    case False
    have lost: "terminalize_orphan_after_endpoint_resolution (s\<lparr>endpoint_operations := ops\<rparr>) =
        s\<lparr>endpoint_operations := ops, slot_lifecycle := Lost\<rparr>"
      using False Some
      by (simp add: terminalize_orphan_after_endpoint_resolution_def endpoint_recovery_pending_def)
    show ?thesis
      unfolding lost using assms False Some
      by (auto simp: slot_ok_parts intro: result_ok_orphan_lost status_ok_orphan cancellation_ok_lost
          elim!: orphan_ok_mono endpoints_ok_lifecycle)
  qed
qed

lemma endpoints_ok_of: "slot_ok ext r v j s \<Longrightarrow>
  endpoints_ok (offer_status s) (slot_lifecycle s) (endpoint_operations s)"
  by (simp add: slot_ok_parts)

lemma slot_record_endpoint_cancellation_ok:
  assumes "slot_ok ext r v j s" "slot_record_endpoint_cancellation i s = Ok (b, s')"
  shows "slot_ok ext r v j s'"
proof -
  from assms(2) obtain ops where ops: "s' = terminalize_orphan_after_endpoint_resolution
      (s\<lparr>endpoint_operations := ops\<rparr>)"
    "update_endpoint i (\<lambda>op. Ok (request_cancellation op)) (endpoint_operations s) = Ok (b, ops)"
    by (auto simp: slot_record_endpoint_cancellation_def result_simps)
  have "endpoints_ok (offer_status s) (slot_lifecycle s) ops"
    by (rule update_endpoint_ok[OF ops(2) endpoints_ok_of[OF assms(1)]]) (auto intro: endpoint_step.intros)
  from terminalize_ok[OF assms(1) this] ops(1) show ?thesis by simp
qed

lemma slot_complete_endpoint_cancellation_ok:
  assumes "slot_ok ext r v j s" "slot_complete_endpoint_cancellation i s = Ok (b, s')"
  shows "slot_ok ext r v j s'"
proof -
  from assms(2) obtain ops where ops: "s' = terminalize_orphan_after_endpoint_resolution
      (s\<lparr>endpoint_operations := ops\<rparr>)"
    "update_endpoint i complete_cancellation (endpoint_operations s) = Ok (b, ops)"
    by (auto simp: slot_complete_endpoint_cancellation_def result_simps split: if_splits)
  have "endpoints_ok (offer_status s) (slot_lifecycle s) ops"
    by (rule update_endpoint_ok[OF ops(2) endpoints_ok_of[OF assms(1)]]) (auto intro: endpoint_step.intros)
  from terminalize_ok[OF assms(1) this] ops(1) show ?thesis by simp
qed

lemma slot_abandon_endpoint_operation_ok:
  assumes "slot_ok ext r v j s" "slot_abandon_endpoint_operation i s = Ok (b, s')"
  shows "slot_ok ext r v j s'"
proof -
  from assms(2) obtain ops where ops: "s' = terminalize_orphan_after_endpoint_resolution
      (s\<lparr>endpoint_operations := ops\<rparr>)"
    "update_endpoint i EndpointOperation_abandon (endpoint_operations s) = Ok (b, ops)"
    by (auto simp: slot_abandon_endpoint_operation_def result_simps split: if_splits)
  have "endpoints_ok (offer_status s) (slot_lifecycle s) ops"
    by (rule update_endpoint_ok[OF ops(2) endpoints_ok_of[OF assms(1)]]) (auto intro: endpoint_step.intros)
  from terminalize_ok[OF assms(1) this] ops(1) show ?thesis by simp
qed

text \<open>A committed invocation is still pending, so an orphan that waits for it keeps waiting.\<close>

lemma slot_commit_endpoint_invocation_ok:
  assumes "slot_ok ext r v j s" "slot_commit_endpoint_invocation i s = Ok (b, s')"
  shows "slot_ok ext r v j s'"
proof -
  from assms(2) obtain ops where ops: "s' = s\<lparr>endpoint_operations := ops\<rparr>"
    "update_endpoint i commit_invocation (endpoint_operations s) = Ok (b, ops)"
    by (auto simp: slot_commit_endpoint_invocation_def result_simps)
  have good: "endpoints_ok (offer_status s) (slot_lifecycle s) ops"
    by (rule update_endpoint_ok[OF ops(2) endpoints_ok_of[OF assms(1)]]) (auto intro: endpoint_step.intros)
  have "last_pending ops = None \<longleftrightarrow> last_pending (endpoint_operations s) = None"
    using ops(2)
  proof (rule update_endpoint_OkE)
    fix xs op ys op'
    assume *: "endpoint_operations s = xs @ op # ys" "commit_invocation op = Ok (b, op')" "ops = xs @ op' # ys"
    from *(2) have "is_recovery_pending op' = is_recovery_pending op"
      by (auto simp: commit_invocation_def is_recovery_pending_def split: EndpointOperationState.splits)
    with * show ?thesis by (cases ys rule: rev_cases)
        (auto simp: append_assoc[symmetric] append_Cons[symmetric] simp del: append_assoc append_Cons)
  qed
  with assms(1) ops(1) good show ?thesis
    by (auto simp: slot_ok_parts elim!: orphan_ok_mono)
qed

lemma slot_record_endpoint_result_ok:
  assumes "slot_ok ext r v j s" "slot_record_endpoint_result i res s = Ok (b, s')" "orphan s = None"
  shows "slot_ok ext r v j s'"
proof -
  from assms(2) obtain ops where ops: "s' = s\<lparr>endpoint_operations := ops\<rparr>"
    "update_endpoint i (record_result res) (endpoint_operations s) = Ok (b, ops)"
    by (auto simp: slot_record_endpoint_result_def result_simps)
  have "endpoints_ok (offer_status s) (slot_lifecycle s) ops"
    by (rule update_endpoint_ok[OF ops(2) endpoints_ok_of[OF assms(1)]]) (auto intro: endpoint_step.intros)
  with assms(1,3) ops(1) show ?thesis by (auto simp: slot_ok_parts)
qed

lemma sum_content_refs_eq: "sum_content_refs ops n = Some m \<Longrightarrow> m = n + content_refs ops"
proof (induction ops arbitrary: n)
  case (Cons op ops)
  then show ?case
    by (fastforce simp: usize_checked_add_def bind_eq_Some_conv split: if_splits)
qed simp

lemma sum_content_bytes_eq:
  "\<forall>op \<in> set ops. endpoint_operation_inv op \<Longrightarrow> sum_content_bytes ops n = Ok m \<Longrightarrow>
   unat m = unat n + content_charge ops"
proof (induction ops arbitrary: n)
  case (Cons op ops)
  then obtain b c where b: "accounted_content_bytes op = Ok b" "unat c = unat n + unat b"
    "sum_content_bytes ops c = Ok m"
    by (auto simp: sum_content_bytes_def result_simps checked_simps)
  moreover have "unat b = charge op" using Cons.prems(1) b(1) accounted_charge[of op] by fastforce
  ultimately show ?case using Cons.IH[of c] Cons.prems(1) by simp
qed (simp add: sum_content_bytes_def)

lemma slot_accept_endpoint_operation_ok:
  assumes "slot_ok ext r v j s" "slot_accept_endpoint_operation op s = Ok (b, s')"
    and "slot_lifecycle s \<noteq> Finalizing"
  shows "slot_ok ext r v j s'"
proof (cases b)
  case False
  with assms show ?thesis
    by (auto simp: slot_accept_endpoint_operation_def result_simps split: if_splits option.splits)
next
  case True
  let ?ops = "endpoint_operations s"
  from True assms(2) obtain n refs m where
    s: "offer_status s = OfferAccepted" "\<not> is_terminal (slot_lifecycle s)" "orphan s = None"
      "EndpointOperation_validate op = Ok ()" "endpoint_state op = Accepted"
      "find (\<lambda>x. endpoint_operation_id x = endpoint_operation_id op) ?ops = None"
      "last_pending ?ops = None" "length ?ops < MAX_ENDPOINT_OPERATIONS_PER_JOB"
    and sums: "sum_content_refs ?ops (accounted_content_refs op) = Some refs"
      "refs \<le> MAX_ENDPOINT_CONTENT_REFS_PER_SLOT" "accounted_content_bytes op = Ok n"
      "sum_content_bytes ?ops n = Ok m" "m \<le> MAX_ENDPOINT_CONTENT_BYTES_PER_SLOT"
    and s': "s' = s\<lparr>endpoint_operations := ?ops @ [op]\<rparr>"
    by (auto simp: slot_accept_endpoint_operation_def result_simps not_le not_less
        split: if_splits option.splits)
  have old: "endpoints_ok (offer_status s) (slot_lifecycle s) ?ops"
    by (rule endpoints_ok_of[OF assms(1)])
  have inv: "endpoint_operation_inv op" using s(4) by (simp add: endpoint_validate_iff)
  have "unat n = charge op" using accounted_charge[OF inv] sums(3) by fastforce
  with sum_content_bytes_eq[OF _ sums(4)] old sums(5)
  have bytes: "content_charge (?ops @ [op]) \<le> unat MAX_ENDPOINT_CONTENT_BYTES_PER_SLOT"
    by (simp add: endpoints_ok_def word_le_nat_alt)
  have resolved: "\<forall>x \<in> set ?ops. \<not> is_recovery_pending x"
    using old s(7) by (cases ?ops rule: rev_cases) (auto simp: endpoints_ok_def split: if_splits)
  have fresh: "endpoint_operation_id op \<notin> endpoint_operation_id ` set ?ops"
    using s(6) by (auto simp: find_None_iff)
  have "endpoints_ok (offer_status s) (slot_lifecycle s) (?ops @ [op])"
    using old inv bytes resolved fresh s(1,2,8) sums(2) sum_content_refs_eq[OF sums(1)] assms(3)
    by (auto simp: endpoints_ok_def)
  with assms(1) s(3) show ?thesis unfolding s' by (simp add: slot_ok_parts)
qed

lemma slot_cancel_ok:
  assumes "slot_ok ext r v j s" "slot_cancellation_replay c s = Ok False" "slot_cancel c s = Ok s'"
    and "command_sequence (offer_command (offer s)) < command_sequence (cancellation_command c)"
  shows "slot_ok ext r v j s'"
proof -
  let ?ops = "endpoint_operations s"
  have s: "orphan s = None" "offer_status s \<noteq> OfferRejected" "\<not> is_terminal (slot_lifecycle s)"
    using assms(2,3)
    by (auto simp: slot_cancellation_replay_def slot_cancel_def result_simps terminal_no_edges
        split: if_splits)
  obtain ops where s': "s' = s\<lparr>cancellation := Some c, slot_lifecycle := Cancelling,
      endpoint_operations := ops\<rparr>"
    and ops: "ops = ?ops \<or> (\<exists>xs op. ?ops = xs @ [op] \<and> ops = xs @ [snd (request_cancellation op)])"
  proof (cases "last_pending ?ops")
    case None
    with assms(3) that[of ?ops] show thesis by (auto simp: slot_cancel_def result_simps Let_def)
  next
    case (Some op)
    then obtain xs where "?ops = xs @ [op]"
      by (cases ?ops rule: rev_cases) (auto split: if_splits)
    with assms(3) Some that[of "xs @ [snd (request_cancellation op)]"] show thesis
      by (auto simp: slot_cancel_def result_simps Let_def)
  qed
  have old: "endpoints_ok (offer_status s) Cancelling ?ops"
    using endpoints_ok_of[OF assms(1)] by (rule endpoints_ok_lifecycle) simp_all
  have step: "endpoint_step op (snd (request_cancellation op))" for op
    by (rule endpoint_step.intros(2)[of _ "fst (request_cancellation op)"]) simp
  have "endpoints_ok (offer_status s) Cancelling ops"
    using ops old endpoints_ok_step[OF _ step, of "offer_status s" Cancelling _ _ "[]"] by auto
  moreover have "status_ok (offer_status s) Cancelling None (log_delivery s)"
    using assms(1) s by (auto simp: slot_ok_parts status_ok_def)
  ultimately show ?thesis
    using assms(1,4) s unfolding s'
    by (auto simp: slot_ok_parts cancellation_ok_def intro: result_ok_not_terminal)
qed

section \<open>Provider operations\<close>

lemma replay_snoc:
  "replay_provider_operations c (ops @ [op]) = Ok r \<longleftrightarrow>
     distinct (map provider_operation_id (ops @ [op])) \<and> (\<forall>x \<in> set ops. \<not> provider_is_pending x) \<and>
     (\<exists>s. try_fold recovery_apply ops c = Ok s \<and> recovery_apply op s = Ok r)"
  by (auto simp: replay_eq_Ok try_fold_append result_simps)

text \<open>Settling the last operation: what it does to the live sandbox.\<close>

lemma provider_ok_settle:
  assumes "provider_ok st d c (ops @ [op]) box" "provider_outcome op \<noteq> Applied"
  shows "provider_ok st d c (ops @ [op\<lparr>provider_outcome := out\<rparr>])
    (if out \<noteq> Applied then box else case provider_kind op of
       CreateSandbox \<Rightarrow> Some x | DestroySandbox \<Rightarrow> None | _ \<Rightarrow> box)"
proof -
  from assms(1) obtain r where r: "replay_provider_operations c (ops @ [op]) = Ok r"
    "(box \<noteq> None) = sandbox_live r" by (auto simp: provider_ok_def)
  from r(1) assms(2) have fold: "try_fold recovery_apply ops c = Ok r"
    and can: "can_begin r (provider_kind op)"
    by (auto simp: replay_snoc recovery_apply_def split: if_splits)
  let ?op = "op\<lparr>provider_outcome := out\<rparr>"
  obtain r' where r': "recovery_apply ?op r = Ok r'"
    and live: "sandbox_live r' = (if out \<noteq> Applied then sandbox_live r else case provider_kind op of
       CreateSandbox \<Rightarrow> True | DestroySandbox \<Rightarrow> False | _ \<Rightarrow> sandbox_live r)"
    using can by (cases "provider_kind op"; cases "out = Applied") (auto simp: recovery_apply_def)
  from r(1) r' fold have "replay_provider_operations c (ops @ [?op]) = Ok r'"
    by (auto simp: replay_snoc)
  with assms(1) r(2) live show ?thesis
    by (auto simp: provider_ok_def split: ProviderOperationKind.splits)
qed

lemma last_opt_split:
  assumes "last_opt xs = Some x"
  shows "xs = butlast xs @ [x]"
  using assms by (auto simp: last_opt_eq_Some)

lemma slot_record_sandbox_created_ok:
  assumes "slot_ok ext r v j s" "slot_record_sandbox_created i x s = Ok (b, s')"
  shows "slot_ok ext r v j s'"
proof (cases b)
  case True
  from True assms(2) obtain op where op: "last_opt (provider_operations s) = Some op"
    "provider_kind op = CreateSandbox" "provider_outcome op \<noteq> Applied"
    "s' = s\<lparr>provider_operations := butlast (provider_operations s) @ [op\<lparr>provider_outcome := Applied\<rparr>],
            sandbox := Some x\<rparr>"
    by (auto simp: slot_record_sandbox_created_def mark_applied_def result_simps
        split: if_splits option.splits ProviderOperationOutcome.splits ProviderFailureOutcome.splits)
  have "provider_ok (offer_status s) (runtime_authority_delivery s) (provider_checkpoint s)
      (butlast (provider_operations s) @ [op]) (sandbox s)"
    using assms(1) last_opt_split[OF op(1)] by (simp add: slot_ok_parts)
  from provider_ok_settle[OF this op(3), of Applied x] op(2,4) assms(1)
  show ?thesis by (simp add: slot_ok_parts)
qed (use assms in \<open>auto simp: slot_record_sandbox_created_def mark_applied_def result_simps
       split: if_splits option.splits ProviderOperationOutcome.splits ProviderFailureOutcome.splits\<close>)

lemma butlast_last_self: "last_opt xs = Some x \<Longrightarrow> s\<lparr>provider_operations := butlast xs @ [x]\<rparr> = s\<lparr>provider_operations := xs\<rparr>"
  by (simp add: last_opt_split[symmetric])

lemma slot_complete_provider_operation_ok:
  assumes "slot_ok ext r v j s" "slot_complete_provider_operation i s = Ok (b, s')"
  shows "slot_ok ext r v j s'"
proof -
  from assms(2) obtain op where op: "last_opt (provider_operations s) = Some op"
    "provider_kind op \<noteq> CreateSandbox"
    and cases: "b \<and> provider_outcome op \<noteq> Applied \<and>
       s' = s\<lparr>provider_operations := butlast (provider_operations s) @ [op\<lparr>provider_outcome := Applied\<rparr>],
              sandbox := (if provider_kind op = DestroySandbox then None else sandbox s)\<rparr> \<or>
     \<not> b \<and> s' = s\<lparr>provider_operations := butlast (provider_operations s) @ [op]\<rparr>"
    by (cases "last_opt (provider_operations s)")
       (auto simp: slot_complete_provider_operation_def mark_applied_def result_simps Let_def
        split: if_splits option.splits ProviderOperationOutcome.splits ProviderFailureOutcome.splits)
  have old: "provider_ok (offer_status s) (runtime_authority_delivery s) (provider_checkpoint s)
      (butlast (provider_operations s) @ [op]) (sandbox s)"
    using assms(1) last_opt_split[OF op(1)] by (simp add: slot_ok_parts)
  from cases show ?thesis
  proof
    assume "\<not> b \<and> s' = s\<lparr>provider_operations := butlast (provider_operations s) @ [op]\<rparr>"
    then show ?thesis using assms(1) last_opt_split[OF op(1)] by simp
  next
    assume *: "b \<and> provider_outcome op \<noteq> Applied \<and>
       s' = s\<lparr>provider_operations := butlast (provider_operations s) @ [op\<lparr>provider_outcome := Applied\<rparr>],
              sandbox := (if provider_kind op = DestroySandbox then None else sandbox s)\<rparr>"
    from provider_ok_settle[OF old, of Applied undefined] * op(2) assms(1)
    show ?thesis by (cases "provider_kind op") (simp_all add: slot_ok_parts)
  qed
qed

lemma slot_fail_provider_operation_ok:
  assumes "slot_ok ext r v j s" "slot_fail_provider_operation i f s = Ok (b, s')"
  shows "slot_ok ext r v j s'"
proof -
  from assms(2) obtain op op' where op: "last_opt (provider_operations s) = Some op"
    "resolve_failure f op = Ok (b, op')"
    "s' = s\<lparr>provider_operations := butlast (provider_operations s) @ [op']\<rparr>"
    by (auto simp: slot_fail_provider_operation_def result_simps split: if_splits option.splits)
  from op(2) have "op' = op \<or> provider_outcome op \<noteq> Applied \<and>
      op' = op\<lparr>provider_outcome := OutcomeFailed f\<rparr>"
    by (auto simp: resolve_failure_def split: ProviderOperationOutcome.splits if_splits)
  then show ?thesis
  proof
    assume "op' = op"
    then show ?thesis using assms(1) op(3) last_opt_split[OF op(1)] by simp
  next
    assume *: "provider_outcome op \<noteq> Applied \<and> op' = op\<lparr>provider_outcome := OutcomeFailed f\<rparr>"
    have "provider_ok (offer_status s) (runtime_authority_delivery s) (provider_checkpoint s)
      (butlast (provider_operations s) @ [op]) (sandbox s)"
      using assms(1) last_opt_split[OF op(1)] by (simp add: slot_ok_parts)
    from provider_ok_settle[OF this, of "OutcomeFailed f"] * op(3) assms(1)
    show ?thesis by (simp add: slot_ok_parts)
  qed
qed

lemma compact_oldest_ok:
  assumes "compact_oldest s = Ok s'"
    and ok: "provider_ok st d (provider_checkpoint s) (provider_operations s) box"
    and last: "\<not> (\<exists>op. last_opt (provider_operations s) = Some op \<and> provider_is_pending op)"
  obtains c ops where "s' = s\<lparr>provider_operations := ops, provider_checkpoint := c\<rparr>"
    "length ops < MAX_PROVIDER_OPERATIONS_PER_SLOT" "is_coherent c"
    "set ops \<subseteq> set (provider_operations s)" "\<forall>op \<in> set ops. \<not> provider_is_pending op"
    "\<exists>r. replay_provider_operations c ops = Ok r \<and> ((box \<noteq> None) = sandbox_live r)"
proof -
  let ?c = "provider_checkpoint s" and ?ops = "provider_operations s"
  obtain r where r: "replay_provider_operations ?c ?ops = Ok r" "(box \<noteq> None) = sandbox_live r"
    "is_coherent ?c" "length ?ops \<le> MAX_PROVIDER_OPERATIONS_PER_SLOT"
    using ok by (auto simp: provider_ok_def)
  have settled: "\<forall>op \<in> set ?ops. \<not> provider_is_pending op"
    using r(1) last by (cases ?ops rule: rev_cases) (auto simp: replay_snoc)
  show thesis
  proof (cases "length ?ops < MAX_PROVIDER_OPERATIONS_PER_SLOT")
    case True
    with assms(1) have "s' = s\<lparr>provider_operations := ?ops, provider_checkpoint := ?c\<rparr>"
      by (cases ?ops) (auto simp: compact_oldest_def)
    from that[OF this True r(3) subset_refl settled] r(1,2) show thesis by blast
  next
    case False
    then obtain op ops where ops: "?ops = op # ops"
      by (cases ?ops) (auto simp: MAX_PROVIDER_OPERATIONS_PER_SLOT_def)
    with assms(1) False obtain c where c: "recovery_compact op ?c = Ok c"
      "s' = s\<lparr>provider_operations := ops, provider_checkpoint := c\<rparr>"
      by (auto simp: compact_oldest_def result_simps)
    have "replay_provider_operations c ops = Ok (recovery_count (compacted_operations c) r)"
      using compact_replay[OF _ c(1)] r(1) ops by simp
    moreover have "sandbox_live (recovery_count (compacted_operations c) r) = sandbox_live r"
      by (simp add: recovery_count_def)
    moreover have "length ops < MAX_PROVIDER_OPERATIONS_PER_SLOT" using r(4) ops by simp
    moreover have "set ops \<subseteq> set ?ops" using ops by auto
    ultimately show thesis
      using that[OF c(2) _ recovery_compact_coherent[OF r(3) c(1)]] settled ops r(2)
      by (metis list.set_intros(2))
  qed
qed

lemma slot_record_provider_intent_ok:
  assumes "slot_ok ext r v j s" "slot_record_provider_intent op s = Ok (b, s')"
    and "delivery_is_acknowledged (runtime_authority_delivery s)"
  shows "slot_ok ext r v j s'"
proof (cases b)
  case False
  with assms show ?thesis
    by (auto simp: slot_record_provider_intent_def Let_def result_simps split: if_splits option.splits)
next
  case True
  from True assms(2) obtain t q where
    s: "offer_status s = OfferAccepted" "provider_outcome op = OutcomePending"
      "find (\<lambda>x. provider_operation_id x = provider_operation_id op) (provider_operations s) = None"
    and last: "\<not> (case last_opt (provider_operations s) of
                Some latest \<Rightarrow> provider_is_pending latest | None \<Rightarrow> False)"
    and t: "compact_oldest s = Ok t"
      "replay_provider_operations (provider_checkpoint t) (provider_operations t) = Ok q"
      "can_begin q (provider_kind op)"
      "s' = t\<lparr>provider_operations := provider_operations t @ [op]\<rparr>"
    by (auto simp: slot_record_provider_intent_def Let_def result_simps split: if_splits option.splits)
  have ok: "provider_ok (offer_status s) (runtime_authority_delivery s) (provider_checkpoint s)
      (provider_operations s) (sandbox s)" using assms(1) by (simp add: slot_ok_parts)
  have last': "\<not> (\<exists>op. last_opt (provider_operations s) = Some op \<and> provider_is_pending op)"
    using last by auto
  obtain c ops where c: "t = s\<lparr>provider_operations := ops, provider_checkpoint := c\<rparr>"
    "length ops < MAX_PROVIDER_OPERATIONS_PER_SLOT" "is_coherent c"
    "set ops \<subseteq> set (provider_operations s)" "\<forall>op \<in> set ops. \<not> provider_is_pending op"
    "\<exists>r. replay_provider_operations c ops = Ok r \<and> ((sandbox s \<noteq> None) = sandbox_live r)"
    using compact_oldest_ok[OF t(1) ok last'] .
  have replay: "replay_provider_operations c ops = Ok q" using t(2) c(1) by simp
  have same: "recovery_apply op q = Ok q" using t(3) s(2) by (simp add: recovery_apply_def)
  have "provider_operation_id op \<notin> provider_operation_id ` set ops"
    using s(3) c(4) by (auto simp: find_None_iff)
  with replay same c(5) have "replay_provider_operations c (ops @ [op]) = Ok q"
    by (auto simp: replay_snoc) (auto simp: replay_eq_Ok)
  with c(2,3,6) replay s(1) assms(3)
  have "provider_ok (offer_status s) (runtime_authority_delivery s) c (ops @ [op]) (sandbox s)"
    by (auto simp: provider_ok_def)
  with assms(1) c(1) t(4) show ?thesis by (simp add: slot_ok_parts)
qed

section \<open>Logs, outbound operations and orphans\<close>

lemma slot_advance_outbound_operation_ok:
  assumes "slot_ok ext r v j s" "slot_advance_outbound_operation n s = Ok (b, s')"
  shows "slot_ok ext r v j s'"
  using assms by (auto simp: slot_advance_outbound_operation_def result_simps slot_ok_parts split: if_splits)

lemma slot_ok_log:
  assumes "slot_ok ext r v j s" "offer_status s = OfferAccepted" "cursor_inv c"
  shows "slot_ok ext r v j (s\<lparr>log_delivery := Some c\<rparr>)"
  using assms by (auto simp: slot_ok_parts log_ok_def elim!: orphan_ok_mono)

lemma slot_log_accepted:
  "slot_ok ext r v j s \<Longrightarrow> log_delivery s = Some c \<Longrightarrow> offer_status s = OfferAccepted \<and> cursor_inv c"
  by (auto simp: slot_ok_parts log_ok_def)

lemma slot_open_log_stream_ok:
  assumes "slot_ok ext r v j s" "slot_open_log_stream i s = Ok (b, s')"
  shows "slot_ok ext r v j s'"
  using assms slot_ok_log[OF assms(1) _ new_cursor_inv]
  by (auto simp: slot_open_log_stream_def split: if_splits option.splits)

lemma slot_record_log_segment_ok:
  assumes "slot_ok ext r v j s" "slot_record_log_segment p at s = Ok (b, s')"
    and "unat (last_sequence (publication_segment p)) + 1 < 2 ^ 64"
  shows "slot_ok ext r v j s'"
proof (cases b)
  case True
  with assms(2) obtain c c' where c: "log_delivery s = Some c" "record_segment p at c = Ok c'"
    "s' = s\<lparr>log_delivery := Some c'\<rparr>"
    by (auto simp: slot_record_log_segment_def result_simps split: if_splits)
  from slot_log_accepted[OF assms(1) c(1)] record_segment_inv[OF _ c(2) assms(3)] c(3)
  show ?thesis using slot_ok_log[OF assms(1)] by simp
qed (use assms in \<open>auto simp: slot_record_log_segment_def result_simps split: if_splits\<close>)

lemma slot_seal_log_segment_ok:
  assumes "slot_ok ext r v j s" "slot_seal_log_segment i x s = Ok (b, s')"
  shows "slot_ok ext r v j s'"
proof -
  from assms(2) obtain c c' where c: "log_delivery s = Some c" "seal_segment x c = Ok (b, c')"
    "s' = s\<lparr>log_delivery := Some c'\<rparr>"
    by (auto simp: slot_seal_log_segment_def result_simps split: if_splits)
  from slot_log_accepted[OF assms(1) c(1)] seal_segment_inv[OF _ c(2)] c(3)
  show ?thesis using slot_ok_log[OF assms(1)] by simp
qed

lemma slot_acknowledge_log_segment_ok:
  assumes "slot_ok ext r v j s" "slot_acknowledge_log_segment a s = Ok (b, s')"
  shows "slot_ok ext r v j s'"
proof -
  from assms(2) obtain c c' where c: "log_delivery s = Some c" "acknowledge_segment a c = Ok (b, c')"
    "acknowledgement_stream_id a = log_stream_id c" "s' = s\<lparr>log_delivery := Some c'\<rparr>"
    by (auto simp: slot_acknowledge_log_segment_def result_simps split: if_splits)
  from slot_log_accepted[OF assms(1) c(1)] acknowledge_segment_inv[OF _ c(2,3)] c(4)
  show ?thesis using slot_ok_log[OF assms(1)] by simp
qed

lemma slot_abandon_orphan_delivery_ok:
  assumes "slot_ok ext r v j s" "slot_abandon_orphan_delivery i d x s = Ok (b, s')"
  shows "slot_ok ext r v j s'"
proof -
  from assms(2) obtain o1 o2 where o1: "delivery_exists d s" "orphan s = Some o1"
    "OrphanRecord_abandon i d x o1 = Ok (b, o2)" "s' = s\<lparr>orphan := Some o2\<rparr>"
    by (auto simp: slot_abandon_orphan_delivery_def result_simps split: if_splits)
  from o1(3) have o2: "\<forall>e. e \<noteq> d \<longrightarrow> is_abandoned e o2 = is_abandoned e o1"
    "orphan_session_id o2 = orphan_session_id o1" "orphan_guard o2 = orphan_guard o1"
    by (auto elim: OrphanRecord_abandon_OkE)
  have "orphan_ok v (slot_guard s) (slot_lifecycle s) (endpoint_operations s) (terminal_result s)
     (log_delivery s) (rejection s) (Some o2)"
    using assms(1) o1(1,2) o2
    by (cases d) (auto simp: slot_ok_parts orphan_ok_def delivery_exists_def)
  moreover have "result_ok st l (Some o1) res at = result_ok st l (Some o2) res at" for st l res at
    by (simp add: result_ok_def)
  moreover have "status_ok st l (Some o1) log = status_ok st l (Some o2) log" for st l log
    by (simp add: status_ok_def)
  ultimately show ?thesis using assms(1) o1(2,4) by (simp add: slot_ok_parts)
qed

lemma slot_authorize_orphan_ok:
  assumes "slot_ok ext r v j s" "slot_authorize_orphan g s = Ok (b, s')"
    and "claim_session_id (grant_claim g) = v" "claim_guard (grant_claim g) = slot_guard s"
  shows "slot_ok ext r v j s'"
proof (cases "orphan s")
  case (Some o1)
  with assms show ?thesis by (auto simp: slot_authorize_orphan_def split: if_splits)
next
  case None
  let ?o = "OrphanRecord_from_grant g"
  have fence: "orphan_session_id ?o = v" "orphan_guard ?o = slot_guard s"
    using assms(3,4) by (simp_all add: OrphanRecord_from_grant_def)
  have orph: "is_terminal l \<or> last_pending ops \<noteq> None \<Longrightarrow>
      orphan_ok v (slot_guard s) l ops res log rej (Some ?o)" for l ops res log rej
    using fence by (simp add: orphan_ok_def)
  have more: "result_ok st l None res at \<Longrightarrow> result_ok st l (Some ?o) res at"
    "result_ok st l None res at \<Longrightarrow> \<not> is_terminal l \<Longrightarrow> result_ok st Lost (Some ?o) res at"
    "status_ok st l None log \<Longrightarrow> status_ok st l' (Some ?o) log" for st l l' res at log
    by (auto simp: result_ok_def status_ok_def)
  show ?thesis
  proof (cases "is_terminal (slot_lifecycle s) \<or> last_pending (endpoint_operations s) \<noteq> None")
    case True
    with None assms(2) have "s' = s\<lparr>orphan := Some ?o\<rparr>"
      by (auto simp: slot_authorize_orphan_def Let_def endpoint_recovery_pending_def)
    with assms(1) None True orph show ?thesis
      by (auto simp: slot_ok_parts intro: more)
  next
    case False
    with None assms(2) have "s' = s\<lparr>orphan := Some ?o, slot_lifecycle := Lost\<rparr>"
      by (auto simp: slot_authorize_orphan_def Let_def endpoint_recovery_pending_def)
    with assms(1) None False orph show ?thesis
      by (auto simp: slot_ok_parts intro: more cancellation_ok_lost elim!: endpoints_ok_lifecycle)
  qed
qed

section \<open>All operations\<close>

text \<open>
  What an operation leaves to the validation that runs before every commit: the runtime authority must
  be acknowledged before a provider intent, no endpoint operation is accepted while finalizing, no
  endpoint result is taken for an orphan, and the last log sequence is never used.
\<close>

fun commit_guard :: "SlotMutation \<Rightarrow> SlotSnapshot \<Rightarrow> bool" where
  "commit_guard (RecordProviderIntent op) s = delivery_is_acknowledged (runtime_authority_delivery s)"
| "commit_guard (AcceptEndpointOperation op) s = (slot_lifecycle s \<noteq> Finalizing)"
| "commit_guard (RecordEndpointResult i res) s = (orphan s = None)"
| "commit_guard (RecordLogSegment p at) s = (unat (last_sequence (publication_segment p)) + 1 < 2 ^ 64)"
| "commit_guard _ s = True"

lemmas slot_operations_ok =
  slot_accept_offer_ok slot_record_runtime_authority_delivery_ok
  slot_acknowledge_runtime_authority_delivery_ok slot_reject_offer_ok slot_acknowledge_offer_rejection_ok
  slot_renew_lease_ok slot_transition_lifecycle_ok slot_record_terminal_result_ok
  slot_acknowledge_terminal_result_ok slot_accept_endpoint_operation_ok
  slot_commit_endpoint_invocation_ok slot_record_endpoint_cancellation_ok
  slot_complete_endpoint_cancellation_ok slot_abandon_endpoint_operation_ok
  slot_record_endpoint_result_ok slot_record_provider_intent_ok slot_record_sandbox_created_ok
  slot_complete_provider_operation_ok slot_fail_provider_operation_ok
  slot_advance_outbound_operation_ok slot_open_log_stream_ok slot_record_log_segment_ok
  slot_seal_log_segment_ok slot_acknowledge_log_segment_ok slot_abandon_orphan_delivery_ok

lemma apply_slot_ok:
  assumes "slot_ok ext r v j s" "apply_slot m s = Ok (b, s')" "commit_guard m s"
  shows "slot_ok ext r v j s'"
  using assms by (cases m) (simp_all, (erule (1) slot_operations_ok; simp)+)

end
