(* ===== verification/SlotRetry.thy ===== *)
theory SlotRetry
  imports SlotPreserve
begin

text \<open>
  Retries of slot operations.  A runner repeats an operation after a lost reply or a restart; a
  repetition of an applied operation is recognised and changes nothing.  No operation touches the offer or
  the recorded cancellation of its slot.
\<close>

section \<open>Fields no operation touches\<close>

definition same_offer :: "SlotSnapshot \<Rightarrow> SlotSnapshot \<Rightarrow> bool" where
  "same_offer s s' \<longleftrightarrow> offer s' = offer s \<and> cancellation s' = cancellation s"

lemma terminalize_same_offer [simp]:
  "same_offer s (terminalize_orphan_after_endpoint_resolution t) = same_offer s t"
  by (simp add: same_offer_def terminalize_orphan_after_endpoint_resolution_def)

lemma apply_slot_same_offer_lease:
  "slot_accept_offer s = Ok (b, s') \<Longrightarrow> same_offer s s'"
  "slot_record_runtime_authority_delivery d s = Ok (b, s') \<Longrightarrow> same_offer s s'"
  "slot_acknowledge_runtime_authority_delivery g x i s = Ok (b, s') \<Longrightarrow> same_offer s s'"
  "slot_reject_offer y i at s = Ok (b, s') \<Longrightarrow> same_offer s s'"
  "slot_acknowledge_offer_rejection i s = Ok (b, s') \<Longrightarrow> same_offer s s'"
  "slot_renew_lease e s = Ok (b, s') \<Longrightarrow> same_offer s s'"
  "slot_transition_lifecycle l s = Ok (b, s') \<Longrightarrow> same_offer s s'"
  "slot_record_terminal_result l z at s = Ok (b, s') \<Longrightarrow> same_offer s s'"
  "slot_acknowledge_terminal_result i s = Ok (b, s') \<Longrightarrow> same_offer s s'"
  by (auto simp: same_offer_def result_simps slot_accept_offer_def
      slot_record_runtime_authority_delivery_def slot_acknowledge_runtime_authority_delivery_def
      slot_reject_offer_def slot_acknowledge_offer_rejection_def slot_renew_lease_def
      slot_transition_lifecycle_def slot_record_terminal_result_def
      slot_acknowledge_terminal_result_def split: if_splits option.splits LeaseOfferStatus.splits)

lemma apply_slot_same_offer_endpoint:
  "slot_accept_endpoint_operation op s = Ok (b, s') \<Longrightarrow> same_offer s s'"
  "slot_commit_endpoint_invocation i s = Ok (b, s') \<Longrightarrow> same_offer s s'"
  "slot_record_endpoint_cancellation i s = Ok (b, s') \<Longrightarrow> same_offer s s'"
  "slot_complete_endpoint_cancellation i s = Ok (b, s') \<Longrightarrow> same_offer s s'"
  "slot_abandon_endpoint_operation i s = Ok (b, s') \<Longrightarrow> same_offer s s'"
  "slot_record_endpoint_result i res s = Ok (b, s') \<Longrightarrow> same_offer s s'"
  by (auto simp: result_simps slot_accept_endpoint_operation_def slot_commit_endpoint_invocation_def
      slot_record_endpoint_cancellation_def slot_complete_endpoint_cancellation_def
      slot_abandon_endpoint_operation_def slot_record_endpoint_result_def
      split: if_splits option.splits)
     (simp_all add: same_offer_def)

lemma compact_oldest_same_offer: "compact_oldest s = Ok s' \<Longrightarrow> same_offer s s' \<and> orphan s' = orphan s \<and>
   slot_lifecycle s' = slot_lifecycle s \<and> offer_status s' = offer_status s"
  by (auto simp: compact_oldest_def same_offer_def result_simps split: list.splits if_splits)

lemma apply_slot_same_offer_provider:
  "slot_record_provider_intent p s = Ok (b, s') \<Longrightarrow> same_offer s s'"
  "slot_record_sandbox_created i x s = Ok (b, s') \<Longrightarrow> same_offer s s'"
  "slot_complete_provider_operation i s = Ok (b, s') \<Longrightarrow> same_offer s s'"
  "slot_fail_provider_operation i f s = Ok (b, s') \<Longrightarrow> same_offer s s'"
proof -
  show "slot_record_provider_intent p s = Ok (b, s') \<Longrightarrow> same_offer s s'"
    by (auto simp: slot_record_provider_intent_def Let_def result_simps same_offer_def
        dest!: compact_oldest_same_offer split: if_splits option.splits)
qed (auto simp: same_offer_def result_simps slot_record_sandbox_created_def
      slot_complete_provider_operation_def slot_fail_provider_operation_def Let_def
      split: if_splits option.splits)

lemma apply_slot_same_offer_log:
  "slot_advance_outbound_operation n s = Ok (b, s') \<Longrightarrow> same_offer s s'"
  "slot_open_log_stream i s = Ok (b, s') \<Longrightarrow> same_offer s s'"
  "slot_record_log_segment p at s = Ok (b, s') \<Longrightarrow> same_offer s s'"
  "slot_seal_log_segment i x s = Ok (b, s') \<Longrightarrow> same_offer s s'"
  "slot_acknowledge_log_segment a s = Ok (b, s') \<Longrightarrow> same_offer s s'"
  "slot_abandon_orphan_delivery i d y s = Ok (b, s') \<Longrightarrow> same_offer s s'"
  by (auto simp: same_offer_def result_simps slot_advance_outbound_operation_def
      slot_open_log_stream_def slot_record_log_segment_def slot_seal_log_segment_def
      slot_acknowledge_log_segment_def slot_abandon_orphan_delivery_def
      split: if_splits option.splits)

lemmas apply_slot_same_offers = apply_slot_same_offer_lease apply_slot_same_offer_endpoint
  apply_slot_same_offer_provider apply_slot_same_offer_log

lemma apply_slot_same_offer: "apply_slot m s = Ok (b, s') \<Longrightarrow> same_offer s s'"
  by (cases m) (simp_all, (erule apply_slot_same_offers)+)

lemma slot_authorize_orphan_same_offer: "slot_authorize_orphan g s = Ok (b, s') \<Longrightarrow> same_offer s s'"
  by (auto simp: slot_authorize_orphan_def same_offer_def Let_def split: option.splits if_splits)

section \<open>Recognised retries\<close>

lemma retry_lease:
  "slot_accept_offer s = Ok (True, s') \<Longrightarrow> slot_accept_offer s' = Ok (False, s')"
  "slot_record_runtime_authority_delivery d s = Ok (True, s') \<Longrightarrow>
     slot_record_runtime_authority_delivery d s' = Ok (False, s')"
  "slot_reject_offer y i at s = Ok (True, s') \<Longrightarrow> slot_reject_offer y i at s' = Ok (False, s')"
  "slot_acknowledge_offer_rejection i s = Ok (True, s') \<Longrightarrow>
     slot_acknowledge_offer_rejection i s' = Ok (False, s')"
  "slot_renew_lease e s = Ok (True, s') \<Longrightarrow> slot_renew_lease e s' = Ok (False, s')"
  "slot_transition_lifecycle l s = Ok (True, s') \<Longrightarrow> slot_transition_lifecycle l s' = Ok (False, s')"
  "slot_record_terminal_result l z at s = Ok (True, s') \<Longrightarrow>
     slot_record_terminal_result l z at s' = Ok (False, s')"
  "slot_acknowledge_terminal_result i s = Ok (True, s') \<Longrightarrow>
     slot_acknowledge_terminal_result i s' = Ok (False, s')"
  by (auto simp: result_simps slot_accept_offer_def slot_record_runtime_authority_delivery_def
      slot_reject_offer_def slot_acknowledge_offer_rejection_def slot_renew_lease_def
      slot_transition_lifecycle_def slot_record_terminal_result_def
      slot_acknowledge_terminal_result_def LeaseRejectionRecord_new_def acknowledge_response_def
      matches_unacknowledged_def TerminalResultRecord_acknowledge_def endpoint_recovery_pending_def
      split: if_splits option.splits LeaseOfferStatus.splits)

lemma retry_acknowledge_runtime_authority:
  assumes "slot_acknowledge_runtime_authority_delivery g x i s = Ok (True, s')"
  shows "slot_acknowledge_runtime_authority_delivery g x i s' = Ok (False, s')"
proof -
  from assms obtain d d' where d: "runtime_authority_delivery s = Some d"
    "RuntimeAuthorityDeliveryRecord_acknowledge g x i d = Ok (True, d')"
    "s' = s\<lparr>runtime_authority_delivery := Some d'\<rparr>"
    by (auto simp: slot_acknowledge_runtime_authority_delivery_def result_simps)
  from d(2) have "RuntimeAuthorityDeliveryRecord_acknowledge g x i d' = Ok (False, d')"
    by (rule RuntimeAuthorityDeliveryRecord_acknowledge_OkE)
  with d(3) show ?thesis by (simp add: slot_acknowledge_runtime_authority_delivery_def)
qed

lemma update_endpoint_retry:
  assumes "update_endpoint i f ops = Ok (b, ops')"
    and "\<And>op b op'. f op = Ok (b, op') \<Longrightarrow>
      endpoint_operation_id op' = endpoint_operation_id op \<and> f op' = Ok (False, op')"
  shows "update_endpoint i f ops' = Ok (False, ops')"
  using assms(1)
proof (rule update_endpoint_OkE)
  fix xs op ys op'
  assume *: "\<forall>x \<in> set xs. endpoint_operation_id x \<noteq> i" "endpoint_operation_id op = i"
    "f op = Ok (b, op')" "ops' = xs @ op' # ys"
  from assms(2)[OF *(3)] * show ?thesis by (simp add: update_endpoint_at)
qed

lemma update_endpoint_unchanged:
  assumes "update_endpoint i f ops = Ok (False, ops')" "\<And>op op'. f op = Ok (False, op') \<Longrightarrow> op' = op"
  shows "ops' = ops"
  using assms(1) by (rule update_endpoint_OkE) (use assms(2) in auto)

lemma endpoint_step_retries:
  "commit_invocation op = Ok (b, op') \<Longrightarrow>
     endpoint_operation_id op' = endpoint_operation_id op \<and> commit_invocation op' = Ok (False, op')"
  "request_cancellation op = (b, op') \<Longrightarrow>
     endpoint_operation_id op' = endpoint_operation_id op \<and> request_cancellation op' = (False, op')"
  "complete_cancellation op = Ok (b, op') \<Longrightarrow>
     endpoint_operation_id op' = endpoint_operation_id op \<and> complete_cancellation op' = Ok (False, op')"
  "EndpointOperation_abandon op = Ok (b, op') \<Longrightarrow>
     endpoint_operation_id op' = endpoint_operation_id op \<and> EndpointOperation_abandon op' = Ok (False, op')"
  "record_result res op = Ok (b, op') \<Longrightarrow>
     endpoint_operation_id op' = endpoint_operation_id op \<and> record_result res op' = Ok (False, op')"
  by (auto simp: endpoint_operation_defs result_simps split: EndpointOperationState.splits if_splits)

lemma endpoint_step_unchanged:
  "commit_invocation op = Ok (False, op') \<Longrightarrow> op' = op"
  "request_cancellation op = (False, op') \<Longrightarrow> op' = op"
  "complete_cancellation op = Ok (False, op') \<Longrightarrow> op' = op"
  "EndpointOperation_abandon op = Ok (False, op') \<Longrightarrow> op' = op"
  "record_result res op = Ok (False, op') \<Longrightarrow> op' = op"
  by (auto simp: endpoint_operation_defs result_simps split: EndpointOperationState.splits if_splits)

lemma terminalize_twice:
  "terminalize_orphan_after_endpoint_resolution (terminalize_orphan_after_endpoint_resolution s
     \<lparr>endpoint_operations := endpoint_operations s\<rparr>) = terminalize_orphan_after_endpoint_resolution s"
  by (simp add: terminalize_orphan_after_endpoint_resolution_def endpoint_recovery_pending_def)

lemma terminalize_fields [simp]:
  "endpoint_operations (terminalize_orphan_after_endpoint_resolution s) = endpoint_operations s"
  "sandbox (terminalize_orphan_after_endpoint_resolution s) = sandbox s"
  by (simp_all add: terminalize_orphan_after_endpoint_resolution_def)

lemma terminalize_noop:
  assumes "slot_ok ext r v j s"
  shows "terminalize_orphan_after_endpoint_resolution s = s"
  using assms
  by (auto simp: terminalize_orphan_after_endpoint_resolution_def slot_ok_parts orphan_ok_def
      endpoint_recovery_pending_def)

lemma find_append_None: "find P xs = None \<Longrightarrow> find P (xs @ [x]) = (if P x then Some x else None)"
  by (induction xs) (auto split: if_splits)

lemma retry_accept_endpoint:
  assumes "slot_accept_endpoint_operation op s = Ok (True, s')"
  shows "slot_accept_endpoint_operation op s' = Ok (False, s')"
proof -
  from assms have *: "offer_status s = OfferAccepted" "\<not> is_terminal (slot_lifecycle s)" "orphan s = None"
    "EndpointOperation_validate op = Ok ()" "endpoint_state op = Accepted"
    "find (\<lambda>x. endpoint_operation_id x = endpoint_operation_id op) (endpoint_operations s) = None"
    "s' = s\<lparr>endpoint_operations := endpoint_operations s @ [op]\<rparr>"
    by (auto simp: slot_accept_endpoint_operation_def result_simps split: if_splits option.splits)
  then show ?thesis
    by (simp add: slot_accept_endpoint_operation_def find_append_None matches_acceptance_def)
qed

text \<open>The two shapes of an endpoint operation: update one entry, then perhaps terminalize an orphan.\<close>

definition update_slot_endpoint where
  "update_slot_endpoint i f self =
     and_then (update_endpoint i f (endpoint_operations self))
       (\<lambda>(changed, operations). Ok (changed, self\<lparr>endpoint_operations := operations\<rparr>))"

definition resolve_slot_endpoint where
  "resolve_slot_endpoint i f self =
     and_then (update_endpoint i f (endpoint_operations self)) (\<lambda>(changed, operations).
       Ok (changed, terminalize_orphan_after_endpoint_resolution
                      (self\<lparr>endpoint_operations := operations\<rparr>)))"

lemma endpoint_shapes:
  "slot_commit_endpoint_invocation i = update_slot_endpoint i commit_invocation"
  "slot_record_endpoint_result i res = update_slot_endpoint i (record_result res)"
  "slot_record_endpoint_cancellation i = resolve_slot_endpoint i (\<lambda>op. Ok (request_cancellation op))"
  "slot_complete_endpoint_cancellation i s = (if sandbox s \<noteq> None then Err EndpointSandboxStillPresent
     else resolve_slot_endpoint i complete_cancellation s)"
  "slot_abandon_endpoint_operation i s = (if sandbox s \<noteq> None then Err EndpointSandboxStillPresent
     else resolve_slot_endpoint i EndpointOperation_abandon s)"
  by (rule ext)?
     (simp_all add: slot_commit_endpoint_invocation_def slot_record_endpoint_result_def
      slot_record_endpoint_cancellation_def slot_complete_endpoint_cancellation_def
      slot_abandon_endpoint_operation_def update_slot_endpoint_def resolve_slot_endpoint_def fun_eq_iff)

lemma update_slot_endpoint_retry:
  assumes "update_slot_endpoint i f s = Ok (b, s')"
    and "\<And>op b op'. f op = Ok (b, op') \<Longrightarrow>
      endpoint_operation_id op' = endpoint_operation_id op \<and> f op' = Ok (False, op')"
  shows "update_slot_endpoint i f s' = Ok (False, s')"
proof -
  from assms(1) obtain ops where "update_endpoint i f (endpoint_operations s) = Ok (b, ops)"
    "s' = s\<lparr>endpoint_operations := ops\<rparr>"
    by (auto simp: update_slot_endpoint_def result_simps)
  with update_endpoint_retry[OF this(1) assms(2)] show ?thesis by (simp add: update_slot_endpoint_def)
qed

lemma resolve_slot_endpoint_retry:
  assumes "resolve_slot_endpoint i f s = Ok (b, s')"
    and "\<And>op b op'. f op = Ok (b, op') \<Longrightarrow>
      endpoint_operation_id op' = endpoint_operation_id op \<and> f op' = Ok (False, op')"
  shows "resolve_slot_endpoint i f s' = Ok (False, s') \<and> sandbox s' = sandbox s"
proof -
  from assms(1) obtain ops where ops: "update_endpoint i f (endpoint_operations s) = Ok (b, ops)"
    "s' = terminalize_orphan_after_endpoint_resolution (s\<lparr>endpoint_operations := ops\<rparr>)"
    by (auto simp: resolve_slot_endpoint_def result_simps)
  have "terminalize_orphan_after_endpoint_resolution (s'\<lparr>endpoint_operations := ops\<rparr>) = s'"
    using terminalize_twice[of "s\<lparr>endpoint_operations := ops\<rparr>"] ops(2) by simp
  with update_endpoint_retry[OF ops(1) assms(2)] ops(2) show ?thesis
    by (simp add: resolve_slot_endpoint_def)
qed

lemma retry_endpoint:
  "slot_commit_endpoint_invocation i s = Ok (b, s') \<Longrightarrow>
     slot_commit_endpoint_invocation i s' = Ok (False, s')"
  "slot_record_endpoint_result i res s = Ok (b, s') \<Longrightarrow>
     slot_record_endpoint_result i res s' = Ok (False, s')"
  "slot_record_endpoint_cancellation i s = Ok (b, s') \<Longrightarrow>
     slot_record_endpoint_cancellation i s' = Ok (False, s')"
  "slot_complete_endpoint_cancellation i s = Ok (b, s') \<Longrightarrow>
     slot_complete_endpoint_cancellation i s' = Ok (False, s')"
  "slot_abandon_endpoint_operation i s = Ok (b, s') \<Longrightarrow>
     slot_abandon_endpoint_operation i s' = Ok (False, s')"
proof -
  show "slot_commit_endpoint_invocation i s = Ok (b, s') \<Longrightarrow>
     slot_commit_endpoint_invocation i s' = Ok (False, s')"
    unfolding endpoint_shapes by (erule update_slot_endpoint_retry) (rule endpoint_step_retries(1))
  show "slot_record_endpoint_result i res s = Ok (b, s') \<Longrightarrow>
     slot_record_endpoint_result i res s' = Ok (False, s')"
    unfolding endpoint_shapes by (erule update_slot_endpoint_retry) (rule endpoint_step_retries(5))
  show "slot_record_endpoint_cancellation i s = Ok (b, s') \<Longrightarrow>
     slot_record_endpoint_cancellation i s' = Ok (False, s')"
    unfolding endpoint_shapes
    by (erule resolve_slot_endpoint_retry[THEN conjunct1]) (simp add: endpoint_step_retries(2))
  have complete: "complete_cancellation op = Ok (b, op') \<Longrightarrow>
      endpoint_operation_id op' = endpoint_operation_id op \<and> complete_cancellation op' = Ok (False, op')"
    for op b op' by (rule endpoint_step_retries(3))
  show "slot_complete_endpoint_cancellation i s = Ok (b, s') \<Longrightarrow>
     slot_complete_endpoint_cancellation i s' = Ok (False, s')"
    unfolding endpoint_shapes
    using resolve_slot_endpoint_retry[of i complete_cancellation s b s', OF _ complete]
    by (auto split: if_splits)
  have abandon: "EndpointOperation_abandon op = Ok (b, op') \<Longrightarrow>
      endpoint_operation_id op' = endpoint_operation_id op \<and> EndpointOperation_abandon op' = Ok (False, op')"
    for op b op' by (rule endpoint_step_retries(4))
  show "slot_abandon_endpoint_operation i s = Ok (b, s') \<Longrightarrow>
     slot_abandon_endpoint_operation i s' = Ok (False, s')"
    unfolding endpoint_shapes
    using resolve_slot_endpoint_retry[of i EndpointOperation_abandon s b s', OF _ abandon]
    by (auto split: if_splits)
qed

text \<open>A call that reports no change leaves a valid slot as it is.\<close>

lemma resolve_slot_endpoint_unchanged:
  assumes "slot_ok ext r v j s" "resolve_slot_endpoint i f s = Ok (False, s')"
    and "\<And>op op'. f op = Ok (False, op') \<Longrightarrow> op' = op"
  shows "s' = s"
proof -
  from assms(2) obtain ops where ops: "update_endpoint i f (endpoint_operations s) = Ok (False, ops)"
    "s' = terminalize_orphan_after_endpoint_resolution (s\<lparr>endpoint_operations := ops\<rparr>)"
    by (auto simp: resolve_slot_endpoint_def result_simps)
  with update_endpoint_unchanged[OF ops(1) assms(3)] terminalize_noop[OF assms(1)] show ?thesis by simp
qed

lemma update_slot_endpoint_unchanged:
  assumes "update_slot_endpoint i f s = Ok (False, s')" "\<And>op op'. f op = Ok (False, op') \<Longrightarrow> op' = op"
  shows "s' = s"
proof -
  from assms(1) obtain ops where ops: "update_endpoint i f (endpoint_operations s) = Ok (False, ops)"
    "s' = s\<lparr>endpoint_operations := ops\<rparr>"
    by (auto simp: update_slot_endpoint_def result_simps)
  with update_endpoint_unchanged[OF ops(1) assms(2)] show ?thesis by simp
qed

lemma unchanged_endpoint:
  assumes "slot_ok ext r v j s"
  shows "slot_commit_endpoint_invocation i s = Ok (False, s') \<Longrightarrow> s' = s"
    "slot_record_endpoint_result i res s = Ok (False, s') \<Longrightarrow> s' = s"
    "slot_record_endpoint_cancellation i s = Ok (False, s') \<Longrightarrow> s' = s"
    "slot_complete_endpoint_cancellation i s = Ok (False, s') \<Longrightarrow> s' = s"
    "slot_abandon_endpoint_operation i s = Ok (False, s') \<Longrightarrow> s' = s"
proof -
  show "slot_commit_endpoint_invocation i s = Ok (False, s') \<Longrightarrow> s' = s"
    unfolding endpoint_shapes by (erule update_slot_endpoint_unchanged) (rule endpoint_step_unchanged(1))
  show "slot_record_endpoint_result i res s = Ok (False, s') \<Longrightarrow> s' = s"
    unfolding endpoint_shapes by (erule update_slot_endpoint_unchanged) (rule endpoint_step_unchanged(5))
  show "slot_record_endpoint_cancellation i s = Ok (False, s') \<Longrightarrow> s' = s"
    unfolding endpoint_shapes
    by (erule resolve_slot_endpoint_unchanged[OF assms]) (simp add: endpoint_step_unchanged(2))
  show "slot_complete_endpoint_cancellation i s = Ok (False, s') \<Longrightarrow> s' = s"
    unfolding endpoint_shapes
    using resolve_slot_endpoint_unchanged[OF assms, of i complete_cancellation s'] endpoint_step_unchanged(3)
    by (auto split: if_splits)
  show "slot_abandon_endpoint_operation i s = Ok (False, s') \<Longrightarrow> s' = s"
    unfolding endpoint_shapes
    using resolve_slot_endpoint_unchanged[OF assms, of i EndpointOperation_abandon s'] endpoint_step_unchanged(4)
    by (auto split: if_splits)
qed

section \<open>Provider operations, logs and orphans\<close>

lemma retry_provider_intent:
  assumes "slot_record_provider_intent op s = Ok (True, s')"
  shows "slot_record_provider_intent op s' = Ok (False, s')"
proof -
  from assms obtain t where *: "offer_status s = OfferAccepted" "provider_outcome op = OutcomePending"
    "\<not> (is_terminal (slot_lifecycle s) \<and> orphan s = None \<and> provider_kind op \<noteq> DestroySandbox)"
    "\<not> (orphan s \<noteq> None \<and> provider_kind op \<notin> {StopSandbox, DestroySandbox})"
    "find (\<lambda>x. provider_operation_id x = provider_operation_id op) (provider_operations s) = None"
    "compact_oldest s = Ok t" "s' = t\<lparr>provider_operations := provider_operations t @ [op]\<rparr>"
    by (auto simp: slot_record_provider_intent_def Let_def result_simps split: if_splits option.splits)
  have "set (provider_operations t) \<subseteq> set (provider_operations s)"
    using *(6) by (auto simp: compact_oldest_def result_simps split: list.splits if_splits)
  with *(5) have "find (\<lambda>x. provider_operation_id x = provider_operation_id op) (provider_operations t) = None"
    by (auto simp: find_None_iff)
  with * compact_oldest_same_offer[OF *(6)] show ?thesis
    by (auto simp: slot_record_provider_intent_def Let_def find_append_None)
qed

lemma mark_applied_retry:
  "mark_applied op = Ok (b, op') \<Longrightarrow> provider_operation_id op' = provider_operation_id op \<and>
     provider_kind op' = provider_kind op \<and> provider_outcome op' = Applied \<and> (\<not> b \<longrightarrow> op' = op)"
  by (auto simp: mark_applied_def split: ProviderOperationOutcome.splits ProviderFailureOutcome.splits)

lemma retry_sandbox_created:
  assumes "slot_record_sandbox_created i x s = Ok (True, s')"
  shows "slot_record_sandbox_created i x s' = Ok (False, s')"
proof -
  from assms obtain op where op: "last_opt (provider_operations s) = Some op"
    by (auto simp: slot_record_sandbox_created_def split: option.splits)
  with assms obtain op' where "provider_operation_id op = i" "provider_kind op = CreateSandbox"
    "mark_applied op = Ok (True, op')"
    "s' = s\<lparr>provider_operations := butlast (provider_operations s) @ [op'], sandbox := Some x\<rparr>"
    by (cases "provider_outcome op = Applied") (auto simp: slot_record_sandbox_created_def result_simps)
  with mark_applied_retry[of op True op'] show ?thesis by (simp add: slot_record_sandbox_created_def)
qed

lemma unchanged_sandbox_created:
  "slot_record_sandbox_created i x s = Ok (False, s') \<Longrightarrow> s' = s"
  by (auto simp: slot_record_sandbox_created_def mark_applied_def result_simps
      split: if_splits option.splits ProviderOperationOutcome.splits ProviderFailureOutcome.splits)

lemma complete_provider_OkE:
  assumes "slot_complete_provider_operation i s = Ok (b, s')"
  obtains op op' where "last_opt (provider_operations s) = Some op" "provider_operation_id op = i"
    "provider_kind op \<noteq> CreateSandbox" "mark_applied op = Ok (b, op')"
    "s' = (let t = s\<lparr>provider_operations := butlast (provider_operations s) @ [op']\<rparr> in
           if b \<and> provider_kind op = DestroySandbox then t\<lparr>sandbox := None\<rparr> else t)"
proof (cases "last_opt (provider_operations s)")
  case (Some op)
  with assms obtain op' where "provider_operation_id op = i" "provider_kind op \<noteq> CreateSandbox"
    "mark_applied op = Ok (b, op')"
    "s' = (let t = s\<lparr>provider_operations := butlast (provider_operations s) @ [op']\<rparr> in
           if b \<and> provider_kind op = DestroySandbox then t\<lparr>sandbox := None\<rparr> else t)"
    by (auto simp: slot_complete_provider_operation_def result_simps Let_def)
  with Some that show thesis by blast
qed (use assms in \<open>simp add: slot_complete_provider_operation_def\<close>)

lemma retry_complete_provider:
  assumes "slot_complete_provider_operation i s = Ok (True, s')"
  shows "slot_complete_provider_operation i s' = Ok (False, s')"
  using assms
proof (rule complete_provider_OkE)
  fix op op'
  assume *: "last_opt (provider_operations s) = Some op" "provider_operation_id op = i"
    "provider_kind op \<noteq> CreateSandbox" "mark_applied op = Ok (True, op')"
    "s' = (let t = s\<lparr>provider_operations := butlast (provider_operations s) @ [op']\<rparr> in
           if True \<and> provider_kind op = DestroySandbox then t\<lparr>sandbox := None\<rparr> else t)"
  from mark_applied_retry[OF *(4)] have op': "provider_operation_id op' = i"
    "provider_kind op' = provider_kind op" "mark_applied op' = Ok (False, op')"
    using *(2) by (auto simp: mark_applied_def)
  have last: "last_opt (provider_operations s') = Some op'"
    "butlast (provider_operations s') @ [op'] = provider_operations s'"
    using *(5) by (auto simp: Let_def)
  show ?thesis
    using op' *(3) last by (simp add: slot_complete_provider_operation_def)
qed

lemma unchanged_complete_provider:
  assumes "slot_complete_provider_operation i s = Ok (False, s')"
  shows "s' = s"
  using assms
proof (rule complete_provider_OkE)
  fix op op'
  assume *: "last_opt (provider_operations s) = Some op" "mark_applied op = Ok (False, op')"
    "s' = (let t = s\<lparr>provider_operations := butlast (provider_operations s) @ [op']\<rparr> in
           if False \<and> provider_kind op = DestroySandbox then t\<lparr>sandbox := None\<rparr> else t)"
  with mark_applied_retry[OF *(2)] last_opt_split[OF *(1)] show "s' = s" by simp
qed

lemma resolve_failure_retry:
  "resolve_failure f op = Ok (b, op') \<Longrightarrow> provider_operation_id op' = provider_operation_id op \<and>
     resolve_failure f op' = Ok (False, op') \<and> (\<not> b \<longrightarrow> op' = op)"
  by (auto simp: resolve_failure_def split: ProviderOperationOutcome.splits if_splits)

lemma retry_fail_provider:
  assumes "slot_fail_provider_operation i f s = Ok (b, s')"
  shows "slot_fail_provider_operation i f s' = Ok (False, s')" "\<not> b \<Longrightarrow> s' = s"
proof -
  from assms obtain op op' where *: "last_opt (provider_operations s) = Some op"
    "provider_operation_id op = i" "resolve_failure f op = Ok (b, op')"
    "s' = s\<lparr>provider_operations := butlast (provider_operations s) @ [op']\<rparr>"
    by (auto simp: slot_fail_provider_operation_def result_simps split: if_splits option.splits)
  note r = resolve_failure_retry[OF *(3)]
  from * r show "slot_fail_provider_operation i f s' = Ok (False, s')"
    by (simp add: slot_fail_provider_operation_def)
  from * r last_opt_split[OF *(1)] show "\<not> b \<Longrightarrow> s' = s" by simp
qed

lemma record_segment_produced:
  assumes "cursor_inv c" "record_segment p at c = Ok c'"
  shows "produced_through c' = Some (last_sequence (publication_segment p)) \<and>
    last_opt (segments c') = Some (publication_segment p) \<and> log_stream_id c' = log_stream_id c"
  using assms by (rule record_segment_OkE) (simp_all add: publish_tail_def Let_def)

lemma seal_log_OkE:
  assumes "slot_seal_log_segment i x s = Ok (b, s')"
  obtains c c' where "log_delivery s = Some c" "log_stream_id c = i" "seal_segment x c = Ok (b, c')"
    "s' = s\<lparr>log_delivery := Some c'\<rparr>"
  using assms that by (auto simp: slot_seal_log_segment_def result_simps split: if_splits)

lemma acknowledge_log_OkE:
  assumes "slot_acknowledge_log_segment a s = Ok (b, s')"
  obtains c c' where "log_delivery s = Some c" "log_stream_id c = acknowledgement_stream_id a"
    "acknowledge_segment a c = Ok (b, c')" "s' = s\<lparr>log_delivery := Some c'\<rparr>"
  using assms that by (auto simp: slot_acknowledge_log_segment_def result_simps split: if_splits)

lemma log_stream_id_kept:
  "seal_segment x c = Ok (b, c') \<Longrightarrow> log_stream_id c' = log_stream_id c"
  "acknowledge_segment a c = Ok (b, c') \<Longrightarrow> log_stream_id c' = log_stream_id c"
proof -
  show "seal_segment x c = Ok (b, c') \<Longrightarrow> log_stream_id c' = log_stream_id c"
    by (auto simp: seal_segment_eq_Ok)
  show "acknowledge_segment a c = Ok (b, c') \<Longrightarrow> log_stream_id c' = log_stream_id c"
    by (cases b) (auto simp: acknowledge_segment_new acknowledge_segment_replay)
qed

lemma retry_log:
  assumes "slot_ok ext r v j s"
  shows "slot_record_log_segment p at s = Ok (True, s') \<Longrightarrow> slot_record_log_segment p at s' = Ok (False, s')"
    "slot_seal_log_segment i x s = Ok (True, s') \<Longrightarrow> slot_seal_log_segment i x s' = Ok (False, s')"
    "slot_acknowledge_log_segment a s = Ok (True, s') \<Longrightarrow> slot_acknowledge_log_segment a s' = Ok (False, s')"
proof -
  have inv: "log_delivery s = Some c \<Longrightarrow> cursor_inv c" for c using slot_log_accepted[OF assms] by blast
  show "slot_record_log_segment p at s' = Ok (False, s')" if rec: "slot_record_log_segment p at s = Ok (True, s')"
  proof -
    from rec obtain c c' where "orphan s = None" "log_delivery s = Some c"
      "log_stream_id c = publication_stream_id p" "record_segment p at c = Ok c'"
      "s' = s\<lparr>log_delivery := Some c'\<rparr>"
      by (auto simp: slot_record_log_segment_def result_simps split: if_splits)
    with record_segment_produced[OF inv, of c p at c'] show ?thesis
      by (simp add: slot_record_log_segment_def)
  qed
  show "slot_seal_log_segment i x s' = Ok (False, s')" if "slot_seal_log_segment i x s = Ok (True, s')"
    using that
  proof (rule seal_log_OkE)
    fix c c'
    assume "log_delivery s = Some c" "log_stream_id c = i" "seal_segment x c = Ok (True, c')"
      "s' = s\<lparr>log_delivery := Some c'\<rparr>"
    with seal_retry.replayed[OF inv, of c x c'] log_stream_id_kept(1)[of x c True c'] show ?thesis
      by (simp add: slot_seal_log_segment_def)
  qed
  show "slot_acknowledge_log_segment a s' = Ok (False, s')"
    if "slot_acknowledge_log_segment a s = Ok (True, s')"
    using that
  proof (rule acknowledge_log_OkE)
    fix c c'
    assume "log_delivery s = Some c" "log_stream_id c = acknowledgement_stream_id a"
      "acknowledge_segment a c = Ok (True, c')" "s' = s\<lparr>log_delivery := Some c'\<rparr>"
    with acknowledge_retry.replayed[OF inv, of c a c'] log_stream_id_kept(2)[of a c True c'] show ?thesis
      by (simp add: slot_acknowledge_log_segment_def)
  qed
qed

lemma unchanged_log:
  assumes "slot_ok ext r v j s"
  shows "slot_record_log_segment p at s = Ok (False, s') \<Longrightarrow> s' = s"
    "slot_seal_log_segment i x s = Ok (False, s') \<Longrightarrow> s' = s"
    "slot_acknowledge_log_segment a s = Ok (False, s') \<Longrightarrow> s' = s"
proof -
  have inv: "log_delivery s = Some c \<Longrightarrow> cursor_inv c" for c using slot_log_accepted[OF assms] by blast
  show "slot_record_log_segment p at s = Ok (False, s') \<Longrightarrow> s' = s"
    by (auto simp: slot_record_log_segment_def result_simps split: if_splits)
  show "slot_seal_log_segment i x s = Ok (False, s') \<Longrightarrow> s' = s"
    by (erule seal_log_OkE, frule (1) seal_retry.unchanged[OF inv]) simp
  show "slot_acknowledge_log_segment a s = Ok (False, s') \<Longrightarrow> s' = s"
    by (erule acknowledge_log_OkE) (simp add: acknowledge_segment_replay)
qed

lemma retry_orphan:
  assumes "slot_abandon_orphan_delivery i d x s = Ok (b, s')"
  shows "slot_abandon_orphan_delivery i d x s' = Ok (False, s')" "\<not> b \<Longrightarrow> s' = s"
proof -
  from assms obtain o1 o2 where *: "delivery_exists d s" "orphan s = Some o1"
    "OrphanRecord_abandon i d x o1 = Ok (b, o2)" "s' = s\<lparr>orphan := Some o2\<rparr>"
    by (auto simp: slot_abandon_orphan_delivery_def result_simps split: if_splits)
  from *(3) have "OrphanRecord_abandon i d x o2 = Ok (False, o2)" "\<not> b \<Longrightarrow> o2 = o1"
    by (auto elim: OrphanRecord_abandon_OkE)
  with * show "slot_abandon_orphan_delivery i d x s' = Ok (False, s')" "\<not> b \<Longrightarrow> s' = s"
    by (cases d; simp add: slot_abandon_orphan_delivery_def delivery_exists_def)+
qed

lemma retry_simple:
  "slot_advance_outbound_operation n s = Ok (True, s') \<Longrightarrow>
     slot_advance_outbound_operation n s' = Ok (False, s')"
  "slot_open_log_stream k s = Ok (True, s') \<Longrightarrow> slot_open_log_stream k s' = Ok (False, s')"
  by (auto simp: slot_advance_outbound_operation_def slot_open_log_stream_def result_simps
      OutboundOperationCursor_advance_eq_Ok LogDeliveryCursor_new_def split: if_splits option.splits)

lemma unchanged_simple:
  "slot_accept_offer s = Ok (False, s') \<Longrightarrow> s' = s"
  "slot_record_runtime_authority_delivery d s = Ok (False, s') \<Longrightarrow> s' = s"
  "slot_acknowledge_runtime_authority_delivery g x i s = Ok (False, s') \<Longrightarrow> s' = s"
  "slot_reject_offer y i at s = Ok (False, s') \<Longrightarrow> s' = s"
  "slot_acknowledge_offer_rejection i s = Ok (False, s') \<Longrightarrow> s' = s"
  "slot_renew_lease e s = Ok (False, s') \<Longrightarrow> s' = s"
  "slot_transition_lifecycle l s = Ok (False, s') \<Longrightarrow> s' = s"
  "slot_record_terminal_result l z at s = Ok (False, s') \<Longrightarrow> s' = s"
  "slot_acknowledge_terminal_result i s = Ok (False, s') \<Longrightarrow> s' = s"
  "slot_accept_endpoint_operation op s = Ok (False, s') \<Longrightarrow> s' = s"
  "slot_record_provider_intent p s = Ok (False, s') \<Longrightarrow> s' = s"
  "slot_advance_outbound_operation n s = Ok (False, s') \<Longrightarrow> s' = s"
  "slot_open_log_stream k s = Ok (False, s') \<Longrightarrow> s' = s"
  by (auto simp: result_simps Let_def slot_accept_offer_def slot_record_runtime_authority_delivery_def
      slot_acknowledge_runtime_authority_delivery_def
      slot_reject_offer_def slot_acknowledge_offer_rejection_def slot_renew_lease_def
      slot_transition_lifecycle_def slot_record_terminal_result_def slot_acknowledge_terminal_result_def
      slot_accept_endpoint_operation_def slot_record_provider_intent_def
      slot_advance_outbound_operation_def slot_open_log_stream_def
      RuntimeAuthorityDeliveryRecord_acknowledge_def
      split: if_splits option.splits LeaseOfferStatus.splits)

lemma retry_fail_provider_false:
  "slot_fail_provider_operation i f s = Ok (False, s') \<Longrightarrow> s' = s"
  "slot_abandon_orphan_delivery i d x s = Ok (False, s') \<Longrightarrow> s' = s"
  using retry_fail_provider(2) retry_orphan(2) by blast+

lemmas slot_retries = retry_lease retry_acknowledge_runtime_authority retry_accept_endpoint
  retry_endpoint retry_provider_intent retry_sandbox_created retry_complete_provider
  retry_fail_provider(1) retry_simple retry_orphan(1)

lemmas slot_unchanged = unchanged_simple unchanged_sandbox_created unchanged_complete_provider
  retry_fail_provider_false

interpretation slot_retry: idempotent_mutation "apply_slot m" "slot_ok ext r v j" for m ext r v j
proof
  show "s' = s" if "slot_ok ext r v j s" "apply_slot m s = Ok (False, s')" for s s'
    using that(2)
    by (cases m) (simp_all, (erule slot_unchanged unchanged_endpoint[OF that(1)] unchanged_log[OF that(1)])+)
  show "apply_slot m s' = Ok (False, s')" if "slot_ok ext r v j s" "apply_slot m s = Ok (True, s')" for s s'
    using that(2) by (cases m) (simp_all, (erule slot_retries retry_log[OF that(1)])+)
qed

end
