(* ===== verification/JournalState.thy ===== *)
theory JournalState
  imports SlotRetry
begin

text \<open>
  The complete journal of one runner: \<open>SessionSnapshot\<close>, \<open>StoredJournal\<close> and all of its mutations in
  \<open>automata-ci-runner-journal/src/model/state.rs\<close>.  A mutation returns whether it changed the journal and the new
  journal, or an error.
\<close>

section \<open>Sessions\<close>

record SessionBinding =
  binding_session_id :: RunnerSessionId
  binding_protocol :: ProtocolVersion
  binding_job_ir :: JobIrVersion

record LeasePollCheckpoint =
  checkpoint_slot :: RunnerSlotOrdinal
  current_operation_id :: OperationId
  acknowledges_operation_id :: "OperationId option"
  pending_authority_receipts :: "LeaseAuthorityPollReceipt list"

record LeasePollCompletion =
  completion_slot :: RunnerSlotOrdinal
  expected_current :: OperationId
  successor_operation_id :: OperationId
  completion_receipts :: "LeaseAuthorityPollReceipt list"
  completion_command :: LeasePollCommandRecord

record SessionSnapshot =
  session_id :: RunnerSessionId
  selected_protocol :: ProtocolVersion
  selected_job_ir :: JobIrVersion
  command_cursor :: CommandCursor
  command_tombstones :: "CommandTombstone list"
  lease_poll_checkpoints :: "LeasePollCheckpoint list"

definition SessionSnapshot_new :: "SessionBinding \<Rightarrow> SessionSnapshot" where
  "SessionSnapshot_new binding =
     \<lparr>session_id = binding_session_id binding, selected_protocol = binding_protocol binding,
      selected_job_ir = binding_job_ir binding, command_cursor = CommandCursor_initial,
      command_tombstones = [], lease_poll_checkpoints = []\<rparr>"

definition SessionSnapshot_binding :: "SessionSnapshot \<Rightarrow> SessionBinding" where
  "SessionSnapshot_binding self =
     \<lparr>binding_session_id = session_id self, binding_protocol = selected_protocol self,
      binding_job_ir = selected_job_ir self\<rparr>"

definition LeasePollCheckpoint_first :: "RunnerSlotOrdinal \<Rightarrow> OperationId \<Rightarrow> LeasePollCheckpoint" where
  "LeasePollCheckpoint_first slot operation =
     \<lparr>checkpoint_slot = slot, current_operation_id = operation, acknowledges_operation_id = None,
      pending_authority_receipts = []\<rparr>"

definition lease_poll_checkpoint :: "RunnerSlotOrdinal \<Rightarrow> SessionSnapshot \<Rightarrow> LeasePollCheckpoint option" where
  "lease_poll_checkpoint slot self =
     (case binary_search_by_key checkpoint_slot slot (lease_poll_checkpoints self) of
        Found index \<Rightarrow> Some (lease_poll_checkpoints self ! index)
      | Missing _ \<Rightarrow> None)"

definition lease_poll_operation_is_used :: "OperationId \<Rightarrow> SessionSnapshot \<Rightarrow> bool" where
  "lease_poll_operation_is_used operation self \<longleftrightarrow>
     list_ex (\<lambda>checkpoint. current_operation_id checkpoint = operation \<or>
                acknowledges_operation_id checkpoint = Some operation) (lease_poll_checkpoints self)"

fun validate_tombstones ::
  "CommandSequence option \<Rightarrow> OperationId list \<Rightarrow> CommandTombstone list \<Rightarrow> unit jresult" where
  "validate_tombstones previous operations [] = Ok ()"
| "validate_tombstones previous operations (tombstone # rest) =
     (let command = tombstone_command tombstone in
      if (case previous of None \<Rightarrow> False | Some sequence \<Rightarrow> sequence \<ge> command_sequence command) \<or>
         command_operation_id command \<in> set operations
      then Err DecodedStateInvalid
      else validate_tombstones (Some (command_sequence command))
             (command_operation_id command # operations) rest)"

fun validate_checkpoints ::
  "RunnerSlotOrdinal option \<Rightarrow> OperationId list \<Rightarrow> LeasePollCheckpoint list \<Rightarrow> unit jresult" where
  "validate_checkpoints previous operations [] = Ok ()"
| "validate_checkpoints previous operations (checkpoint # rest) =
     (let current = current_operation_id checkpoint; operations' = current # operations in
      if unat (checkpoint_slot checkpoint) > MAX_JOURNALED_SLOTS \<or>
         (case previous of None \<Rightarrow> False | Some slot \<Rightarrow> slot \<ge> checkpoint_slot checkpoint) \<or>
         current \<in> set operations \<or>
         (case acknowledges_operation_id checkpoint of
            None \<Rightarrow> False | Some operation \<Rightarrow> operation \<in> set operations')
      then Err DecodedStateInvalid
      else and_then (validate_authority_receipts (pending_authority_receipts checkpoint)) (\<lambda>_.
           validate_checkpoints (Some (checkpoint_slot checkpoint))
             (case acknowledges_operation_id checkpoint of
                None \<Rightarrow> operations' | Some operation \<Rightarrow> operation # operations') rest))"

definition validate_session :: "SessionSnapshot \<Rightarrow> unit jresult" where
  "validate_session self =
     (if \<not> ProtocolRange_contains SUPPORTED_PROTOCOL_RANGE (selected_protocol self) \<or>
         \<not> JobIrVersionRange_supports JobIrVersionRange_current (selected_job_ir self) \<or>
         length (command_tombstones self) > MAX_COMMAND_TOMBSTONES \<or>
         length (lease_poll_checkpoints self) > MAX_JOURNALED_SLOTS
      then Err DecodedStateInvalid
      else and_then (validate_tombstones None [] (command_tombstones self)) (\<lambda>_.
      and_then (case (acknowledged_through (command_cursor self), last_opt (command_tombstones self)) of
                  (None, None) \<Rightarrow> Ok ()
                | (Some cursor, Some latest) \<Rightarrow>
                    if command_sequence (tombstone_command latest) = cursor then Ok ()
                    else Err DecodedStateInvalid
                | _ \<Rightarrow> Err DecodedStateInvalid) (\<lambda>_.
      validate_checkpoints None [] (lease_poll_checkpoints self))))"

definition command_has_applied_tombstone_or_is_older :: "DurableCommand \<Rightarrow> SessionSnapshot \<Rightarrow> bool" where
  "command_has_applied_tombstone_or_is_older command self \<longleftrightarrow>
     (case first_opt (command_tombstones self) of
        None \<Rightarrow> False
      | Some first \<Rightarrow>
          command_sequence command < command_sequence (tombstone_command first) \<or>
          list_ex (\<lambda>tombstone. tombstone_command tombstone = command \<and>
                     tombstone_disposition tombstone = CommandApplied) (command_tombstones self))"

section \<open>The journal\<close>

record StoredJournal =
  journal_schema_version :: u16
  revision :: u64
  runner_id :: RunnerId
  session :: "SessionSnapshot option"
  slots :: "SlotSnapshot list"

definition StoredJournal_new :: "RunnerId \<Rightarrow> StoredJournal" where
  "StoredJournal_new runner =
     \<lparr>journal_schema_version = RUNNER_JOURNAL_SCHEMA_VERSION, revision = 0, runner_id = runner,
      session = None, slots = []\<rparr>"

definition increment_revision :: "StoredJournal \<Rightarrow> StoredJournal jresult" where
  "increment_revision self =
     and_then (ok_or CounterExhausted (checked_add (revision self) 1)) (\<lambda>next.
     Ok (self\<lparr>revision := next\<rparr>))"

fun validate_slots ::
  "externals \<Rightarrow> RunnerId \<Rightarrow> SessionSnapshot option \<Rightarrow> RunnerSlotOrdinal option \<Rightarrow>
   CommandSequence list \<Rightarrow> OperationId list \<Rightarrow> SlotSnapshot list \<Rightarrow> unit jresult" where
  "validate_slots ext runner sess previous sequences operations [] = Ok ()"
| "validate_slots ext runner sess previous sequences operations (slot # rest) =
     (if unat (slot_ordinal slot) > MAX_JOURNALED_SLOTS \<or>
         (case previous of None \<Rightarrow> False | Some before \<Rightarrow> before \<ge> slot_ordinal slot)
      then Err DecodedStateInvalid
      else and_then (ok_or DecodedStateInvalid sess) (\<lambda>s.
      and_then (SlotSnapshot_validate ext runner (session_id s) (selected_job_ir s) slot) (\<lambda>_.
      let command = offer_command (offer slot) in
      if command_sequence command \<in> set sequences \<or> command_operation_id command \<in> set operations \<or>
         \<not> command_has_applied_tombstone_or_is_older command s
      then Err DecodedStateInvalid
      else let sequences = command_sequence command # sequences;
               operations = command_operation_id command # operations in
      and_then (case cancellation slot of
          None \<Rightarrow> Ok (sequences, operations)
        | Some record \<Rightarrow>
            let cancel = cancellation_command record in
            if command_sequence cancel \<in> set sequences \<or> command_operation_id cancel \<in> set operations \<or>
               \<not> command_has_applied_tombstone_or_is_older cancel s
            then Err DecodedStateInvalid
            else Ok (command_sequence cancel # sequences, command_operation_id cancel # operations))
        (\<lambda>(sequences, operations).
      let cursor = acknowledged_through (command_cursor s);
          beyond = (\<lambda>c. case cursor of None \<Rightarrow> True | Some current \<Rightarrow> command_sequence c > current) in
      if beyond command \<or>
         (case cancellation slot of None \<Rightarrow> False | Some record \<Rightarrow> beyond (cancellation_command record))
      then Err DecodedStateInvalid
      else validate_slots ext runner sess (Some (slot_ordinal slot)) sequences operations rest))))"

definition StoredJournal_validate :: "externals \<Rightarrow> StoredJournal \<Rightarrow> unit jresult" where
  "StoredJournal_validate ext self =
     (if journal_schema_version self \<noteq> RUNNER_JOURNAL_SCHEMA_VERSION then Err DecodedStateInvalid
      else if length (slots self) > MAX_JOURNALED_SLOTS then Err DecodedCollectionLimit
      else if slots self \<noteq> [] \<and> session self = None then Err DecodedStateInvalid
      else if session self \<noteq> None \<and> revision self = 0 then Err DecodedStateInvalid
      else and_then (case session self of Some s \<Rightarrow> validate_session s | None \<Rightarrow> Ok ()) (\<lambda>_.
           validate_slots ext (runner_id self) (session self) None [] [] (slots self)))"

section \<open>Sessions and lease polls\<close>

definition begin_session :: "SessionBinding \<Rightarrow> StoredJournal \<Rightarrow> (bool \<times> StoredJournal) jresult" where
  "begin_session binding self =
     (case session self of
        Some current \<Rightarrow>
          if SessionSnapshot_binding current = binding then Ok (False, self)
          else if session_id current = binding_session_id binding then Err SessionNegotiationMismatch
          else if slots self \<noteq> [] then Err SessionHasActiveSlots
          else Ok (True, self\<lparr>session := Some (SessionSnapshot_new binding)\<rparr>)
      | None \<Rightarrow> Ok (True, self\<lparr>session := Some (SessionSnapshot_new binding)\<rparr>))"

definition require_session :: "RunnerSessionId \<Rightarrow> StoredJournal \<Rightarrow> SessionBinding jresult" where
  "require_session received self =
     and_then (ok_or NoSession (session self)) (\<lambda>expected.
     if session_id expected \<noteq> received then Err (SessionMismatch (session_id expected) received)
     else Ok (SessionSnapshot_binding expected))"

definition prepare_lease_poll ::
  "RunnerSessionId \<Rightarrow> RunnerSlotOrdinal \<Rightarrow> OperationId \<Rightarrow> StoredJournal \<Rightarrow>
   (bool \<times> StoredJournal) jresult" where
  "prepare_lease_poll sid slot operation self =
     and_then (require_session sid self) (\<lambda>_.
     and_then (ok_or NoSession (session self)) (\<lambda>s.
     case binary_search_by_key checkpoint_slot slot (lease_poll_checkpoints s) of
       Found _ \<Rightarrow> Ok (False, self)
     | Missing insertion \<Rightarrow>
         if unat slot > MAX_JOURNALED_SLOTS then Err SlotLimitReached
         else if lease_poll_operation_is_used operation s then Err LeasePollOperationConflict
         else Ok (True, self\<lparr>session := Some (s\<lparr>lease_poll_checkpoints :=
                insert_at insertion (LeasePollCheckpoint_first slot operation)
                  (lease_poll_checkpoints s)\<rparr>)\<rparr>)))"

definition advance_lease_poll ::
  "RunnerSessionId \<Rightarrow> RunnerSlotOrdinal \<Rightarrow> OperationId \<Rightarrow> OperationId \<Rightarrow>
   LeaseAuthorityPollReceipt list \<Rightarrow> StoredJournal \<Rightarrow> (bool \<times> StoredJournal) jresult" where
  "advance_lease_poll sid slot expected successor receipts self =
     and_then (validate_authority_receipts receipts) (\<lambda>_.
     and_then (require_session sid self) (\<lambda>_.
     and_then (ok_or NoSession (session self)) (\<lambda>s.
     case binary_search_by_key checkpoint_slot slot (lease_poll_checkpoints s) of
       Missing _ \<Rightarrow> Err (LeasePollCheckpointMissing slot)
     | Found index \<Rightarrow>
         let checkpoint = lease_poll_checkpoints s ! index in
         if current_operation_id checkpoint \<noteq> expected
         then (if acknowledges_operation_id checkpoint = Some expected
               then (if pending_authority_receipts checkpoint = [] \<or>
                        pending_authority_receipts checkpoint = receipts
                     then Ok (False, self) else Err LeaseAuthorityReceiptMismatch)
               else Err (LeasePollCheckpointMismatch expected (current_operation_id checkpoint)))
         else if lease_poll_operation_is_used successor s then Err LeasePollOperationConflict
         else Ok (True, self\<lparr>session := Some (s\<lparr>lease_poll_checkpoints :=
                (lease_poll_checkpoints s)[index :=
                  \<lparr>checkpoint_slot = slot, current_operation_id = successor,
                   acknowledges_operation_id = Some expected,
                   pending_authority_receipts = receipts\<rparr>]\<rparr>)\<rparr>))))"

definition acknowledge_lease_authority_receipts ::
  "RunnerSessionId \<Rightarrow> RunnerSlotOrdinal \<Rightarrow> LeaseAuthorityPollReceipt list \<Rightarrow> StoredJournal \<Rightarrow>
   (bool \<times> StoredJournal) jresult" where
  "acknowledge_lease_authority_receipts sid slot expected self =
     and_then (require_session sid self) (\<lambda>_.
     and_then (validate_authority_receipts expected) (\<lambda>_.
     and_then (ok_or NoSession (session self)) (\<lambda>s.
     case binary_search_by_key checkpoint_slot slot (lease_poll_checkpoints s) of
       Missing _ \<Rightarrow> Err (LeasePollCheckpointMissing slot)
     | Found index \<Rightarrow>
         let checkpoint = lease_poll_checkpoints s ! index in
         if pending_authority_receipts checkpoint = [] then Ok (False, self)
         else if pending_authority_receipts checkpoint \<noteq> expected then Err LeaseAuthorityReceiptMismatch
         else Ok (True, self\<lparr>session := Some (s\<lparr>lease_poll_checkpoints :=
                (lease_poll_checkpoints s)[index :=
                  checkpoint\<lparr>pending_authority_receipts := []\<rparr>]\<rparr>)\<rparr>))))"

section \<open>Commands\<close>

definition command_is_used :: "DurableCommand \<Rightarrow> StoredJournal \<Rightarrow> bool" where
  "command_is_used command self \<longleftrightarrow>
     (case session self of
        None \<Rightarrow> False
      | Some s \<Rightarrow> list_ex (\<lambda>tombstone. command_operation_id (tombstone_command tombstone) =
                    command_operation_id command) (command_tombstones s)) \<or>
     list_ex (\<lambda>slot. command_operation_id (offer_command (offer slot)) = command_operation_id command \<or>
       (case cancellation slot of
          None \<Rightarrow> False
        | Some cancel \<Rightarrow> command_operation_id (cancellation_command cancel) = command_operation_id command))
       (slots self)"

definition expected_sequence :: "CommandCursor \<Rightarrow> CommandSequence jresult" where
  "expected_sequence cursor =
     (case acknowledged_through cursor of
        Some current \<Rightarrow> map_err (\<lambda>_. CounterExhausted) (CommandSequence_checked_next current)
      | None \<Rightarrow> map_err (\<lambda>_. CounterExhausted) (CommandSequence_new 1))"

text \<open>Push a tombstone and keep the newest \<open>MAX_COMMAND_TOMBSTONES\<close>.\<close>

definition push_tombstone :: "CommandTombstone \<Rightarrow> CommandTombstone list \<Rightarrow> CommandTombstone list" where
  "push_tombstone tombstone tombstones =
     (let pushed = tombstones @ [tombstone] in
      if length pushed > MAX_COMMAND_TOMBSTONES then remove_at 0 pushed else pushed)"

definition commit_command ::
  "RunnerSessionId \<Rightarrow> DurableCommand \<Rightarrow> CommandDisposition \<Rightarrow> StoredJournal \<Rightarrow>
   (bool \<times> StoredJournal) jresult" where
  "commit_command sid command disposition self =
     and_then (require_session sid self) (\<lambda>_.
     and_then (ok_or NoSession (session self)) (\<lambda>s.
     if (case acknowledged_through (command_cursor s) of
           Some current \<Rightarrow> command_sequence command \<le> current | None \<Rightarrow> False)
     then and_then (ok_or CommandReplayOutsideWindow
            (find (\<lambda>tombstone. command_sequence (tombstone_command tombstone) = command_sequence command)
               (command_tombstones s))) (\<lambda>replay.
          if tombstone_command replay = command \<and> tombstone_disposition replay = disposition
          then Ok (False, self) else Err CommandReplayConflict)
     else if command_is_used command self then Err CommandReplayConflict
     else and_then (expected_sequence (command_cursor s)) (\<lambda>expected.
     if command_sequence command \<noteq> expected
     then Err (CommandSequenceMismatch expected (command_sequence command))
     else and_then (map_err (\<lambda>_. CommandSequenceMismatch expected (command_sequence command))
            (CommandCursor_advance (command_cursor s) (command_sequence command))) (\<lambda>cursor.
     Ok (True, self\<lparr>session := Some (s\<lparr>command_cursor := cursor,
           command_tombstones := push_tombstone
             \<lparr>tombstone_command = command, tombstone_disposition = disposition\<rparr>
             (command_tombstones s)\<rparr>)\<rparr>)))))"

definition verify_recorded_command ::
  "RunnerSessionId \<Rightarrow> DurableCommand \<Rightarrow> CommandDisposition \<Rightarrow> StoredJournal \<Rightarrow> unit jresult" where
  "verify_recorded_command sid command disposition self =
     and_then (require_session sid self) (\<lambda>_.
     and_then (ok_or NoSession (session self)) (\<lambda>s.
     and_then (ok_or CommandReplayConflict (acknowledged_through (command_cursor s))) (\<lambda>cursor.
     if command_sequence command > cursor then Err CommandReplayConflict
     else and_then (ok_or CommandReplayOutsideWindow
            (find (\<lambda>tombstone. command_sequence (tombstone_command tombstone) = command_sequence command)
               (command_tombstones s))) (\<lambda>tombstone.
     if tombstone_command tombstone \<noteq> command \<or> tombstone_disposition tombstone \<noteq> disposition
     then Err CommandReplayConflict else Ok ()))))"

section \<open>Slots\<close>

definition slot_index :: "RunnerSlotOrdinal \<Rightarrow> StoredJournal \<Rightarrow> nat jresult" where
  "slot_index slot self =
     (case binary_search_by_key slot_ordinal slot (slots self) of
        Found index \<Rightarrow> Ok index
      | Missing _ \<Rightarrow> Err (SlotNotFound slot))"

text \<open>\<open>slot_mut\<close>: the fenced slot, and the journal with the slot that a mutation returns in its place.\<close>

definition fenced_index :: "RunnerSessionId \<Rightarrow> RunnerSlotOrdinal \<Rightarrow> LeaseGuard \<Rightarrow> StoredJournal \<Rightarrow> nat jresult" where
  "fenced_index sid slot guard self =
     and_then (require_session sid self) (\<lambda>_.
     and_then (slot_index slot self) (\<lambda>index.
     and_then (require_guard guard (slots self ! index)) (\<lambda>_. Ok index)))"

definition with_slot ::
  "RunnerSessionId \<Rightarrow> RunnerSlotOrdinal \<Rightarrow> LeaseGuard \<Rightarrow>
   (SlotSnapshot \<Rightarrow> (bool \<times> SlotSnapshot) jresult) \<Rightarrow> StoredJournal \<Rightarrow> (bool \<times> StoredJournal) jresult" where
  "with_slot sid slot guard mutation self =
     and_then (fenced_index sid slot guard self) (\<lambda>index.
     and_then (mutation (slots self ! index)) (\<lambda>(changed, updated).
     Ok (changed, self\<lparr>slots := (slots self)[index := updated]\<rparr>)))"

definition record_offer ::
  "externals \<Rightarrow> RunnerSessionId \<Rightarrow> LeaseOfferRecord \<Rightarrow> StoredJournal \<Rightarrow> (bool \<times> StoredJournal) jresult" where
  "record_offer ext sid record self =
     and_then (require_session sid self) (\<lambda>binding.
     and_then (LeaseOfferRecord_validate ext record) (\<lambda>_.
     if lease_runner_id (offer_lease record) \<noteq> runner_id self then Err LeaseRunnerMismatch
     else if job_ir_version (offer_job_ir record) \<noteq> binding_job_ir binding then Err JobIrVersionMismatch
     else if unat (offer_slot record) > MAX_JOURNALED_SLOTS then Err SlotLimitReached
     else case binary_search_by_key slot_ordinal (offer_slot record) (slots self) of
       Found index \<Rightarrow>
         if offer (slots self ! index) = record then Ok (False, self)
         else Err (SlotOccupied (offer_slot record))
     | Missing _ \<Rightarrow>
         if length (slots self) \<ge> MAX_JOURNALED_SLOTS then Err SlotLimitReached
         else and_then (commit_command sid (offer_command record) CommandApplied self)
           (\<lambda>(changed, self).
         if \<not> changed then Ok (False, self)
         else let insertion = (case binary_search_by_key slot_ordinal (offer_slot record) (slots self) of
                                 Found index \<Rightarrow> index | Missing index \<Rightarrow> index) in
              Ok (True, self\<lparr>slots :=
                insert_at insertion (SlotSnapshot_from_offer record) (slots self)\<rparr>))))"

definition record_cancellation ::
  "RunnerSessionId \<Rightarrow> RunnerSlotOrdinal \<Rightarrow> LeaseGuard \<Rightarrow> CancellationRecord \<Rightarrow> StoredJournal \<Rightarrow>
   (bool \<times> StoredJournal) jresult" where
  "record_cancellation sid slot guard record self =
     and_then (fenced_index sid slot guard self) (\<lambda>index.
     and_then (slot_cancellation_replay record (slots self ! index)) (\<lambda>replay.
     if replay then Ok (False, self)
     else and_then (commit_command sid (cancellation_command record) CommandApplied self)
       (\<lambda>(changed, self).
     if \<not> changed then Ok (False, self)
     else and_then (slot_cancel record (slots self ! index)) (\<lambda>updated.
          Ok (True, self\<lparr>slots := (slots self)[index := updated]\<rparr>)))))"

definition complete_lease_poll ::
  "externals \<Rightarrow> RunnerSessionId \<Rightarrow> LeasePollCompletion \<Rightarrow> StoredJournal \<Rightarrow> (bool \<times> StoredJournal) jresult" where
  "complete_lease_poll ext sid completion self =
     and_then (validate_authority_receipts (completion_receipts completion)) (\<lambda>_.
     and_then (advance_lease_poll sid (completion_slot completion) (expected_current completion)
       (successor_operation_id completion) (completion_receipts completion) self)
       (\<lambda>(checkpoint_changed, self).
     and_then (case completion_command completion of
                 NoCommand \<Rightarrow> Ok (False, self)
               | Recorded command disposition \<Rightarrow>
                   and_then (verify_recorded_command sid command disposition self) (\<lambda>_.
                   Ok (False, self))
               | Ignored command reason \<Rightarrow> commit_command sid command (CommandIgnored reason) self
               | LeaseOffer record \<Rightarrow> record_offer ext sid record self
               | Cancellation slot guard record \<Rightarrow> record_cancellation sid slot guard record self)
       (\<lambda>(command_changed, self).
     if \<not> checkpoint_changed \<and> command_changed then Err CommandReplayConflict
     else Ok (command_changed \<or> checkpoint_changed, self))))"

section \<open>Orphans and release\<close>

definition orphan_claim ::
  "RunnerSessionId \<Rightarrow> RunnerSlotOrdinal \<Rightarrow> LeaseGuard \<Rightarrow> StoredJournal \<Rightarrow> OrphanClaim jresult" where
  "orphan_claim sid slot guard self =
     and_then (fenced_index sid slot guard self) (\<lambda>index.
     Ok \<lparr>claim_runner_id = runner_id self, claim_session_id = sid,
         claim_slot = slot_ordinal (slots self ! index), claim_guard = guard\<rparr>)"

definition authorize_orphan ::
  "OrphanAuthorityGrant \<Rightarrow> StoredJournal \<Rightarrow> (bool \<times> StoredJournal) jresult" where
  "authorize_orphan grant self =
     (let claim = grant_claim grant in
      and_then (orphan_claim (claim_session_id claim) (claim_slot claim) (claim_guard claim) self)
        (\<lambda>expected.
      if claim \<noteq> expected then Err OrphanAuthorityMismatch
      else and_then (slot_index (claim_slot claim) self) (\<lambda>index.
           and_then (slot_authorize_orphan grant (slots self ! index)) (\<lambda>(changed, updated).
           Ok (changed, self\<lparr>slots := (slots self)[index := updated]\<rparr>)))))"

definition release_slot ::
  "RunnerSessionId \<Rightarrow> RunnerSlotOrdinal \<Rightarrow> LeaseGuard \<Rightarrow> StoredJournal \<Rightarrow> (bool \<times> StoredJournal) jresult" where
  "release_slot sid slot guard self =
     and_then (fenced_index sid slot guard self) (\<lambda>index.
     and_then (slot_releasable (slots self ! index)) (\<lambda>_.
     Ok (True, self\<lparr>slots := remove_at index (slots self)\<rparr>)))"

definition release_rejected_offer ::
  "RunnerSessionId \<Rightarrow> RunnerSlotOrdinal \<Rightarrow> LeaseGuard \<Rightarrow> OperationId \<Rightarrow> StoredJournal \<Rightarrow>
   (bool \<times> StoredJournal) jresult" where
  "release_rejected_offer sid slot guard operation self =
     and_then (fenced_index sid slot guard self) (\<lambda>index.
     and_then (slot_rejection_releasable operation (slots self ! index)) (\<lambda>_.
     Ok (True, self\<lparr>slots := remove_at index (slots self)\<rparr>)))"

section \<open>All mutations\<close>

datatype (plugins only: ) JournalMutation =
    BeginSession SessionBinding
  | PrepareLeasePoll RunnerSessionId RunnerSlotOrdinal OperationId
  | CompleteLeasePoll RunnerSessionId LeasePollCompletion
  | AcknowledgeLeaseAuthorityReceipts RunnerSessionId RunnerSlotOrdinal "LeaseAuthorityPollReceipt list"
  | RecordCommandDisposition RunnerSessionId DurableCommand CommandDisposition
  | RecordLeaseOffer RunnerSessionId LeaseOfferRecord
  | RecordCancellation RunnerSessionId RunnerSlotOrdinal LeaseGuard CancellationRecord
  | MutateSlot RunnerSessionId RunnerSlotOrdinal LeaseGuard SlotMutation
  | AuthorizeOrphan OrphanAuthorityGrant
  | ReleaseRejectedLease RunnerSessionId RunnerSlotOrdinal LeaseGuard OperationId
  | ReleaseSlot RunnerSessionId RunnerSlotOrdinal LeaseGuard

primrec apply_mutation ::
  "externals \<Rightarrow> JournalMutation \<Rightarrow> StoredJournal \<Rightarrow> (bool \<times> StoredJournal) jresult" where
  "apply_mutation ext (BeginSession binding) = begin_session binding"
| "apply_mutation ext (PrepareLeasePoll sid slot operation) = prepare_lease_poll sid slot operation"
| "apply_mutation ext (CompleteLeasePoll sid completion) = complete_lease_poll ext sid completion"
| "apply_mutation ext (AcknowledgeLeaseAuthorityReceipts sid slot expected) =
     acknowledge_lease_authority_receipts sid slot expected"
| "apply_mutation ext (RecordCommandDisposition sid command disposition) =
     commit_command sid command disposition"
| "apply_mutation ext (RecordLeaseOffer sid record) = record_offer ext sid record"
| "apply_mutation ext (RecordCancellation sid slot guard record) =
     record_cancellation sid slot guard record"
| "apply_mutation ext (MutateSlot sid slot guard m) = with_slot sid slot guard (apply_slot m)"
| "apply_mutation ext (AuthorizeOrphan grant) = authorize_orphan grant"
| "apply_mutation ext (ReleaseRejectedLease sid slot guard operation) =
     release_rejected_offer sid slot guard operation"
| "apply_mutation ext (ReleaseSlot sid slot guard) = release_slot sid slot guard"

section \<open>Read views\<close>

definition include_oldest :: "UnixMillis \<Rightarrow> UnixMillis option \<Rightarrow> UnixMillis option" where
  "include_oldest candidate current =
     (case current of
        None \<Rightarrow> Some candidate
      | Some value \<Rightarrow> if candidate < value then Some candidate else current)"

record PendingDeliveryTimestamps =
  pending_terminal_result :: "UnixMillis option"
  pending_lease_rejection :: "UnixMillis option"
  pending_log_stream :: "UnixMillis option"

text \<open>The enqueue time of each delivery of a slot that is still owed, if any.\<close>

definition owed_terminal_result :: "SlotSnapshot \<Rightarrow> UnixMillis option" where
  "owed_terminal_result slot =
     (if (case terminal_result slot of None \<Rightarrow> False | Some r \<Rightarrow> \<not> terminal_acknowledged r) \<and>
         \<not> orphan_abandoned TerminalResult (orphan slot)
      then terminal_result_enqueued_at slot else None)"

definition owed_lease_rejection :: "SlotSnapshot \<Rightarrow> UnixMillis option" where
  "owed_lease_rejection slot =
     (if (case rejection slot of None \<Rightarrow> False | Some r \<Rightarrow> \<not> response_acknowledged r) \<and>
         \<not> orphan_abandoned LeaseRejection (orphan slot)
      then rejection_enqueued_at slot else None)"

definition owed_log_stream :: "SlotSnapshot \<Rightarrow> UnixMillis option" where
  "owed_log_stream slot =
     (case log_delivery slot of
        None \<Rightarrow> None
      | Some log \<Rightarrow>
          if \<not> is_fully_delivered log \<and> \<not> orphan_abandoned LogStream (orphan slot)
          then oldest_pending_enqueued_at log else None)"

definition include_owed :: "UnixMillis option \<Rightarrow> UnixMillis option \<Rightarrow> UnixMillis option" where
  "include_owed owed current = (case owed of None \<Rightarrow> current | Some at \<Rightarrow> include_oldest at current)"

definition pending_delivery_timestamps :: "StoredJournal \<Rightarrow> PendingDeliveryTimestamps" where
  "pending_delivery_timestamps self =
     foldl (\<lambda>timestamps slot.
       \<lparr>pending_terminal_result =
          include_owed (owed_terminal_result slot) (pending_terminal_result timestamps),
        pending_lease_rejection =
          include_owed (owed_lease_rejection slot) (pending_lease_rejection timestamps),
        pending_log_stream = include_owed (owed_log_stream slot) (pending_log_stream timestamps)\<rparr>)
       \<lparr>pending_terminal_result = None, pending_lease_rejection = None, pending_log_stream = None\<rparr>
       (slots self)"

definition journal_slot :: "RunnerSlotOrdinal \<Rightarrow> StoredJournal \<Rightarrow> SlotSnapshot option" where
  "journal_slot slot self =
     (case binary_search_by_key slot_ordinal slot (slots self) of
        Found index \<Rightarrow> Some (slots self ! index)
      | Missing _ \<Rightarrow> None)"

definition slot_content_references :: "SlotSnapshot \<Rightarrow> DurableContentRef list" where
  "slot_content_references slot =
     job_ir_content (offer_job_ir (offer slot)) #
     (case runtime_authority_delivery slot of None \<Rightarrow> [] | Some d \<Rightarrow> [delivery_content d]) @
     (case terminal_result slot of None \<Rightarrow> [] | Some r \<Rightarrow> [terminal_content r]) @
     (case log_delivery slot of None \<Rightarrow> [] | Some log \<Rightarrow> map segment_content (segments log)) @
     concat (map (\<lambda>op. endpoint_request op #
       (case endpoint_result op of None \<Rightarrow> [] | Some result \<Rightarrow> [result])) (endpoint_operations slot))"

definition content_references :: "StoredJournal \<Rightarrow> DurableContentRef list" where
  "content_references self = concat (map slot_content_references (slots self))"

end
