(* ===== verification/JournalInvariant.thy ===== *)
theory JournalInvariant
  imports JournalState
begin

text \<open>
  The durable invariant of the journal, stated over the data, and the proof that
  \<open>StoredJournal::validate\<close> decides it.  Both vectors that the journal searches are kept sorted, so the
  interpretations below give every caller of a binary search its contract.
\<close>

section \<open>Searching slots and checkpoints\<close>

interpretation slot_search: keyed_search slot_ordinal "binary_search_by_key slot_ordinal"
proof
  fix xs k i
  assume "strictly_sorted_by slot_ordinal xs"
  note found = binary_search_correct[OF this, of k]
  show "binary_search_by_key slot_ordinal k xs = Found i \<Longrightarrow> i < length xs \<and> slot_ordinal (xs ! i) = k"
    using found by simp
  show "binary_search_by_key slot_ordinal k xs = Missing i \<Longrightarrow>
    i \<le> length xs \<and> (\<forall>j<i. slot_ordinal (xs ! j) < k) \<and>
    (\<forall>j. i \<le> j \<and> j < length xs \<longrightarrow> k < slot_ordinal (xs ! j))"
    using found by simp
qed

interpretation checkpoint_search:
  keyed_search "checkpoint_slot :: LeasePollCheckpoint \<Rightarrow> RunnerSlotOrdinal"
    "binary_search_by_key checkpoint_slot"
proof
  fix xs :: "LeasePollCheckpoint list" and k i
  assume "strictly_sorted_by checkpoint_slot xs"
  note found = binary_search_correct[OF this, of k]
  show "binary_search_by_key checkpoint_slot k xs = Found i \<Longrightarrow>
    i < length xs \<and> checkpoint_slot (xs ! i) = k"
    using found by simp
  show "binary_search_by_key checkpoint_slot k xs = Missing i \<Longrightarrow>
    i \<le> length xs \<and> (\<forall>j<i. checkpoint_slot (xs ! j) < k) \<and>
    (\<forall>j. i \<le> j \<and> j < length xs \<longrightarrow> k < checkpoint_slot (xs ! j))"
    using found by simp
qed

section \<open>The invariant\<close>

definition tombstone_sequence :: "CommandTombstone \<Rightarrow> CommandSequence" where
  "tombstone_sequence t = command_sequence (tombstone_command t)"

definition tombstone_operation :: "CommandTombstone \<Rightarrow> OperationId" where
  "tombstone_operation t = command_operation_id (tombstone_command t)"

definition tombstones_ok :: "CommandTombstone list \<Rightarrow> bool" where
  "tombstones_ok ts \<longleftrightarrow>
     strictly_sorted_by tombstone_sequence ts \<and> distinct (map tombstone_operation ts)"

definition cursor_matches :: "CommandCursor \<Rightarrow> CommandTombstone list \<Rightarrow> bool" where
  "cursor_matches cursor ts \<longleftrightarrow> acknowledged_through cursor = map_option tombstone_sequence (last_opt ts)"

definition checkpoint_operations :: "LeasePollCheckpoint \<Rightarrow> OperationId list" where
  "checkpoint_operations c =
     current_operation_id c # (case acknowledges_operation_id c of None \<Rightarrow> [] | Some i \<Rightarrow> [i])"

definition checkpoint_ok :: "LeasePollCheckpoint \<Rightarrow> bool" where
  "checkpoint_ok c \<longleftrightarrow> unat (checkpoint_slot c) \<le> MAX_JOURNALED_SLOTS \<and>
     validate_authority_receipts (pending_authority_receipts c) = Ok ()"

definition checkpoints_ok :: "LeasePollCheckpoint list \<Rightarrow> bool" where
  "checkpoints_ok cs \<longleftrightarrow> list_all checkpoint_ok cs \<and> strictly_sorted_by checkpoint_slot cs \<and>
     distinct (concat (map checkpoint_operations cs))"

definition session_inv :: "SessionSnapshot \<Rightarrow> bool" where
  "session_inv s \<longleftrightarrow>
     ProtocolRange_contains SUPPORTED_PROTOCOL_RANGE (selected_protocol s) \<and>
     JobIrVersionRange_supports JobIrVersionRange_current (selected_job_ir s) \<and>
     length (command_tombstones s) \<le> MAX_COMMAND_TOMBSTONES \<and>
     length (lease_poll_checkpoints s) \<le> MAX_JOURNALED_SLOTS \<and>
     tombstones_ok (command_tombstones s) \<and> cursor_matches (command_cursor s) (command_tombstones s) \<and>
     checkpoints_ok (lease_poll_checkpoints s)"

definition slot_commands :: "SlotSnapshot \<Rightarrow> DurableCommand list" where
  "slot_commands s =
     offer_command (offer s) #
     (case cancellation s of None \<Rightarrow> [] | Some c \<Rightarrow> [cancellation_command c])"

definition commands :: "SlotSnapshot list \<Rightarrow> DurableCommand list" where
  "commands ss = concat (map slot_commands ss)"

text \<open>A command of an occupied slot was applied, and the cursor of the session is past it.\<close>

definition command_settled :: "SessionSnapshot \<Rightarrow> DurableCommand \<Rightarrow> bool" where
  "command_settled s c \<longleftrightarrow> command_has_applied_tombstone_or_is_older c s \<and>
     (\<exists>k. acknowledged_through (command_cursor s) = Some k \<and> command_sequence c \<le> k)"

definition slot_in_session :: "externals \<Rightarrow> RunnerId \<Rightarrow> SessionSnapshot \<Rightarrow> SlotSnapshot \<Rightarrow> bool" where
  "slot_in_session ext r s slot \<longleftrightarrow> unat (slot_ordinal slot) \<le> MAX_JOURNALED_SLOTS \<and>
     slot_inv ext r (session_id s) (selected_job_ir s) slot"

definition slots_inv :: "externals \<Rightarrow> RunnerId \<Rightarrow> SessionSnapshot \<Rightarrow> SlotSnapshot list \<Rightarrow> bool" where
  "slots_inv ext r s ss \<longleftrightarrow> list_all (slot_in_session ext r s) ss \<and>
     strictly_sorted_by slot_ordinal ss \<and>
     distinct (map command_sequence (commands ss)) \<and> distinct (map command_operation_id (commands ss)) \<and>
     list_all (command_settled s) (commands ss)"

definition journal_body :: "externals \<Rightarrow> StoredJournal \<Rightarrow> bool" where
  "journal_body ext j \<longleftrightarrow>
     journal_schema_version j = RUNNER_JOURNAL_SCHEMA_VERSION \<and> length (slots j) \<le> MAX_JOURNALED_SLOTS \<and>
     (case session j of
        None \<Rightarrow> slots j = []
      | Some s \<Rightarrow> session_inv s \<and> slots_inv ext (runner_id j) s (slots j))"

definition journal_inv :: "externals \<Rightarrow> StoredJournal \<Rightarrow> bool" where
  "journal_inv ext j \<longleftrightarrow> journal_body ext j \<and> (session j \<noteq> None \<longrightarrow> revision j \<noteq> 0)"

section \<open>Validation decides the invariant\<close>

lemma commands_simps [simp]: "commands [] = []" "commands (s # ss) = slot_commands s @ commands ss"
  by (simp_all add: commands_def)

lemma commands_append [simp]: "commands (xs @ ys) = commands xs @ commands ys"
  by (simp add: commands_def)

lemma validate_tombstones_eq_Ok:
  "validate_tombstones previous ids ts = Ok () \<longleftrightarrow>
     tombstones_ok ts \<and> (\<forall>t \<in> set ts. tombstone_operation t \<notin> set ids \<and>
       (\<forall>p. previous = Some p \<longrightarrow> p < tombstone_sequence t))"
proof (induction ts arbitrary: previous ids)
  case (Cons t ts)
  show ?case
    by (auto simp: Let_def Cons.IH tombstones_ok_def strictly_sorted_by_iff image_iff
        tombstone_sequence_def[symmetric] tombstone_operation_def[symmetric] split: option.splits)
qed (simp add: tombstones_ok_def)

lemma validate_checkpoints_eq_Ok:
  "validate_checkpoints previous ids cs = Ok () \<longleftrightarrow>
     checkpoints_ok cs \<and> set (concat (map checkpoint_operations cs)) \<inter> set ids = {} \<and>
     (\<forall>c \<in> set cs. \<forall>p. previous = Some p \<longrightarrow> p < checkpoint_slot c)"
proof (induction cs arbitrary: previous ids)
  case (Cons c cs)
  show ?case
    by (cases previous; cases "acknowledges_operation_id c")
       (auto simp: Let_def Cons.IH result_simps checkpoints_ok_def checkpoint_ok_def strictly_sorted_by_iff
        checkpoint_operations_def)
qed (simp add: checkpoints_ok_def)

lemma validate_session_eq_Ok: "validate_session s = Ok () \<longleftrightarrow> session_inv s"
  by (cases "acknowledged_through (command_cursor s)"; cases "last_opt (command_tombstones s)")
     (auto simp: validate_session_def session_inv_def result_simps validate_tombstones_eq_Ok
      validate_checkpoints_eq_Ok cursor_matches_def tombstone_sequence_def)

text \<open>The commands of one slot, as the loop checks and collects them.\<close>

definition fresh_commands ::
  "CommandSequence list \<Rightarrow> OperationId list \<Rightarrow> DurableCommand list \<Rightarrow> bool" where
  "fresh_commands sequences operations cs \<longleftrightarrow>
     distinct (map command_sequence cs) \<and> distinct (map command_operation_id cs) \<and>
     command_sequence ` set cs \<inter> set sequences = {} \<and> command_operation_id ` set cs \<inter> set operations = {}"

lemma fresh_commands_append:
  "fresh_commands ss os (xs @ ys) \<longleftrightarrow> fresh_commands ss os xs \<and>
     fresh_commands (rev (map command_sequence xs) @ ss) (rev (map command_operation_id xs) @ os) ys"
  by (auto simp: fresh_commands_def)

lemma validate_slots_Cons:
  "validate_slots ext r (Some s) previous ss os (slot # rest) = Ok () \<longleftrightarrow>
     slot_in_session ext r s slot \<and> (\<forall>p. previous = Some p \<longrightarrow> p < slot_ordinal slot) \<and>
     fresh_commands ss os (slot_commands slot) \<and> list_all (command_settled s) (slot_commands slot) \<and>
     validate_slots ext r (Some s) (Some (slot_ordinal slot))
       (rev (map command_sequence (slot_commands slot)) @ ss)
       (rev (map command_operation_id (slot_commands slot)) @ os) rest = Ok ()"
  by (cases previous; cases "cancellation slot"; cases "acknowledged_through (command_cursor s)")
     (auto simp: result_simps Let_def slot_in_session_def slot_validate_iff fresh_commands_def
      slot_commands_def command_settled_def not_less not_le)

declare validate_slots.simps(2) [simp del]

lemma validate_slots_eq_Ok:
  "validate_slots ext r (Some s) previous sq os ss = Ok () \<longleftrightarrow>
     list_all (slot_in_session ext r s) ss \<and> strictly_sorted_by slot_ordinal ss \<and>
     fresh_commands sq os (commands ss) \<and> list_all (command_settled s) (commands ss) \<and>
     (\<forall>x \<in> set ss. \<forall>p. previous = Some p \<longrightarrow> p < slot_ordinal x)"
proof (induction ss arbitrary: previous sq os)
  case Nil
  then show ?case by (simp add: fresh_commands_def)
next
  case (Cons slot ss)
  show ?case
    unfolding validate_slots_Cons Cons.IH by (auto simp: fresh_commands_append strictly_sorted_by_iff)
qed

theorem journal_validate_iff: "StoredJournal_validate ext j = Ok () \<longleftrightarrow> journal_inv ext j"
proof (cases "session j")
  case None
  then show ?thesis
    by (auto simp: StoredJournal_validate_def journal_inv_def journal_body_def)
next
  case (Some s)
  then show ?thesis
    by (auto simp: StoredJournal_validate_def journal_inv_def journal_body_def result_simps
        validate_session_eq_Ok validate_slots_eq_Ok slots_inv_def fresh_commands_def)
qed

end
