(* ===== verification/JournalPreserve.thy ===== *)
theory JournalPreserve
  imports JournalInvariant
begin

text \<open>
  Every mutation of the journal keeps the durable invariant.  \<open>journal_ok\<close> adds to it what the
  types of the source promise (slot ordinals are not zero, command sequences are in range) and
  that a log stream exists only for an accepted offer.
\<close>

section \<open>The inductive invariant\<close>

definition session_ok :: "SessionSnapshot \<Rightarrow> bool" where
  "session_ok s \<longleftrightarrow> session_inv s \<and> command_cursor_ok (command_cursor s) \<and>
     list_all (\<lambda>c. checkpoint_slot c \<noteq> 0) (lease_poll_checkpoints s)"

definition slots_ok :: "externals \<Rightarrow> RunnerId \<Rightarrow> SessionSnapshot \<Rightarrow> SlotSnapshot list \<Rightarrow> bool" where
  "slots_ok ext r s ss \<longleftrightarrow> slots_inv ext r s ss \<and> list_all no_early_log ss"

definition journal_ok :: "externals \<Rightarrow> StoredJournal \<Rightarrow> bool" where
  "journal_ok ext j \<longleftrightarrow>
     journal_schema_version j = RUNNER_JOURNAL_SCHEMA_VERSION \<and> length (slots j) \<le> MAX_JOURNALED_SLOTS \<and>
     (case session j of
        None \<Rightarrow> slots j = []
      | Some s \<Rightarrow> session_ok s \<and> slots_ok ext (runner_id j) s (slots j))"

lemma journal_ok_body: "journal_ok ext j \<Longrightarrow> journal_body ext j"
  by (auto simp: journal_ok_def journal_body_def session_ok_def slots_ok_def split: option.splits)

lemma journal_ok_session:
  "journal_ok ext j \<Longrightarrow> session j = Some s \<Longrightarrow> session_ok s \<and> slots_ok ext (runner_id j) s (slots j)"
  by (simp add: journal_ok_def)

lemma journal_ok_sorted: "journal_ok ext j \<Longrightarrow> strictly_sorted_by slot_ordinal (slots j)"
  by (auto simp: journal_ok_def slots_ok_def slots_inv_def split: option.splits)

lemma journal_ok_new: "journal_ok ext (StoredJournal_new r)"
  by (simp add: journal_ok_def StoredJournal_new_def)

lemma slots_ok_nth:
  "slots_ok ext r s ss \<Longrightarrow> i < length ss \<Longrightarrow> slot_ok ext r (session_id s) (selected_job_ir s) (ss ! i)"
  by (auto simp: slots_ok_def slots_inv_def slot_in_session_def slot_ok_def list_all_length)

section \<open>Finding the session and the fenced slot\<close>

lemma require_session_eq_Ok [result_simps]:
  "require_session sid j = Ok b \<longleftrightarrow>
     (\<exists>s. session j = Some s \<and> session_id s = sid \<and> b = SessionSnapshot_binding s)"
  by (auto simp: require_session_def result_simps)

lemma require_guard_eq_Ok [result_simps]: "require_guard g s = Ok u \<longleftrightarrow> slot_guard s = g"
  by (simp add: require_guard_def)

lemma fenced_index_OkE:
  assumes "fenced_index sid slot g j = Ok i" "journal_ok ext j"
  obtains s where "session j = Some s" "session_id s = sid" "session_ok s"
    "slots_ok ext (runner_id j) s (slots j)" "i < length (slots j)"
    "slot_ordinal (slots j ! i) = slot" "slot_guard (slots j ! i) = g"
proof -
  from assms(1) obtain s where s: "session j = Some s" "session_id s = sid"
    and i: "binary_search_by_key slot_ordinal slot (slots j) = Found i" "slot_guard (slots j ! i) = g"
    by (auto simp: fenced_index_def slot_index_def result_simps split: search.splits)
  with slot_search.lookup_found[OF journal_ok_sorted[OF assms(2)] i(1)]
    journal_ok_session[OF assms(2) s(1)]
  show ?thesis by (auto intro: that)
qed

lemma fenced_index_found:
  assumes "journal_ok ext j" "session j = Some s" "session_id s = sid" "i < length (slots j)"
    and "slot_ordinal (slots j ! i) = slot" "slot_guard (slots j ! i) = g"
  shows "fenced_index sid slot g j = Ok i"
  using assms slot_search.lookup_eq_Found[OF journal_ok_sorted[OF assms(1)], of slot i]
  by (auto simp: fenced_index_def slot_index_def require_session_def require_guard_def)

section \<open>Replacing, removing and adding a slot\<close>

lemma split_nth: "i < length xs \<Longrightarrow> \<exists>A B. xs = A @ xs ! i # B \<and> length A = i"
  by (metis id_take_nth_drop length_take less_imp_le min_absorb2)

lemma remove_at_split: "i < length xs \<Longrightarrow> \<exists>A B. xs = A @ xs ! i # B \<and> remove_at i xs = A @ B"
  using id_take_nth_drop[of i xs] by (auto simp: remove_at_def)

lemma commands_replace:
  assumes "i < length ss" "slot_commands y = slot_commands (ss ! i)"
  shows "commands (ss[i := y]) = commands ss"
proof -
  have "map slot_commands (ss[i := y]) = map slot_commands ss"
    using assms by (simp add: map_update) (metis list_update_id map_update)
  then show ?thesis by (simp add: commands_def)
qed

lemma same_offer_commands: "same_offer s s' \<Longrightarrow> slot_commands s' = slot_commands s"
  by (simp add: same_offer_def slot_commands_def)

lemma slots_ok_iff:
  "slots_ok ext r s ss \<longleftrightarrow>
     list_all (\<lambda>x. unat (slot_ordinal x) \<le> MAX_JOURNALED_SLOTS \<and>
       slot_ok ext r (session_id s) (selected_job_ir s) x) ss \<and>
     strictly_sorted_by slot_ordinal ss \<and> fresh_commands [] [] (commands ss) \<and>
     list_all (command_settled s) (commands ss)"
  by (auto simp: slots_ok_def slots_inv_def slot_in_session_def slot_ok_def fresh_commands_def list_all_iff)

lemma slots_ok_replace:
  assumes "slots_ok ext r s ss" "i < length ss" "same_offer (ss ! i) y"
    and "slot_ok ext r (session_id s) (selected_job_ir s) y"
  shows "slots_ok ext r s (ss[i := y])"
proof -
  have ord: "slot_ordinal y = slot_ordinal (ss ! i)"
    using assms(3) by (simp add: same_offer_def slot_ordinal_def)
  have "set (ss[i := y]) \<subseteq> insert y (set ss)" by (rule set_update_subset_insert)
  then show ?thesis
    using assms(1,2,4) ord nth_mem[OF assms(2)]
    unfolding slots_ok_iff
    by (auto simp: commands_replace same_offer_commands[OF assms(3)] strictly_sorted_by_update
        list_all_iff)
qed

lemma fresh_commands_remove:
  "fresh_commands sq os (xs @ ys @ zs) \<Longrightarrow> fresh_commands sq os (xs @ zs)"
  by (auto simp: fresh_commands_def)

lemma slots_ok_remove:
  assumes "slots_ok ext r s ss" "i < length ss"
  shows "slots_ok ext r s (remove_at i ss)"
proof -
  obtain A B where AB: "ss = A @ ss ! i # B" "remove_at i ss = A @ B"
    using remove_at_split[OF assms(2)] by blast
  have "commands ss = commands A @ slot_commands (ss ! i) @ commands B"
    by (subst AB(1)) simp
  moreover have "set ss = set A \<union> {ss ! i} \<union> set B" by (subst AB(1)) auto
  moreover have "strictly_sorted_by slot_ordinal (A @ B)"
    using assms(1) strictly_sorted_by_remove[of slot_ordinal ss i] AB(2) by (simp add: slots_ok_iff)
  ultimately show ?thesis
    using assms(1) unfolding AB(2)
    by (auto simp: slots_ok_iff list_all_iff dest: fresh_commands_remove)
qed

lemma slots_ok_insert:
  assumes "slots_ok ext r s ss" "binary_search_by_key slot_ordinal (slot_ordinal y) ss = Missing i"
    and "slot_ok ext r (session_id s) (selected_job_ir s) y"
    and "unat (slot_ordinal y) \<le> MAX_JOURNALED_SLOTS"
    and "slot_commands y = [c]" "command_settled s c"
    and "command_sequence c \<notin> command_sequence ` set (commands ss)"
    and "command_operation_id c \<notin> command_operation_id ` set (commands ss)"
  shows "slots_ok ext r s (insert_at i y ss)"
proof -
  obtain A B where AB: "ss = A @ B" "insert_at i y ss = A @ y # B"
    by (metis append_take_drop_id insert_at_def)
  have "strictly_sorted_by slot_ordinal (insert_at i y ss)"
    using assms(1,2) by (intro slot_search.insert_sorted) (auto simp: slots_ok_iff)
  then show ?thesis
    using assms(1,3-) unfolding AB(2) by (auto simp: AB(1) slots_ok_iff fresh_commands_def)
qed

section \<open>Slots under a changed session\<close>

lemma slots_ok_session:
  assumes "slots_ok ext r s ss" "session_id s' = session_id s" "selected_job_ir s' = selected_job_ir s"
    and "\<And>c. c \<in> set (commands ss) \<Longrightarrow> command_settled s c \<Longrightarrow> command_settled s' c"
  shows "slots_ok ext r s' ss"
  using assms by (auto simp: slots_ok_iff list_all_iff)

lemma command_settled_checkpoints [simp]:
  "command_settled (s\<lparr>lease_poll_checkpoints := cs\<rparr>) c = command_settled s c"
  by (simp add: command_settled_def command_has_applied_tombstone_or_is_older_def split: option.split)

lemma slots_ok_checkpoints [simp]:
  "slots_ok ext r (s\<lparr>lease_poll_checkpoints := cs\<rparr>) ss = slots_ok ext r s ss"
  by (simp add: slots_ok_iff list_all_iff)

section \<open>Committing a command\<close>

lemma push_tombstone_eq:
  "push_tombstone t ts = (if length ts \<ge> MAX_COMMAND_TOMBSTONES then tl ts @ [t] else ts @ [t])"
  by (cases ts) (auto simp: push_tombstone_def Let_def remove_at_def MAX_COMMAND_TOMBSTONES_def)

lemma set_push_tombstone: "set (push_tombstone t ts) \<subseteq> insert t (set ts)"
  by (cases ts) (auto simp: push_tombstone_eq)

definition committed :: "DurableCommand \<Rightarrow> CommandDisposition \<Rightarrow> SessionSnapshot \<Rightarrow> SessionSnapshot" where
  "committed c d s = s\<lparr>command_cursor := CommandCursor_through (command_sequence c),
     command_tombstones := push_tombstone \<lparr>tombstone_command = c, tombstone_disposition = d\<rparr>
       (command_tombstones s)\<rparr>"

lemma committed_fields [simp]:
  "session_id (committed c d s) = session_id s"
  "selected_job_ir (committed c d s) = selected_job_ir s"
  "selected_protocol (committed c d s) = selected_protocol s"
  "lease_poll_checkpoints (committed c d s) = lease_poll_checkpoints s"
  "command_cursor (committed c d s) = CommandCursor_through (command_sequence c)"
  "acknowledged_through (CommandCursor_through n) = Some n"
  by (simp_all add: committed_def CommandCursor_through_def)

lemma find_mem: "find P xs = Some x \<Longrightarrow> x \<in> set xs \<and> P x"
  by (induction xs) (auto split: if_splits)

text \<open>A command is committed exactly when it is the next one and its operation is new.\<close>

lemma commit_command_OkE:
  assumes "commit_command sid c d j = Ok (b, j')"
  obtains s where "session j = Some s" "session_id s = sid" "\<not> b" "j' = j"
    "\<exists>t \<in> set (command_tombstones s). tombstone_command t = c \<and> tombstone_disposition t = d"
  | s where "session j = Some s" "session_id s = sid" b "j' = j\<lparr>session := Some (committed c d s)\<rparr>"
    "\<not> command_is_used c j"
    "CommandCursor_advance (command_cursor s) (command_sequence c) =
       Ok (CommandCursor_through (command_sequence c))"
proof -
  from assms obtain s where s: "session j = Some s" "session_id s = sid"
    by (auto simp: commit_command_def result_simps)
  show ?thesis
  proof (cases "case acknowledged_through (command_cursor s) of
      Some current \<Rightarrow> command_sequence c \<le> current | None \<Rightarrow> False")
    case True
    with assms s show ?thesis
      by (intro that(1)[of s])
         (auto simp: commit_command_def result_simps require_session_def dest: find_mem
          split: if_splits)
  next
    case False
    have adv: "CommandCursor_advance x n = Ok y \<Longrightarrow> y = CommandCursor_through n" for x n y
      by (auto simp: CommandCursor_advance_def result_simps)
    from False assms s show ?thesis
      by (intro that(2)[of s])
         (auto simp: commit_command_def result_simps require_session_def committed_def dest: adv)
  qed
qed

lemma advance_above:
  assumes "CommandCursor_advance cur n = Ok cur'" "command_cursor_ok cur" "acknowledged_through cur = Some k"
  shows "k < n"
  using assms by (simp add: CommandCursor_advance_eq_Ok cursor_position_def word_less_nat_alt)

lemma tombstone_below_cursor:
  assumes "session_ok s" "t \<in> set (command_tombstones s)"
  shows "\<exists>k. acknowledged_through (command_cursor s) = Some k \<and> tombstone_sequence t \<le> k"
proof -
  obtain ts l where ts: "command_tombstones s = ts @ [l]"
    using assms(2) by (cases "command_tombstones s" rule: rev_cases) auto
  with assms show ?thesis
    by (auto simp: session_ok_def session_inv_def cursor_matches_def tombstones_ok_def
        strictly_sorted_by_iff sorted_wrt_append)
qed

lemma strictly_sorted_snoc:
  "strictly_sorted_by key xs \<Longrightarrow> (\<And>x. x \<in> set xs \<Longrightarrow> key x < key y) \<Longrightarrow>
   strictly_sorted_by key (xs @ [y])"
  by (simp add: strictly_sorted_by_iff sorted_wrt_append)

lemma tombstones_ok_push:
  assumes "tombstones_ok ts" "\<And>x. x \<in> set ts \<Longrightarrow> tombstone_sequence x < tombstone_sequence t"
    and "tombstone_operation t \<notin> tombstone_operation ` set ts"
  shows "tombstones_ok (push_tombstone t ts)"
  using assms
  by (cases ts) (auto simp: push_tombstone_eq tombstones_ok_def strictly_sorted_by_iff sorted_wrt_append)

lemma not_used_tombstone:
  "\<not> command_is_used c j \<Longrightarrow> session j = Some s \<Longrightarrow>
   command_operation_id c \<notin> tombstone_operation ` set (command_tombstones s)"
  by (auto simp: command_is_used_def list_ex_iff tombstone_operation_def)

lemma not_used_slot:
  "\<not> command_is_used c j \<Longrightarrow> command_operation_id c \<notin> command_operation_id ` set (commands (slots j))"
  by (auto simp: command_is_used_def list_ex_iff commands_def slot_commands_def
      eq_commute[of "Some _" "cancellation _"] split: option.splits)

lemma committed_session_ok:
  assumes "session_ok s" "session j = Some s" "\<not> command_is_used c j"
    and "CommandCursor_advance (command_cursor s) (command_sequence c) =
       Ok (CommandCursor_through (command_sequence c))"
  shows "session_ok (committed c d s)"
proof -
  let ?t = "\<lparr>tombstone_command = c, tombstone_disposition = d\<rparr>"
  have ok: "command_cursor_ok (command_cursor s)" "tombstones_ok (command_tombstones s)"
    using assms(1) by (simp_all add: session_ok_def session_inv_def)
  have "tombstone_sequence x < tombstone_sequence ?t" if "x \<in> set (command_tombstones s)" for x
    using tombstone_below_cursor[OF assms(1) that] advance_above[OF assms(4) ok(1)]
    by (auto simp: tombstone_sequence_def)
  moreover have "tombstone_operation ?t \<notin> tombstone_operation ` set (command_tombstones s)"
    using not_used_tombstone[OF assms(3,2)] by (simp add: tombstone_operation_def)
  ultimately have "tombstones_ok (command_tombstones (committed c d s))"
    using ok(2) by (simp add: committed_def tombstones_ok_push)
  moreover have "cursor_matches (command_cursor (committed c d s)) (command_tombstones (committed c d s))"
    "length (command_tombstones (committed c d s)) \<le> MAX_COMMAND_TOMBSTONES"
    using assms(1)
    by (auto simp: cursor_matches_def committed_def push_tombstone_eq tombstone_sequence_def
        session_ok_def session_inv_def CommandCursor_through_def MAX_COMMAND_TOMBSTONES_def)
  ultimately show ?thesis
    using assms(1) CommandCursor_advance_ok[OF ok(1) assms(4)]
    by (simp add: session_ok_def session_inv_def)
qed

lemma committed_settled:
  assumes "session_ok s" "command_settled s c"
    and "CommandCursor_advance (command_cursor s) (command_sequence n) =
       Ok (CommandCursor_through (command_sequence n))"
  shows "command_settled (committed n d s) c"
proof -
  have ok: "command_cursor_ok (command_cursor s)" "strictly_sorted_by tombstone_sequence (command_tombstones s)"
    using assms(1) by (simp_all add: session_ok_def session_inv_def tombstones_ok_def)
  from assms(2) obtain k where k: "acknowledged_through (command_cursor s) = Some k" "command_sequence c \<le> k"
    by (auto simp: command_settled_def)
  have "k < command_sequence n" using advance_above[OF assms(3) ok(1) k(1)] .
  moreover obtain x xs where ts: "command_tombstones s = x # xs"
    using assms(2) by (cases "command_tombstones s")
      (auto simp: command_settled_def command_has_applied_tombstone_or_is_older_def)
  ultimately show ?thesis
    using assms(2) k ok(2)
    by (cases xs)
       (auto simp: command_settled_def command_has_applied_tombstone_or_is_older_def committed_def
        push_tombstone_eq CommandCursor_through_def strictly_sorted_by_iff tombstone_sequence_def
        MAX_COMMAND_TOMBSTONES_def)
qed

lemma committed_settles: "command_settled (committed c CommandApplied s) c"
  by (cases "command_tombstones s"; cases "tl (command_tombstones s)")
     (auto simp: command_settled_def command_has_applied_tombstone_or_is_older_def committed_def
      push_tombstone_eq CommandCursor_through_def)

lemma committed_slots_ok:
  assumes "slots_ok ext r s ss" "session_ok s"
    and "CommandCursor_advance (command_cursor s) (command_sequence c) =
       Ok (CommandCursor_through (command_sequence c))"
  shows "slots_ok ext r (committed c d s) ss"
  using assms by (intro slots_ok_session[OF assms(1)]) (auto intro: committed_settled)

lemma committed_fresh:
  assumes "slots_ok ext r s ss" "session_ok s"
    and "CommandCursor_advance (command_cursor s) (command_sequence c) =
       Ok (CommandCursor_through (command_sequence c))"
  shows "command_sequence c \<notin> command_sequence ` set (commands ss)"
proof -
  have "command_cursor_ok (command_cursor s)" using assms(2) by (simp add: session_ok_def)
  from advance_above[OF assms(3) this] show ?thesis
    using assms(1) by (force simp: slots_ok_iff list_all_iff command_settled_def)
qed

lemma commit_command_ok:
  assumes "journal_ok ext j" "commit_command sid c d j = Ok (b, j')"
  shows "journal_ok ext j'"
  using assms(2)
proof (cases rule: commit_command_OkE)
  case (2 s)
  with journal_ok_session[OF assms(1) 2(1)] assms(1) show ?thesis
    by (auto simp: journal_ok_def intro: committed_session_ok committed_slots_ok)
qed (use assms(1) in simp)

section \<open>Lease polls\<close>

lemma not_used_operation:
  "lease_poll_operation_is_used i s \<longleftrightarrow>
     i \<in> set (concat (map checkpoint_operations (lease_poll_checkpoints s)))"
  by (auto simp: lease_poll_operation_is_used_def list_ex_iff checkpoint_operations_def
      eq_commute[of "Some _" "acknowledges_operation_id _"] split: option.splits)

lemma checkpoints_ok_replace:
  assumes "checkpoints_ok cs" "i < length cs" "checkpoint_ok c" "checkpoint_slot c = checkpoint_slot (cs ! i)"
    and "distinct (checkpoint_operations c)"
    and "set (checkpoint_operations c) \<subseteq> set (checkpoint_operations (cs ! i)) \<union> N"
    and "N \<inter> set (concat (map checkpoint_operations cs)) = {}"
  shows "checkpoints_ok (cs[i := c])"
proof -
  obtain A B where AB: "cs = A @ cs ! i # B" "length A = i"
    using split_nth[OF assms(2)] by blast
  then have c: "cs[i := c] = A @ c # B" by (metis list_update_length)
  have "strictly_sorted_by checkpoint_slot (cs[i := c])"
    using assms by (simp add: checkpoints_ok_def strictly_sorted_by_update)
  moreover have "list_all checkpoint_ok (A @ cs ! i # B)" "distinct (concat (map checkpoint_operations (A @ cs ! i # B)))"
    "N \<inter> set (concat (map checkpoint_operations (A @ cs ! i # B))) = {}"
    using assms(1,7) by (metis AB(1) checkpoints_ok_def)+
  ultimately show ?thesis
    unfolding checkpoints_ok_def c using assms(3,5,6) by auto blast
qed

lemma session_ok_replace:
  assumes "session_ok s" "i < length (lease_poll_checkpoints s)"
    and "checkpoints_ok ((lease_poll_checkpoints s)[i := c])"
    and "checkpoint_slot c = checkpoint_slot (lease_poll_checkpoints s ! i)"
  shows "session_ok (s\<lparr>lease_poll_checkpoints := (lease_poll_checkpoints s)[i := c]\<rparr>)"
  using assms by (auto simp: session_ok_def session_inv_def list_all_length nth_list_update)

lemma session_ok_checkpoints: "session_ok s \<Longrightarrow> checkpoints_ok (lease_poll_checkpoints s)"
  by (simp add: session_ok_def session_inv_def)

lemma checkpoint_found:
  assumes "session_ok s"
    and "binary_search_by_key checkpoint_slot slot (lease_poll_checkpoints s) = Found i"
  shows "i < length (lease_poll_checkpoints s) \<and> checkpoint_slot (lease_poll_checkpoints s ! i) = slot"
  using session_ok_checkpoints[OF assms(1)] checkpoint_search.lookup_found[OF _ assms(2)]
  by (simp add: checkpoints_ok_def)

text \<open>Only the session changes, and of it only the checkpoints.\<close>

lemma journal_ok_checkpoints:
  assumes "journal_ok ext j" "session j = Some s" "session_ok (s\<lparr>lease_poll_checkpoints := cs\<rparr>)"
  shows "journal_ok ext (j\<lparr>session := Some (s\<lparr>lease_poll_checkpoints := cs\<rparr>)\<rparr>)"
  using assms by (simp add: journal_ok_def)

lemma sorted_ordinals_bounded:
  assumes "strictly_sorted_by key xs" "\<And>x. x \<in> set xs \<Longrightarrow> key x \<noteq> 0 \<and> unat (key x) \<le> n"
  shows "length xs \<le> n"
proof -
  have "distinct (map (unat \<circ> key) xs)"
    using assms(1) strictly_sorted_by_nth[OF assms(1)]
    by (auto simp: distinct_conv_nth) (metis linorder_neqE_nat order_less_irrefl unsigned_word_eqI)
  then have "length xs = card (set (map (unat \<circ> key) xs))" by (metis distinct_card length_map)
  also have "\<dots> \<le> card {1..n}"
    using assms(2) by (intro card_mono) (auto simp: Suc_le_eq unat_gt_0)
  finally show ?thesis by simp
qed

lemma prepare_lease_poll_ok:
  assumes "journal_ok ext j" "prepare_lease_poll sid slot operation j = Ok (b, j')" "slot \<noteq> 0"
  shows "journal_ok ext j'"
proof -
  from assms(2) obtain s where s: "session j = Some s" by (auto simp: prepare_lease_poll_def result_simps)
  let ?cs = "lease_poll_checkpoints s" and ?new = "LeasePollCheckpoint_first slot operation"
  have ok: "session_ok s" using journal_ok_session[OF assms(1) s] by simp
  then have cs: "checkpoints_ok ?cs" "list_all (\<lambda>c. checkpoint_slot c \<noteq> 0) ?cs"
    by (simp_all add: session_ok_def session_inv_def)
  show ?thesis
  proof (cases "binary_search_by_key checkpoint_slot slot ?cs")
    case (Missing i)
    with assms(2) s have new: "unat slot \<le> MAX_JOURNALED_SLOTS" "\<not> lease_poll_operation_is_used operation s"
      "j' = j\<lparr>session := Some (s\<lparr>lease_poll_checkpoints := insert_at i ?new ?cs\<rparr>)\<rparr>"
      by (auto simp: prepare_lease_poll_def result_simps require_session_def)
    obtain A B where AB: "?cs = A @ B" "insert_at i ?new ?cs = A @ ?new # B"
      by (metis append_take_drop_id insert_at_def)
    have new_ok: "checkpoint_ok ?new" "checkpoint_operations ?new = [operation]" "checkpoint_slot ?new = slot"
      using new(1) by (auto simp: checkpoint_ok_def LeasePollCheckpoint_first_def
          checkpoint_operations_def validate_authority_receipts_def)
    have "strictly_sorted_by checkpoint_slot (insert_at i ?new ?cs)"
      using cs(1) Missing new_ok(3)
      by (intro checkpoint_search.insert_sorted) (auto simp: checkpoints_ok_def)
    then have "checkpoints_ok (A @ ?new # B)"
      using cs(1) new_ok new(2) unfolding AB(2) by (auto simp: AB(1) checkpoints_ok_def not_used_operation)
    moreover from this have "length (A @ ?new # B) \<le> MAX_JOURNALED_SLOTS"
      using cs(2) new_ok(3) assms(3)
      by (intro sorted_ordinals_bounded[of checkpoint_slot])
         (auto simp: AB(1) checkpoints_ok_def checkpoint_ok_def list_all_iff)
    ultimately have "session_ok (s\<lparr>lease_poll_checkpoints := A @ ?new # B\<rparr>)"
      using ok new_ok(3) assms(3) by (simp add: session_ok_def session_inv_def AB(1))
    then show ?thesis
      using new(3) journal_ok_checkpoints[OF assms(1) s] by (simp add: AB(2))
  next
    case (Found i)
    with assms s show ?thesis by (auto simp: prepare_lease_poll_def result_simps require_session_def)
  qed
qed

lemma advance_lease_poll_OkE:
  assumes "advance_lease_poll sid slot expected successor receipts j = Ok (b, j')"
  obtains "\<not> b" "j' = j"
  | s i where b "session j = Some s" "session_id s = sid"
    "binary_search_by_key checkpoint_slot slot (lease_poll_checkpoints s) = Found i"
    "current_operation_id (lease_poll_checkpoints s ! i) = expected"
    "\<not> lease_poll_operation_is_used successor s" "validate_authority_receipts receipts = Ok ()"
    "j' = j\<lparr>session := Some (s\<lparr>lease_poll_checkpoints := (lease_poll_checkpoints s)[i :=
        \<lparr>checkpoint_slot = slot, current_operation_id = successor,
         acknowledges_operation_id = Some expected, pending_authority_receipts = receipts\<rparr>]\<rparr>)\<rparr>"
proof -
  from assms obtain s where s: "session j = Some s" "session_id s = sid"
    and r: "validate_authority_receipts receipts = Ok ()"
    by (auto simp: advance_lease_poll_def result_simps)
  show ?thesis
  proof (cases "binary_search_by_key checkpoint_slot slot (lease_poll_checkpoints s)")
    case (Found i)
    with assms s r that show ?thesis
      by (cases "current_operation_id (lease_poll_checkpoints s ! i) = expected")
         (auto simp: advance_lease_poll_def result_simps Let_def require_session_def split: if_splits)
  qed (use assms s r in \<open>simp add: advance_lease_poll_def require_session_def\<close>)
qed

lemma advance_lease_poll_ok:
  assumes "journal_ok ext j" "advance_lease_poll sid slot expected successor receipts j = Ok (b, j')"
  shows "journal_ok ext j'"
  using assms(2)
proof (cases rule: advance_lease_poll_OkE)
  case (2 s i)
  let ?cs = "lease_poll_checkpoints s"
  have ok: "session_ok s" using journal_ok_session[OF assms(1) 2(2)] by simp
  note i = checkpoint_found[OF ok 2(4)]
  have old: "unat (checkpoint_slot (?cs ! i)) \<le> MAX_JOURNALED_SLOTS"
    "expected \<in> set (checkpoint_operations (?cs ! i))"
    using i session_ok_checkpoints[OF ok] 2(5)
    by (auto simp: checkpoints_ok_def checkpoint_ok_def list_all_length checkpoint_operations_def)
  moreover from this have "successor \<noteq> expected" using 2(6) i by (auto simp: not_used_operation)
  ultimately have "checkpoints_ok (?cs[i := \<lparr>checkpoint_slot = slot, current_operation_id = successor,
      acknowledges_operation_id = Some expected, pending_authority_receipts = receipts\<rparr>])"
    using i 2(6,7) session_ok_checkpoints[OF ok]
    by (intro checkpoints_ok_replace[where N = "{successor}"])
       (auto simp: checkpoint_ok_def checkpoint_operations_def not_used_operation)
  with i ok 2(8) show ?thesis
    by (auto intro!: journal_ok_checkpoints[OF assms(1) 2(2)] session_ok_replace)
qed (use assms(1) in simp)

lemma acknowledge_receipts_OkE:
  assumes "acknowledge_lease_authority_receipts sid slot rs j = Ok (b, j')"
  obtains "\<not> b" "j' = j"
  | s i where b "session j = Some s" "session_id s = sid" "validate_authority_receipts rs = Ok ()"
    "binary_search_by_key checkpoint_slot slot (lease_poll_checkpoints s) = Found i"
    "j' = j\<lparr>session := Some (s\<lparr>lease_poll_checkpoints := (lease_poll_checkpoints s)[i :=
        (lease_poll_checkpoints s ! i)\<lparr>pending_authority_receipts := []\<rparr>]\<rparr>)\<rparr>"
proof -
  from assms obtain s where s: "session j = Some s" "session_id s = sid"
    and rs: "validate_authority_receipts rs = Ok ()"
    by (auto simp: acknowledge_lease_authority_receipts_def result_simps)
  show ?thesis
  proof (cases "binary_search_by_key checkpoint_slot slot (lease_poll_checkpoints s)")
    case (Found i)
    with assms s rs show ?thesis
      by (cases "pending_authority_receipts (lease_poll_checkpoints s ! i) = []")
         (auto simp: acknowledge_lease_authority_receipts_def require_session_def Let_def
          intro: that split: if_splits)
  qed (use assms s rs in \<open>simp add: acknowledge_lease_authority_receipts_def require_session_def\<close>)
qed

lemma acknowledge_lease_authority_receipts_ok:
  assumes "journal_ok ext j" "acknowledge_lease_authority_receipts sid slot rs j = Ok (b, j')"
  shows "journal_ok ext j'"
  using assms(2)
proof (cases rule: acknowledge_receipts_OkE)
  case (2 s i)
  have ok: "session_ok s" using journal_ok_session[OF assms(1) 2(2)] by simp
  note len = checkpoint_found[OF ok 2(5)] and cs = session_ok_checkpoints[OF ok]
  let ?c = "(lease_poll_checkpoints s ! i)\<lparr>pending_authority_receipts := []\<rparr>"
  have "checkpoint_operations ?c = checkpoint_operations (lease_poll_checkpoints s ! i)"
    by (simp add: checkpoint_operations_def)
  moreover have "distinct (checkpoint_operations (lease_poll_checkpoints s ! i))"
    using cs len by (auto simp: checkpoints_ok_def distinct_concat_iff)
  ultimately have "checkpoints_ok ((lease_poll_checkpoints s)[i := ?c])"
    using len cs
    by (intro checkpoints_ok_replace[where N = "{}"])
       (auto simp: checkpoint_ok_def validate_authority_receipts_def checkpoints_ok_def list_all_length)
  with len ok 2(6) show ?thesis
    by (auto intro!: journal_ok_checkpoints[OF assms(1) 2(2)] session_ok_replace)
qed (use assms(1) in simp)

section \<open>Operations on slots\<close>

lemma with_slot_OkE:
  assumes "with_slot sid slot g f j = Ok (b, j')" "journal_ok ext j"
  obtains s i y where "session j = Some s" "session_id s = sid" "session_ok s"
    "slots_ok ext (runner_id j) s (slots j)" "i < length (slots j)" "slot_ordinal (slots j ! i) = slot"
    "slot_guard (slots j ! i) = g" "f (slots j ! i) = Ok (b, y)" "j' = j\<lparr>slots := (slots j)[i := y]\<rparr>"
proof -
  from assms(1) obtain i y where i: "fenced_index sid slot g j = Ok i" and f: "f (slots j ! i) = Ok (b, y)"
    and j': "j' = j\<lparr>slots := (slots j)[i := y]\<rparr>"
    by (auto simp: with_slot_def result_simps)
  from i assms(2) show ?thesis
    by (rule fenced_index_OkE) (rule that; use f j' in simp)
qed

lemma journal_ok_slots:
  assumes "journal_ok ext j" "session j = Some s" "slots_ok ext (runner_id j) s ss"
    "length ss \<le> MAX_JOURNALED_SLOTS"
  shows "journal_ok ext (j\<lparr>slots := ss\<rparr>)"
  using assms by (simp add: journal_ok_def)

lemma journal_ok_length: "journal_ok ext j \<Longrightarrow> length (slots j) \<le> MAX_JOURNALED_SLOTS"
  by (simp add: journal_ok_def)

lemma mutate_slot_ok:
  assumes "journal_ok ext j" "with_slot sid slot g (apply_slot m) j = Ok (b, j')"
    and guard: "\<And>s. s \<in> set (slots j) \<Longrightarrow> slot_ordinal s = slot \<Longrightarrow> commit_guard m s"
  shows "journal_ok ext j'"
  using assms(2,1)
proof (cases rule: with_slot_OkE)
  case (1 s i y)
  have "slot_ok ext (runner_id j) (session_id s) (selected_job_ir s) y"
    using 1(5,6,8) by (intro apply_slot_ok[OF slots_ok_nth[OF 1(4,5)] 1(8)] guard) auto
  then have "slots_ok ext (runner_id j) s ((slots j)[i := y])"
    using 1(4,5,8) by (intro slots_ok_replace) (auto intro: apply_slot_same_offer)
  then show ?thesis
    using 1(9) journal_ok_slots[OF assms(1) 1(1)] journal_ok_length[OF assms(1)] by simp
qed

lemma authorize_orphan_ok:
  assumes "journal_ok ext j" "authorize_orphan grant j = Ok (b, j')"
  shows "journal_ok ext j'"
proof -
  let ?c = "grant_claim grant"
  from assms(2) obtain i k y where i: "fenced_index (claim_session_id ?c) (claim_slot ?c) (claim_guard ?c) j = Ok i"
    and k: "slot_index (claim_slot ?c) j = Ok k"
    and y: "slot_authorize_orphan grant (slots j ! k) = Ok (b, y)" "j' = j\<lparr>slots := (slots j)[k := y]\<rparr>"
    by (auto simp: authorize_orphan_def orphan_claim_def Let_def result_simps)
  from i k have [simp]: "k = i" by (auto simp: fenced_index_def result_simps)
  from i assms(1) show ?thesis
  proof (rule fenced_index_OkE)
    fix s
    assume s: "session j = Some s" "session_id s = claim_session_id ?c" "slots_ok ext (runner_id j) s (slots j)"
      "i < length (slots j)" "slot_guard (slots j ! i) = claim_guard ?c"
    have "slot_ok ext (runner_id j) (session_id s) (selected_job_ir s) y"
      using s y by (intro slot_authorize_orphan_ok[OF slots_ok_nth[OF s(3,4)]]) auto
    then have "slots_ok ext (runner_id j) s ((slots j)[i := y])"
      using s y by (intro slots_ok_replace) (auto intro: slot_authorize_orphan_same_offer)
    then show ?thesis
      using y(2) journal_ok_slots[OF assms(1) s(1)] journal_ok_length[OF assms(1)] by simp
  qed
qed

lemma release_ok:
  assumes "journal_ok ext j" "fenced_index sid slot g j = Ok i"
  shows "journal_ok ext (j\<lparr>slots := remove_at i (slots j)\<rparr>)"
  using assms(2,1)
proof (rule fenced_index_OkE)
  fix s
  assume s: "session j = Some s" "slots_ok ext (runner_id j) s (slots j)" "i < length (slots j)"
  then have "length (remove_at i (slots j)) \<le> length (slots j)" by (simp add: remove_at_def)
  with s show ?thesis
    using journal_ok_slots[OF assms(1) s(1) slots_ok_remove[OF s(2,3)]] journal_ok_length[OF assms(1)]
    by simp
qed

section \<open>Offers and cancellations\<close>

lemma from_offer_ok:
  assumes "LeaseOfferRecord_validate ext record = Ok ()" "lease_runner_id (offer_lease record) = r"
    and "job_ir_version (offer_job_ir record) = v"
  shows "slot_ok ext r sid v (SlotSnapshot_from_offer record)"
  using assms
  by (simp add: slot_ok_parts SlotSnapshot_from_offer_def offer_ok_def authority_ok_def endpoints_ok_def
      provider_ok_def rejection_ok_def result_ok_def status_ok_def cancellation_ok_def log_ok_def
      timestamp_ok_def content_refs_def content_charge_def last_pending_def
      ProviderRecoveryState_default_def is_coherent_def replay_provider_operations_def)

lemma record_offer_OkE:
  assumes "record_offer ext sid record j = Ok (b, j')" "journal_ok ext j"
  obtains "\<not> b" "j' = j"
  | s i where b "session j = Some s" "session_id s = sid" "LeaseOfferRecord_validate ext record = Ok ()"
    "lease_runner_id (offer_lease record) = runner_id j"
    "job_ir_version (offer_job_ir record) = selected_job_ir s"
    "unat (offer_slot record) \<le> MAX_JOURNALED_SLOTS" "length (slots j) < MAX_JOURNALED_SLOTS"
    "binary_search_by_key slot_ordinal (offer_slot record) (slots j) = Missing i"
    "commit_command sid (offer_command record) CommandApplied j =
       Ok (True, j\<lparr>session := Some (committed (offer_command record) CommandApplied s)\<rparr>)"
    "j' = j\<lparr>session := Some (committed (offer_command record) CommandApplied s),
        slots := insert_at i (SlotSnapshot_from_offer record) (slots j)\<rparr>"
proof -
  from assms(1) obtain s where s: "session j = Some s" "session_id s = sid"
    by (auto simp: record_offer_def result_simps)
  with assms(1) have valid: "LeaseOfferRecord_validate ext record = Ok ()"
    "lease_runner_id (offer_lease record) = runner_id j"
    "job_ir_version (offer_job_ir record) = selected_job_ir s"
    "unat (offer_slot record) \<le> MAX_JOURNALED_SLOTS"
    by (auto simp: record_offer_def result_simps require_session_def SessionSnapshot_binding_def)
  show ?thesis
  proof (cases "binary_search_by_key slot_ordinal (offer_slot record) (slots j)")
    case (Found i)
    with assms s valid show ?thesis
      by (intro that(1)) (auto simp: record_offer_def result_simps require_session_def
          SessionSnapshot_binding_def split: if_splits)
  next
    case (Missing i)
    with assms(1) s valid obtain c j1
      where c: "commit_command sid (offer_command record) CommandApplied j = Ok (c, j1)"
      and len: "length (slots j) < MAX_JOURNALED_SLOTS"
      and rest: "(if \<not> c then Ok (False, j1) else
         let insertion = (case binary_search_by_key slot_ordinal (offer_slot record) (slots j1) of
                                 Found index \<Rightarrow> index | Missing index \<Rightarrow> index) in
              Ok (True, j1\<lparr>slots := insert_at insertion (SlotSnapshot_from_offer record) (slots j1)\<rparr>)) =
         (Ok (b, j') :: (bool \<times> StoredJournal) jresult)"
      by (auto simp: record_offer_def result_simps require_session_def SessionSnapshot_binding_def
          not_le)
    from c show ?thesis
    proof (cases rule: commit_command_OkE)
      case (1 s')
      with rest show ?thesis by (intro that(1)) auto
    next
      case (2 s')
      with s c rest Missing valid len show ?thesis by (intro that(2)[of s i]) auto
    qed
  qed
qed

lemma committed_journal:
  assumes "journal_ok ext j" "session j = Some s" "commit_command sid c CommandApplied j =
      Ok (True, j\<lparr>session := Some (committed c CommandApplied s)\<rparr>)"
  shows "session_ok (committed c CommandApplied s)"
    "slots_ok ext (runner_id j) (committed c CommandApplied s) (slots j)"
    "command_settled (committed c CommandApplied s) c"
    "command_sequence c \<notin> command_sequence ` set (commands (slots j))"
    "command_operation_id c \<notin> command_operation_id ` set (commands (slots j))"
    "\<forall>x \<in> set (commands (slots j)). command_sequence x < command_sequence c"
proof -
  from assms(3) have adv: "\<not> command_is_used c j" "CommandCursor_advance (command_cursor s) (command_sequence c) =
      Ok (CommandCursor_through (command_sequence c))"
    by (cases rule: commit_command_OkE; use assms(2) in simp)+
  note ok = journal_ok_session[OF assms(1,2)]
  show "session_ok (committed c CommandApplied s)"
    using ok assms(2) adv by (auto intro: committed_session_ok)
  show "slots_ok ext (runner_id j) (committed c CommandApplied s) (slots j)"
    using ok adv by (auto intro: committed_slots_ok)
  show "command_sequence c \<notin> command_sequence ` set (commands (slots j))"
    using ok adv committed_fresh by blast
  have "command_cursor_ok (command_cursor s)" using ok by (simp add: session_ok_def)
  from advance_above[OF adv(2) this] show "\<forall>x \<in> set (commands (slots j)). command_sequence x < command_sequence c"
    using ok by (force simp: slots_ok_iff list_all_iff command_settled_def)
qed (use not_used_slot committed_settles assms(3) in \<open>auto elim!: commit_command_OkE\<close>)

lemma record_offer_ok:
  assumes "journal_ok ext j" "record_offer ext sid record j = Ok (b, j')"
  shows "journal_ok ext j'"
  using assms(2,1)
proof (cases rule: record_offer_OkE)
  case (2 s i)
  let ?x = "SlotSnapshot_from_offer record" and ?s = "committed (offer_command record) CommandApplied s"
  note c = committed_journal[OF assms(1) 2(2,10)]
  have x: "slot_ordinal ?x = offer_slot record" "slot_commands ?x = [offer_command record]"
    by (simp_all add: SlotSnapshot_from_offer_def slot_ordinal_def slot_commands_def)
  have "slots_ok ext (runner_id j) ?s (insert_at i ?x (slots j))"
    using 2 x c by (intro slots_ok_insert[where c = "offer_command record"]) (auto intro!: from_offer_ok)
  moreover have "length (insert_at i ?x (slots j)) \<le> MAX_JOURNALED_SLOTS"
    using 2(8) by (auto simp: insert_at_def min_def)
  ultimately show ?thesis
    using assms(1) 2(2,11) c(1) by (simp add: journal_ok_def)
qed (use assms(1) in simp)

text \<open>A cancellation adds one command to the slot that it cancels.\<close>

lemma slot_cancel_commands:
  assumes "slot_cancellation_replay c x = Ok False" "slot_cancel c x = Ok y"
  shows "slot_commands y = slot_commands x @ [cancellation_command c]" "slot_ordinal y = slot_ordinal x"
  using assms
  by (auto simp: slot_cancellation_replay_def slot_cancel_def result_simps slot_commands_def
      slot_ordinal_def Let_def split: if_splits option.splits)

lemma slots_ok_cancel:
  assumes "slots_ok ext r s ss" "i < length ss" "slot_ok ext r (session_id s) (selected_job_ir s) y"
    and "slot_commands y = slot_commands (ss ! i) @ [c]" "slot_ordinal y = slot_ordinal (ss ! i)"
    and "command_settled s c" "command_sequence c \<notin> command_sequence ` set (commands ss)"
    and "command_operation_id c \<notin> command_operation_id ` set (commands ss)"
  shows "slots_ok ext r s (ss[i := y])"
proof -
  obtain A B where AB: "ss = A @ ss ! i # B" "length A = i"
    using split_nth[OF assms(2)] by blast
  then have y: "ss[i := y] = A @ y # B" by (metis list_update_length)
  have cs: "commands ss = commands A @ slot_commands (ss ! i) @ commands B" by (subst AB(1)) simp
  have all: "list_all P ss \<Longrightarrow> P y \<Longrightarrow> list_all P (A @ y # B)" for P
    by (subst (asm) AB(1)) simp
  have "fresh_commands [] [] (commands ss)" "list_all (command_settled s) (commands ss)"
    using assms(1) by (simp_all add: slots_ok_iff)
  with assms(4,6-8) have "fresh_commands [] [] (commands (A @ y # B))"
    "list_all (command_settled s) (commands (A @ y # B))"
    unfolding cs by (auto simp: fresh_commands_def)
  moreover have "strictly_sorted_by slot_ordinal (A @ y # B)"
    using assms(1,2,5) strictly_sorted_by_update[of slot_ordinal ss i y] by (simp add: y slots_ok_iff)
  moreover have "unat (slot_ordinal y) \<le> MAX_JOURNALED_SLOTS"
    using assms(1,2,5) by (simp add: slots_ok_iff list_all_length)
  ultimately show ?thesis
    using assms(1,3) unfolding y slots_ok_iff by (intro conjI all) simp_all
qed

lemma record_cancellation_OkE:
  assumes "record_cancellation sid slot g c j = Ok (b, j')" "journal_ok ext j"
  obtains "\<not> b" "j' = j"
  | s i y where b "session j = Some s" "session_id s = sid" "i < length (slots j)"
    "slot_ordinal (slots j ! i) = slot" "slot_guard (slots j ! i) = g"
    "slot_ok ext (runner_id j) (session_id s) (selected_job_ir s) (slots j ! i)"
    "slot_cancellation_replay c (slots j ! i) = Ok False" "slot_cancel c (slots j ! i) = Ok y"
    "commit_command sid (cancellation_command c) CommandApplied j =
       Ok (True, j\<lparr>session := Some (committed (cancellation_command c) CommandApplied s)\<rparr>)"
    "j' = j\<lparr>session := Some (committed (cancellation_command c) CommandApplied s),
        slots := (slots j)[i := y]\<rparr>"
proof -
  from assms(1) obtain i replay where i: "fenced_index sid slot g j = Ok i"
    and replay: "slot_cancellation_replay c (slots j ! i) = Ok replay"
    by (auto simp: record_cancellation_def result_simps)
  from i assms(2) obtain s where s: "session j = Some s" "session_id s = sid" "i < length (slots j)"
    "slot_ordinal (slots j ! i) = slot" "slot_guard (slots j ! i) = g"
    "slot_ok ext (runner_id j) (session_id s) (selected_job_ir s) (slots j ! i)"
    by (rule fenced_index_OkE) (auto intro: slots_ok_nth)
  show ?thesis
  proof (cases replay)
    case True
    with assms i replay show ?thesis by (intro that(1)) (auto simp: record_cancellation_def)
  next
    case False
    with assms i replay obtain ch j1
      where ch: "commit_command sid (cancellation_command c) CommandApplied j = Ok (ch, j1)"
      and rest: "(if \<not> ch then Ok (False, j1) else and_then (slot_cancel c (slots j1 ! i)) (\<lambda>updated.
          Ok (True, j1\<lparr>slots := (slots j1)[i := updated]\<rparr>))) = (Ok (b, j') :: (bool \<times> StoredJournal) jresult)"
      by (auto simp: record_cancellation_def result_simps)
    from ch show ?thesis
    proof (cases rule: commit_command_OkE)
      case (1 s')
      with rest show ?thesis by (intro that(1)) auto
    next
      case (2 s')
      with s rest obtain y where "slot_cancel c (slots j ! i) = Ok y" b
        "j' = j\<lparr>session := Some (committed (cancellation_command c) CommandApplied s),
          slots := (slots j)[i := y]\<rparr>"
        by (auto simp: result_simps)
      with 2 s ch replay False show ?thesis by (intro that(2)[of s i y]) auto
    qed
  qed
qed

lemma record_cancellation_ok:
  assumes "journal_ok ext j" "record_cancellation sid slot g c j = Ok (b, j')"
  shows "journal_ok ext j'"
  using assms(2,1)
proof (cases rule: record_cancellation_OkE)
  case (2 s i y)
  let ?s = "committed (cancellation_command c) CommandApplied s"
  note cj = committed_journal[OF assms(1) 2(2,10)] and cmd = slot_cancel_commands[OF 2(8,9)]
  have "offer_command (offer (slots j ! i)) \<in> set (commands (slots j))"
    using 2(4) by (auto simp: commands_def slot_commands_def)
  then have "slot_ok ext (runner_id j) (session_id s) (selected_job_ir s) y"
    using cj(6) by (intro slot_cancel_ok[OF 2(7,8,9)]) auto
  then have "slots_ok ext (runner_id j) ?s ((slots j)[i := y])"
    using 2(4) cj cmd by (intro slots_ok_cancel[where c = "cancellation_command c"]) auto
  then show ?thesis
    using assms(1) 2(2,11) cj(1) by (simp add: journal_ok_def)
qed (use assms(1) in simp)

section \<open>Every mutation\<close>

lemma complete_lease_poll_ok:
  assumes "journal_ok ext j" "complete_lease_poll ext sid completion j = Ok (b, j')"
  shows "journal_ok ext j'"
proof -
  from assms(2) obtain b1 j1 where j1: "advance_lease_poll sid (completion_slot completion)
      (expected_current completion) (successor_operation_id completion) (completion_receipts completion) j =
      Ok (b1, j1)"
    by (auto simp: complete_lease_poll_def result_simps)
  note ok = advance_lease_poll_ok[OF assms(1) j1]
  from assms(2) j1 ok show ?thesis
    by (cases "completion_command completion")
       (auto simp: complete_lease_poll_def result_simps
        dest: commit_command_ok record_offer_ok record_cancellation_ok)
qed

lemma begin_session_ok:
  assumes "journal_ok ext j" "begin_session binding j = Ok (b, j')"
    and "ProtocolRange_contains SUPPORTED_PROTOCOL_RANGE (binding_protocol binding)"
    and "JobIrVersionRange_supports JobIrVersionRange_current (binding_job_ir binding)"
  shows "journal_ok ext j'"
proof -
  have "session_ok (SessionSnapshot_new binding)"
    using assms(3,4)
    by (simp add: session_ok_def session_inv_def SessionSnapshot_new_def CommandCursor_initial_def
        command_cursor_ok_def tombstones_ok_def cursor_matches_def checkpoints_ok_def)
  moreover have "slots_ok ext r s []" for r s by (simp add: slots_ok_iff fresh_commands_def)
  ultimately show ?thesis
    using assms(1,2) by (auto simp: begin_session_def journal_ok_def split: option.splits if_splits)
qed

text \<open>
  What the validation before a commit adds to the checks of the mutation itself: supported versions at
  the begin of a session, a slot ordinal that is not zero (the source has a type for that), and
  the side conditions of the slot operations.
\<close>

fun mutation_guard :: "JournalMutation \<Rightarrow> StoredJournal \<Rightarrow> bool" where
  "mutation_guard (BeginSession binding) j \<longleftrightarrow>
     ProtocolRange_contains SUPPORTED_PROTOCOL_RANGE (binding_protocol binding) \<and>
     JobIrVersionRange_supports JobIrVersionRange_current (binding_job_ir binding)"
| "mutation_guard (PrepareLeasePoll sid slot operation) j \<longleftrightarrow> slot \<noteq> 0"
| "mutation_guard (MutateSlot sid slot guard m) j \<longleftrightarrow>
     list_all (\<lambda>s. slot_ordinal s = slot \<longrightarrow> commit_guard m s) (slots j)"
| "mutation_guard _ j \<longleftrightarrow> True"

lemma apply_mutation_ok:
  assumes "journal_ok ext j" "apply_mutation ext m j = Ok (b, j')" "mutation_guard m j"
  shows "journal_ok ext j'"
proof (cases m)
  case (MutateSlot sid slot g sm)
  with assms show ?thesis by (intro mutate_slot_ok[OF assms(1)]) (auto simp: list_all_iff)
qed (use assms in \<open>auto simp: release_slot_def release_rejected_offer_def result_simps
    intro: begin_session_ok prepare_lease_poll_ok complete_lease_poll_ok release_ok
      acknowledge_lease_authority_receipts_ok commit_command_ok record_offer_ok
      record_cancellation_ok authorize_orphan_ok\<close>)

end
