(* ===== verification/JournalRetry.thy ===== *)
theory JournalRetry
  imports JournalPreserve
begin

text \<open>
  Retries at the level of the journal.  A client that loses the reply of a mutation sends it again;
  every mutation but the two releases recognises the retry, reports that nothing changed and leaves the journal
  as it is.
\<close>

fun retryable :: "JournalMutation \<Rightarrow> bool" where
  "retryable (ReleaseSlot _ _ _) = False"
| "retryable (ReleaseRejectedLease _ _ _ _) = False"
| "retryable _ = True"

section \<open>Nothing changed\<close>

lemma with_slot_unchanged:
  assumes "journal_ok ext j" "with_slot sid slot g (apply_slot m) j = Ok (False, j')"
  shows "j' = j"
  using assms(2,1)
proof (cases rule: with_slot_OkE)
  case (1 s i y)
  with slot_retry.unchanged[OF slots_ok_nth[OF 1(4,5)] 1(8)] show ?thesis by simp
qed

lemma complete_lease_poll_OkE:
  assumes "complete_lease_poll ext sid completion j = Ok (b, j')"
  obtains b1 j1 b2 where "validate_authority_receipts (completion_receipts completion) = Ok ()"
    "advance_lease_poll sid (completion_slot completion) (expected_current completion)
       (successor_operation_id completion) (completion_receipts completion) j = Ok (b1, j1)"
    "(case completion_command completion of
        NoCommand \<Rightarrow> Ok (False, j1)
      | Recorded command disposition \<Rightarrow>
          and_then (verify_recorded_command sid command disposition j1) (\<lambda>_. Ok (False, j1))
      | Ignored command reason \<Rightarrow> commit_command sid command (CommandIgnored reason) j1
      | LeaseOffer record \<Rightarrow> record_offer ext sid record j1
      | Cancellation slot guard record \<Rightarrow> record_cancellation sid slot guard record j1) = Ok (b2, j')"
    "b = (b2 \<or> b1)" "b2 \<Longrightarrow> b1"
  using assms that by (auto simp: complete_lease_poll_def result_simps)

lemma commit_command_unchanged: "commit_command sid c d j = Ok (False, j') \<Longrightarrow> j' = j"
  by (auto elim!: commit_command_OkE)

lemma record_offer_unchanged:
  "journal_ok ext j \<Longrightarrow> record_offer ext sid record j = Ok (False, j') \<Longrightarrow> j' = j"
  by (auto elim!: record_offer_OkE)

lemma record_cancellation_unchanged:
  "journal_ok ext j \<Longrightarrow> record_cancellation sid slot g c j = Ok (False, j') \<Longrightarrow> j' = j"
  by (auto elim!: record_cancellation_OkE)

lemma advance_lease_poll_unchanged:
  "advance_lease_poll sid slot e n rs j = Ok (False, j') \<Longrightarrow> j' = j"
  by (auto elim!: advance_lease_poll_OkE)

lemma complete_lease_poll_unchanged:
  assumes "journal_ok ext j" "complete_lease_poll ext sid completion j = Ok (False, j')"
  shows "j' = j"
  using assms(2)
proof (cases rule: complete_lease_poll_OkE)
  case (1 b1 j1 b2)
  then have [simp]: "j1 = j" "\<not> b2" by (auto dest: advance_lease_poll_unchanged)
  show ?thesis
    using 1(3) record_offer_unchanged[OF assms(1)] record_cancellation_unchanged[OF assms(1)]
    by (cases "completion_command completion")
       (auto simp: result_simps dest: commit_command_unchanged)
qed

lemma prepare_lease_poll_OkE:
  assumes "prepare_lease_poll sid slot operation j = Ok (b, j')"
  obtains s i where "session j = Some s" "session_id s = sid" "\<not> b" "j' = j"
    "binary_search_by_key checkpoint_slot slot (lease_poll_checkpoints s) = Found i"
  | s i where "session j = Some s" "session_id s = sid" b
    "binary_search_by_key checkpoint_slot slot (lease_poll_checkpoints s) = Missing i"
    "j' = j\<lparr>session := Some (s\<lparr>lease_poll_checkpoints :=
       insert_at i (LeasePollCheckpoint_first slot operation) (lease_poll_checkpoints s)\<rparr>)\<rparr>"
proof -
  from assms obtain s where s: "session j = Some s" "session_id s = sid"
    by (auto simp: prepare_lease_poll_def result_simps)
  show ?thesis
  proof (cases "binary_search_by_key checkpoint_slot slot (lease_poll_checkpoints s)")
    case (Found i)
    with assms s show ?thesis
      by (intro that(1)[of s i]) (auto simp: prepare_lease_poll_def require_session_def)
  next
    case (Missing i)
    with assms s show ?thesis
      by (intro that(2)[of s i]) (auto simp: prepare_lease_poll_def require_session_def split: if_splits)
  qed
qed

lemma acknowledge_receipts_unchanged:
  "acknowledge_lease_authority_receipts sid slot rs j = Ok (False, j') \<Longrightarrow> j' = j"
  by (erule acknowledge_receipts_OkE) simp_all

lemma authorize_orphan_unchanged: "authorize_orphan grant j = Ok (False, j') \<Longrightarrow> j' = j"
  by (auto simp: authorize_orphan_def Let_def result_simps slot_authorize_orphan_def
      split: option.splits if_splits)

section \<open>A retry is recognised\<close>

lemma find_key:
  "strictly_sorted_by key xs \<Longrightarrow> t \<in> set xs \<Longrightarrow> find (\<lambda>x. key x = key t) xs = Some t"
  by (induction xs) (auto simp: strictly_sorted_by_iff)

lemma find_sequence:
  assumes "session_ok s" "t \<in> set (command_tombstones s)"
  shows "find (\<lambda>x. command_sequence (tombstone_command x) = command_sequence (tombstone_command t))
    (command_tombstones s) = Some t"
  using find_key[of tombstone_sequence "command_tombstones s" t] assms
  by (simp add: session_ok_def session_inv_def tombstones_ok_def tombstone_sequence_def)

text \<open>While a command is in the window, committing it again with the same disposition is a no-op.\<close>

lemma commit_command_replay:
  assumes "session j = Some s" "session_id s = sid" "session_ok s" "t \<in> set (command_tombstones s)"
    and "tombstone_command t = c" "tombstone_disposition t = d"
  shows "commit_command sid c d j = Ok (False, j)"
  using tombstone_below_cursor[OF assms(3,4)] find_sequence[OF assms(3,4)] assms
  by (auto simp: commit_command_def require_session_def tombstone_sequence_def)

lemma committed_tombstone:
  "\<lparr>tombstone_command = c, tombstone_disposition = d\<rparr> \<in> set (command_tombstones (committed c d s))"
  by (simp add: committed_def push_tombstone_eq)

lemma commit_command_retry:
  assumes "journal_ok ext j" "commit_command sid c d j = Ok (b, j')"
  shows "commit_command sid c d j' = Ok (False, j')"
  using assms(2)
proof (cases rule: commit_command_OkE)
  case (1 s)
  with journal_ok_session[OF assms(1) 1(1)] show ?thesis by (auto intro: commit_command_replay)
next
  case (2 s)
  with journal_ok_session[OF assms(1) 2(1)] show ?thesis
    by (auto intro!: commit_command_replay[OF _ _ _ committed_tombstone] committed_session_ok)
qed

lemma record_offer_retry:
  assumes "journal_ok ext j" "record_offer ext sid record j = Ok (True, j')"
  shows "record_offer ext sid record j' = Ok (False, j')"
  using assms(2,1)
proof (cases rule: record_offer_OkE)
  case (2 s i)
  let ?x = "SlotSnapshot_from_offer record"
  have x: "slot_ordinal ?x = offer_slot record" "offer ?x = record"
    by (simp_all add: SlotSnapshot_from_offer_def slot_ordinal_def)
  have found: "binary_search_by_key slot_ordinal (offer_slot record) (slots j') = Found i"
    using slot_search.lookup_insert[OF journal_ok_sorted[OF assms(1)], of ?x i] 2(9,11) x by simp
  then have "slots j' ! i = ?x"
    using 2(9,11) slot_search.lookup_missing[OF journal_ok_sorted[OF assms(1)] 2(9)]
    by (simp add: insert_at_def nth_append)
  with found 2 x show ?thesis
    by (simp add: record_offer_def require_session_def SessionSnapshot_binding_def)
qed simp

lemma record_cancellation_retry:
  assumes "journal_ok ext j" "record_cancellation sid slot g c j = Ok (True, j')"
  shows "record_cancellation sid slot g c j' = Ok (False, j')"
  using assms(2,1)
proof (cases rule: record_cancellation_OkE)
  case (2 s i y)
  have y: "orphan y = None" "offer_status y \<noteq> OfferRejected" "cancellation y = Some c"
    "slot_ordinal y = slot" "slot_guard y = g"
    using 2(5,6,8,9) slot_cancel_commands[OF 2(8,9)]
    by (auto simp: slot_cancellation_replay_def slot_cancel_def result_simps Let_def slot_guard_def
        split: if_splits option.splits)
  have "fenced_index sid slot g j' = Ok i"
    using fenced_index_found[OF record_cancellation_ok[OF assms], of _ sid i slot g] 2 y by auto
  with 2(4,11) y show ?thesis
    by (simp add: record_cancellation_def slot_cancellation_replay_def)
qed simp

lemma checkpoint_index_kept:
  assumes "session_ok s" "i < length (lease_poll_checkpoints s)"
    and "checkpoint_slot c = checkpoint_slot (lease_poll_checkpoints s ! i)"
  shows "binary_search_by_key checkpoint_slot (checkpoint_slot c) ((lease_poll_checkpoints s)[i := c]) = Found i"
proof -
  have "strictly_sorted_by checkpoint_slot (lease_poll_checkpoints s)"
    using session_ok_checkpoints[OF assms(1)] by (simp add: checkpoints_ok_def)
  from checkpoint_search.lookup_eq_Found[OF strictly_sorted_by_update[OF this assms(2,3)]] assms(2)
  show ?thesis by simp
qed

lemma advance_lease_poll_retry:
  assumes "journal_ok ext j" "advance_lease_poll sid slot e n rs j = Ok (True, j')"
    and "session j'' = session j' \<or> (\<exists>c d s. session j' = Some s \<and> session j'' = Some (committed c d s))"
  shows "advance_lease_poll sid slot e n rs j'' = Ok (False, j'')"
  using assms(2)
proof (cases rule: advance_lease_poll_OkE)
  case (2 s i)
  let ?c = "\<lparr>checkpoint_slot = slot, current_operation_id = n,
     acknowledges_operation_id = Some e, pending_authority_receipts = rs\<rparr>"
  have ok: "session_ok s" using journal_ok_session[OF assms(1) 2(2)] by simp
  note i = checkpoint_found[OF ok 2(4)]
  have "binary_search_by_key checkpoint_slot slot ((lease_poll_checkpoints s)[i := ?c]) = Found i"
    using checkpoint_index_kept[OF ok, of i ?c] i by simp
  moreover have "n \<noteq> e" using 2(5,6) i by (auto simp: not_used_operation checkpoint_operations_def)
  moreover obtain s'' where "session j'' = Some s''" "session_id s'' = sid"
    "lease_poll_checkpoints s'' = (lease_poll_checkpoints s)[i := ?c]"
    using assms(3) 2(3,8) by auto
  ultimately show ?thesis
    using i 2(7) by (simp add: advance_lease_poll_def require_session_def)
qed simp

lemma verify_recorded_retry:
  "session j' = session j \<Longrightarrow> verify_recorded_command sid c d j' = verify_recorded_command sid c d j"
  by (simp add: verify_recorded_command_def require_session_def)

text \<open>What the nested command of a completed poll does to the session.\<close>

definition session_after :: "StoredJournal \<Rightarrow> StoredJournal \<Rightarrow> bool" where
  "session_after j j' \<longleftrightarrow>
     session j' = session j \<or> (\<exists>c d s. session j = Some s \<and> session j' = Some (committed c d s))"

lemma session_after_refl [simp]: "session_after j j"
  by (simp add: session_after_def)

lemma session_after_committed:
  "session j = Some s \<Longrightarrow> session j' = Some (committed c d s) \<Longrightarrow> session_after j j'"
  by (auto simp: session_after_def)

lemma commit_command_session_after:
  assumes "commit_command sid c d j = Ok (b, j')"
  shows "session_after j j'"
  using assms
proof (cases rule: commit_command_OkE)
  case (2 s)
  show ?thesis by (rule session_after_committed[OF 2(1)]) (simp add: 2(4))
qed simp

lemma record_offer_session_after:
  assumes "journal_ok ext j" "record_offer ext sid record j = Ok (b, j')"
  shows "session_after j j'"
  using assms(2,1)
proof (cases rule: record_offer_OkE)
  case (2 s i)
  show ?thesis by (rule session_after_committed[OF 2(2)]) (simp add: 2(11))
qed simp

lemma record_cancellation_session_after:
  assumes "journal_ok ext j" "record_cancellation sid slot g x j = Ok (b, j')"
  shows "session_after j j'"
  using assms(2,1)
proof (cases rule: record_cancellation_OkE)
  case (2 s i y)
  show ?thesis by (rule session_after_committed[OF 2(2)]) (simp add: 2(11))
qed simp

lemmas command_session_after =
  commit_command_session_after record_offer_session_after record_cancellation_session_after

lemma record_offer_again:
  "journal_ok ext j \<Longrightarrow> record_offer ext sid record j = Ok (b, j') \<Longrightarrow>
     record_offer ext sid record j' = Ok (False, j')"
  by (cases b) (auto dest: record_offer_retry record_offer_unchanged)

lemma record_cancellation_again:
  "journal_ok ext j \<Longrightarrow> record_cancellation sid slot g x j = Ok (b, j') \<Longrightarrow>
     record_cancellation sid slot g x j' = Ok (False, j')"
  by (cases b) (auto dest: record_cancellation_retry record_cancellation_unchanged)

lemma complete_lease_poll_retry:
  assumes "journal_ok ext j" "complete_lease_poll ext sid completion j = Ok (True, j')"
  shows "complete_lease_poll ext sid completion j' = Ok (False, j')"
  using assms(2)
proof (cases rule: complete_lease_poll_OkE)
  case (1 b1 j1 b2)
  then have b1: b1 by auto
  note ok = advance_lease_poll_ok[OF assms(1) 1(2)]
  have "session_after j1 j'"
    using 1(3) ok by (cases "completion_command completion")
      (auto simp: result_simps intro: command_session_after)
  then have adv: "advance_lease_poll sid (completion_slot completion) (expected_current completion)
       (successor_operation_id completion) (completion_receipts completion) j' = Ok (False, j')"
    using advance_lease_poll_retry[OF assms(1)] 1(2) b1 by (simp add: session_after_def)
  show ?thesis
    using 1(1,3) adv ok
    by (cases "completion_command completion")
       (auto simp: complete_lease_poll_def result_simps record_offer_again record_cancellation_again
        commit_command_retry)
qed

lemma prepare_lease_poll_retry:
  assumes "journal_ok ext j" "prepare_lease_poll sid slot operation j = Ok (True, j')"
  shows "prepare_lease_poll sid slot operation j' = Ok (False, j')"
  using assms(2)
proof (cases rule: prepare_lease_poll_OkE)
  case (2 s i)
  have "session_ok s" using journal_ok_session[OF assms(1) 2(1)] by simp
  then have "binary_search_by_key checkpoint_slot slot
      (insert_at i (LeasePollCheckpoint_first slot operation) (lease_poll_checkpoints s)) = Found i"
    using checkpoint_search.lookup_insert[of "lease_poll_checkpoints s" "LeasePollCheckpoint_first slot operation" i]
      session_ok_checkpoints[of s] 2(4)
    by (simp add: checkpoints_ok_def LeasePollCheckpoint_first_def)
  with 2 show ?thesis by (simp add: prepare_lease_poll_def require_session_def)
qed simp

lemma acknowledge_receipts_retry:
  assumes "journal_ok ext j" "acknowledge_lease_authority_receipts sid slot rs j = Ok (True, j')"
  shows "acknowledge_lease_authority_receipts sid slot rs j' = Ok (False, j')"
  using assms(2)
proof (cases rule: acknowledge_receipts_OkE)
  case (2 s i)
  have ok: "session_ok s" using journal_ok_session[OF assms(1) 2(2)] by simp
  let ?c = "(lease_poll_checkpoints s ! i)\<lparr>pending_authority_receipts := []\<rparr>"
  note i = checkpoint_found[OF ok 2(5)]
  have "binary_search_by_key checkpoint_slot slot ((lease_poll_checkpoints s)[i := ?c]) = Found i"
    using checkpoint_index_kept[OF ok, of i ?c] i by simp
  with 2 i show ?thesis
    by (simp add: acknowledge_lease_authority_receipts_def require_session_def)
qed simp

lemma with_slot_retry:
  assumes "journal_ok ext j" "with_slot sid slot g (apply_slot m) j = Ok (True, j')"
  shows "with_slot sid slot g (apply_slot m) j' = Ok (False, j')"
  using assms(2,1)
proof (cases rule: with_slot_OkE)
  case (1 s i y)
  have y: "slot_ordinal y = slot_ordinal (slots j ! i)" "slot_guard y = g"
    using apply_slot_same_offer[OF 1(8)] 1(7) by (simp_all add: same_offer_def slot_ordinal_def slot_guard_def)
  have "strictly_sorted_by slot_ordinal ((slots j)[i := y])"
    using strictly_sorted_by_update[OF journal_ok_sorted[OF assms(1)] 1(5) y(1)] .
  then have "fenced_index sid slot g j' = Ok i"
    using 1 y slot_search.lookup_eq_Found[of "(slots j)[i := y]" slot i]
    by (simp add: fenced_index_def slot_index_def require_session_def require_guard_def)
  with 1(5,9) slot_retry.replayed[OF slots_ok_nth[OF 1(4,5)] 1(8)] show ?thesis
    by (simp add: with_slot_def)
qed

lemma authorize_orphan_retry:
  assumes "journal_ok ext j" "authorize_orphan grant j = Ok (True, j')"
  shows "authorize_orphan grant j' = Ok (False, j')"
proof -
  let ?c = "grant_claim grant"
  from assms(2) obtain i y where i: "fenced_index (claim_session_id ?c) (claim_slot ?c) (claim_guard ?c) j = Ok i"
    and claim: "?c = \<lparr>claim_runner_id = runner_id j, claim_session_id = claim_session_id ?c,
      claim_slot = slot_ordinal (slots j ! i), claim_guard = claim_guard ?c\<rparr>"
    and k: "slot_index (claim_slot ?c) j = Ok i"
    and y: "slot_authorize_orphan grant (slots j ! i) = Ok (True, y)" "j' = j\<lparr>slots := (slots j)[i := y]\<rparr>"
    by (auto simp: authorize_orphan_def orphan_claim_def fenced_index_def Let_def result_simps)
  have same: "slot_ordinal y = slot_ordinal (slots j ! i)" "slot_guard y = slot_guard (slots j ! i)"
    using slot_authorize_orphan_same_offer[OF y(1)] by (simp_all add: same_offer_def slot_ordinal_def slot_guard_def)
  have again: "slot_authorize_orphan grant y = Ok (False, y)"
    using y(1) by (auto simp: slot_authorize_orphan_def Let_def split: option.splits if_splits)
  from i assms(1) obtain s where s: "session j = Some s" "session_id s = claim_session_id ?c" "i < length (slots j)"
    "slot_ordinal (slots j ! i) = claim_slot ?c" "slot_guard (slots j ! i) = claim_guard ?c"
    by (rule fenced_index_OkE)
  have i': "fenced_index (claim_session_id ?c) (claim_slot ?c) (claim_guard ?c) j' = Ok i"
    using s same y(2) fenced_index_found[OF authorize_orphan_ok[OF assms], of s _ i] by simp
  then have "slot_index (claim_slot ?c) j' = Ok i" by (auto simp: fenced_index_def result_simps)
  moreover have "orphan_claim (claim_session_id ?c) (claim_slot ?c) (claim_guard ?c) j' = Ok ?c"
    unfolding orphan_claim_def i' using claim same y(2) s(3) by simp
  ultimately show ?thesis
    using again s(3) y(2) by (simp add: authorize_orphan_def)
qed

lemma begin_session_retry:
  "begin_session binding j = Ok (True, j') \<Longrightarrow> begin_session binding j' = Ok (False, j')"
  by (auto simp: begin_session_def SessionSnapshot_new_def SessionSnapshot_binding_def
      split: option.splits if_splits)

lemma begin_session_unchanged: "begin_session binding j = Ok (False, j') \<Longrightarrow> j' = j"
  by (auto simp: begin_session_def split: option.splits if_splits)

interpretation journal_retry:
  idempotent_mutation "apply_mutation ext m" "\<lambda>j. journal_ok ext j \<and> retryable m" for ext m
proof
  fix j j'
  assume ok: "journal_ok ext j \<and> retryable m"
  show "apply_mutation ext m j = Ok (False, j') \<Longrightarrow> j' = j"
    using ok
    by (cases m) (auto dest: begin_session_unchanged
        complete_lease_poll_unchanged acknowledge_receipts_unchanged commit_command_unchanged
        record_offer_unchanged record_cancellation_unchanged with_slot_unchanged authorize_orphan_unchanged
        elim!: prepare_lease_poll_OkE)
  show "apply_mutation ext m j = Ok (True, j') \<Longrightarrow> apply_mutation ext m j' = Ok (False, j')"
    using ok
    by (cases m) (auto intro: begin_session_retry prepare_lease_poll_retry complete_lease_poll_retry
        acknowledge_receipts_retry commit_command_retry record_offer_retry record_cancellation_retry
        with_slot_retry authorize_orphan_retry)
qed

end
