(* ===== verification/StateRoot.thy ===== *)
theory StateRoot
  imports Prelude
begin

text \<open>
  The state-root policy of the runner journal: \<open>file/state_root.rs\<close> and \<open>StateRootError\<close> of
  \<open>error.rs\<close> in \<open>automata-ci-runner-journal/src\<close>, on Unix paths.  Of the standard library it uses
  \<open>Path::components\<close>, which drops empty components and every \<open>.\<close> but a leading one, and
  \<open>Path::join\<close>.
\<close>

section \<open>Paths\<close>

datatype Component = RootDir | CurDir | ParentDir | Normal string

fun split_slash :: "string \<Rightarrow> string list" where
  "split_slash [] = [[]]"
| "split_slash (c # cs) =
     (if c = CHR ''/'' then [] # split_slash cs
      else case split_slash cs of [] \<Rightarrow> [[c]] | part # parts \<Rightarrow> (c # part) # parts)"

definition is_absolute :: "string \<Rightarrow> bool" where
  "is_absolute path = (take 1 path = ''/'')"

definition inner_component :: "string \<Rightarrow> Component list" where
  "inner_component part =
     (if part = [] \<or> part = ''.'' then [] else if part = ''..'' then [ParentDir] else [Normal part])"

definition components :: "string \<Rightarrow> Component list" where
  "components path =
     (if is_absolute path then [RootDir]
      else if hd (split_slash path) = ''.'' then [CurDir] else []) @
     concat (map inner_component (split_slash path))"

definition path_join :: "string \<Rightarrow> string \<Rightarrow> string" where
  "path_join base path =
     (if is_absolute path then path
      else if base = [] \<or> last base = CHR ''/'' then base @ path
      else base @ ''/'' @ path)"

section \<open>The policy\<close>

datatype StateRootError = Relative | FilesystemRoot | Traversal | TemporaryHierarchy | MissingXdgStateHome

fun validate_components ::
  "Component list \<Rightarrow> nat \<Rightarrow> bool \<Rightarrow> (nat \<times> bool, StateRootError) result" where
  "validate_components [] normal_count temporary_component = Ok (normal_count, temporary_component)"
| "validate_components (component # rest) normal_count temporary_component =
     (case component of
        RootDir \<Rightarrow> validate_components rest normal_count temporary_component
      | Normal value \<Rightarrow>
          validate_components rest (normal_count + 1) (temporary_component \<or> value = ''tmp'')
      | CurDir \<Rightarrow> Err Traversal
      | ParentDir \<Rightarrow> Err Traversal)"

definition StateRoot_validate :: "string \<Rightarrow> (unit, StateRootError) result" where
  "StateRoot_validate path =
     (if \<not> is_absolute path then Err Relative
      else and_then (validate_components (components path) 0 False) (\<lambda>(normal_count, temporary_component).
      if normal_count = 0 then Err FilesystemRoot
      else if temporary_component then Err TemporaryHierarchy else Ok ()))"

definition StateRoot_explicit :: "string \<Rightarrow> (string, StateRootError) result" where
  "StateRoot_explicit path = and_then (StateRoot_validate path) (\<lambda>_. Ok path)"

definition from_xdg_state_home :: "string \<Rightarrow> (string, StateRootError) result" where
  "from_xdg_state_home home =
     (if home = [] then Err MissingXdgStateHome
      else StateRoot_explicit (path_join (path_join home ''automata'') ''runner''))"

section \<open>Lemmas\<close>

lemma split_slash_not_Nil [simp]: "split_slash path \<noteq> []"
  by (cases path) (simp_all split: list.splits)

lemma split_slash_plain: "CHR ''/'' \<notin> set part \<Longrightarrow> split_slash part = [part]"
  by (induction part) auto

lemma split_slash_append:
  "CHR ''/'' \<notin> set part \<Longrightarrow> split_slash (path @ CHR ''/'' # part) = split_slash path @ [part]"
proof (induction path)
  case (Cons c cs)
  then show ?case by (cases "split_slash cs") simp_all
qed (simp add: split_slash_plain)

text \<open>Appending one plain component to an absolute path.\<close>

lemma split_slash_snoc_slash: "split_slash (path @ ''/'') = split_slash path @ [[]]"
  using split_slash_append[of "[]" path] by simp

lemma absolute_append: "is_absolute base \<Longrightarrow> is_absolute (base @ rest)"
  by (cases base) (auto simp: is_absolute_def)

lemma components_join:
  assumes "is_absolute base" "CHR ''/'' \<notin> set part" "part \<noteq> []"
  shows "components (path_join base part) = components base @ inner_component part"
proof -
  have rel: "\<not> is_absolute part" using assms(2,3) by (cases part) (auto simp: is_absolute_def)
  have base: "base \<noteq> []" using assms(1) by (auto simp: is_absolute_def)
  show ?thesis
  proof (cases "last base = CHR ''/''")
    case True
    then obtain init where init: "base = init @ ''/''" using base by (metis append_butlast_last_id)
    have "split_slash (base @ part) = split_slash init @ [part]"
      using split_slash_append[OF assms(2), of init] by (simp add: init)
    then show ?thesis
      using True rel assms(1) absolute_append[OF assms(1), of part] init
      by (simp add: path_join_def components_def split_slash_snoc_slash inner_component_def)
  next
    case False
    then show ?thesis
      using rel assms(1) base split_slash_append[OF assms(2), of base]
        absolute_append[OF assms(1), of "CHR ''/'' # part"]
      by (simp add: path_join_def components_def)
  qed
qed

lemma join_absolute: "is_absolute base \<Longrightarrow> is_absolute (path_join base part)"
  by (cases base) (auto simp: is_absolute_def path_join_def)

lemma validate_components_eq:
  "CurDir \<notin> set cs \<Longrightarrow> validate_components cs n t =
     (if ParentDir \<in> set cs then Err Traversal
      else Ok (n + length (filter (\<lambda>c. c \<noteq> RootDir) cs), t \<or> Normal ''tmp'' \<in> set cs))"
  by (induction cs arbitrary: n t) (auto split: Component.splits)

lemma absolute_no_CurDir: "is_absolute path \<Longrightarrow> CurDir \<notin> set (components path)"
  by (auto simp: components_def inner_component_def split: if_splits)

lemma StateRoot_validate_eq:
  "StateRoot_validate path =
     (if \<not> is_absolute path then Err Relative
      else if ParentDir \<in> set (components path) then Err Traversal
      else if set (components path) \<subseteq> {RootDir} then Err FilesystemRoot
      else if Normal ''tmp'' \<in> set (components path) then Err TemporaryHierarchy else Ok ())"
proof (cases "is_absolute path \<and> ParentDir \<notin> set (components path)")
  case True
  have "length (filter (\<lambda>c. c \<noteq> RootDir) (components path)) = 0 \<longleftrightarrow> set (components path) \<subseteq> {RootDir}"
    by (auto simp: filter_empty_conv)
  then show ?thesis
    using True absolute_no_CurDir[of path]
    by (auto simp: StateRoot_validate_def validate_components_eq)
next
  case False
  then show ?thesis
    using absolute_no_CurDir[of path] by (auto simp: StateRoot_validate_def validate_components_eq)
qed

lemma absolute_components:
  assumes "is_absolute path"
  obtains cs where "components path = RootDir # cs" "set cs \<subseteq> insert ParentDir (range Normal)"
proof
  show "components path = RootDir # concat (map inner_component (split_slash path))"
    using assms by (simp add: components_def)
qed (auto simp: inner_component_def split: if_splits)

lemma normal_names: "set cs \<subseteq> range Normal \<Longrightarrow> \<exists>names. cs = map Normal names"
  by (induction cs) (auto simp: Cons_eq_map_conv)

section \<open>Properties\<close>

text \<open>A state root is accepted exactly when it is absolute, has at least one ordinary component, and has neither a
  parent component nor a component named \<open>tmp\<close>; the accepted root is the path that was configured, and every
  component that the adapter walks from the filesystem root is an ordinary one.\<close>

theorem state_root_policy:
  "StateRoot_explicit path = Ok root \<longleftrightarrow>
     root = path \<and> is_absolute path \<and>
     (\<exists>names. components path = RootDir # map Normal names \<and> names \<noteq> [] \<and> ''tmp'' \<notin> set names)"
proof (cases "is_absolute path")
  case True
  then obtain cs where cs: "components path = RootDir # cs" "set cs \<subseteq> insert ParentDir (range Normal)"
    by (rule absolute_components)
  then have "ParentDir \<notin> set cs \<longleftrightarrow> (\<exists>names. cs = map Normal names)" using normal_names[of cs] by auto
  moreover have "set cs \<subseteq> {RootDir} \<longleftrightarrow> cs = []" using cs(2) by (cases cs) auto
  ultimately show ?thesis
    using True cs(1) by (auto simp: StateRoot_explicit_def StateRoot_validate_eq result_simps)
qed (simp add: StateRoot_explicit_def StateRoot_validate_eq)

text \<open>The root derived from a state home lies two components below it and is accepted exactly when the home is
  itself a permitted location; each other home is refused with the error that names its defect.\<close>

theorem xdg_root_policy:
  "and_then (from_xdg_state_home home) (\<lambda>root. Ok (components root)) =
     (if home = [] then Err MissingXdgStateHome
      else if \<not> is_absolute home then Err Relative
      else if ParentDir \<in> set (components home) then Err Traversal
      else if Normal ''tmp'' \<in> set (components home) then Err TemporaryHierarchy
      else Ok (components home @ [Normal ''automata'', Normal ''runner'']))"
proof (cases "is_absolute home")
  case True
  have "components (path_join (path_join home ''automata'') ''runner'') =
      components home @ [Normal ''automata'', Normal ''runner'']"
    using components_join[OF True, of "''automata''"] components_join[OF join_absolute[OF True], of "''runner''"]
    by (simp add: inner_component_def)
  then show ?thesis
    using True join_absolute[OF join_absolute[OF True]]
    by (auto simp: from_xdg_state_home_def StateRoot_explicit_def StateRoot_validate_eq is_absolute_def)
next
  case False
  then have "\<not> is_absolute (path_join (path_join home ''automata'') ''runner'')" if "home \<noteq> []"
    using that by (cases home) (auto simp: path_join_def is_absolute_def)
  with False show ?thesis
    by (simp add: from_xdg_state_home_def StateRoot_explicit_def StateRoot_validate_eq)
qed

text \<open>A current-directory component inside an absolute path is not seen by the policy.\<close>

theorem inner_current_directory_is_accepted:
  "StateRoot_explicit ''/var/./lib'' = Ok ''/var/./lib''"
  by (simp add: StateRoot_explicit_def StateRoot_validate_def components_def is_absolute_def inner_component_def)

end
