(* ===== verification/FileJournal.thy ===== *)
theory FileJournal
  imports JournalRetry StateRoot
begin

text \<open>
  The crash-durable file adapter of the runner journal: \<open>file/mod.rs\<close>, \<open>file/codec.rs\<close> and the Unix
  directory of \<open>file/platform/unix.rs\<close> in \<open>automata-ci-runner-journal/src\<close>.

  The serializer (\<open>serde_json\<close>) and the operating system are parameters.  The first is a record of
  functions; the second says, for every call of a commit and of a recovery, whether it fails.  The directory keeps
  apart what a reader sees now and what is sure to survive a power loss: a rename is visible at once and
  durable after the directory was synchronized.
\<close>

section \<open>Errors, stages and outcomes\<close>

type_synonym bytes = "u8 list"

datatype CommitStage = StagingCreated | DataWritten | FileSynced | Renamed | DirectorySynced

datatype (plugins only: ) JournalError =
    StateRootRejected StateRootError
  | Invariant JournalInvariantError
  | OrphanAuthority OrphanAuthorityError
  | AlreadyLocked
  | UnsupportedPlatform
  | PathSecurity
  | Oversized nat nat
  | UnsupportedSchema u16 u16
  | ObsoleteState
  | Corrupt
  | RunnerIdentityMismatch RunnerId RunnerId
  | CommitOutcomeUnknown
  | JournalPoisoned
  | InjectedFault CommitStage
  | JournalIo string

datatype JournalMutationOutcome =
    OutcomeCommitted | OutcomeNoop | OutcomeRejected | OutcomeIoError | OutcomeUncertain | OutcomePoisoned

datatype JournalMutationDomain =
    SessionDomain | LeasePollDomain | CommandDomain | LeaseDomain | LifecycleDomain | ResultDomain
  | ProviderDomain | EndpointDomain | OutboundDomain | LogDomain | OrphanDomain | SlotDomain

primrec slot_mutation_domain :: "SlotMutation \<Rightarrow> JournalMutationDomain" where
  "slot_mutation_domain AcceptLease = LeaseDomain"
| "slot_mutation_domain (RecordRuntimeAuthorityDelivery _) = LeaseDomain"
| "slot_mutation_domain (AcknowledgeRuntimeAuthorityDelivery _ _ _) = LeaseDomain"
| "slot_mutation_domain (RejectLease _ _ _) = LeaseDomain"
| "slot_mutation_domain (AcknowledgeLeaseRejection _) = LeaseDomain"
| "slot_mutation_domain (RenewLease _) = LeaseDomain"
| "slot_mutation_domain (TransitionLifecycle _) = LifecycleDomain"
| "slot_mutation_domain (RecordTerminalResult _ _ _) = ResultDomain"
| "slot_mutation_domain (AcknowledgeTerminalResult _) = ResultDomain"
| "slot_mutation_domain (AcceptEndpointOperation _) = EndpointDomain"
| "slot_mutation_domain (CommitEndpointInvocation _) = EndpointDomain"
| "slot_mutation_domain (RecordEndpointCancellation _) = EndpointDomain"
| "slot_mutation_domain (CompleteEndpointCancellation _) = EndpointDomain"
| "slot_mutation_domain (AbandonEndpointOperation _) = EndpointDomain"
| "slot_mutation_domain (RecordEndpointResult _ _) = EndpointDomain"
| "slot_mutation_domain (RecordProviderIntent _) = ProviderDomain"
| "slot_mutation_domain (RecordSandboxCreated _ _) = ProviderDomain"
| "slot_mutation_domain (CompleteProviderOperation _) = ProviderDomain"
| "slot_mutation_domain (FailProviderOperation _ _) = ProviderDomain"
| "slot_mutation_domain (AdvanceOutboundOperation _) = OutboundDomain"
| "slot_mutation_domain (OpenLogStream _) = LogDomain"
| "slot_mutation_domain (RecordLogSegment _ _) = LogDomain"
| "slot_mutation_domain (SealLogSegment _ _) = LogDomain"
| "slot_mutation_domain (AcknowledgeLogSegment _) = LogDomain"
| "slot_mutation_domain (AbandonOrphanDelivery _ _ _) = OrphanDomain"

primrec mutation_domain :: "JournalMutation \<Rightarrow> JournalMutationDomain" where
  "mutation_domain (BeginSession _) = SessionDomain"
| "mutation_domain (PrepareLeasePoll _ _ _) = LeasePollDomain"
| "mutation_domain (CompleteLeasePoll _ _) = LeasePollDomain"
| "mutation_domain (AcknowledgeLeaseAuthorityReceipts _ _ _) = LeasePollDomain"
| "mutation_domain (RecordCommandDisposition _ _ _) = CommandDomain"
| "mutation_domain (RecordLeaseOffer _ _) = LeaseDomain"
| "mutation_domain (RecordCancellation _ _ _ _) = LifecycleDomain"
| "mutation_domain (MutateSlot _ _ _ m) = slot_mutation_domain m"
| "mutation_domain (AuthorizeOrphan _) = OrphanDomain"
| "mutation_domain (ReleaseRejectedLease _ _ _ _) = LeaseDomain"
| "mutation_domain (ReleaseSlot _ _ _) = SlotDomain"

section \<open>Codec\<close>

record Serde =
  to_vec :: "StoredJournal \<Rightarrow> bytes option"
  from_slice :: "bytes \<Rightarrow> StoredJournal option"
  probe_schema :: "bytes \<Rightarrow> u16 option"

definition encode :: "Serde \<Rightarrow> externals \<Rightarrow> StoredJournal \<Rightarrow> (bytes, JournalError) result" where
  "encode serde ext state =
     and_then (map_err Invariant (StoredJournal_validate ext state)) (\<lambda>_.
     and_then (ok_or Corrupt (to_vec serde state)) (\<lambda>bytes.
     if length bytes > MAX_JOURNAL_BYTES then Err (Oversized MAX_JOURNAL_BYTES (length bytes))
     else Ok bytes))"

definition decode :: "Serde \<Rightarrow> externals \<Rightarrow> bytes \<Rightarrow> (StoredJournal, JournalError) result" where
  "decode serde ext bytes =
     (if length bytes > MAX_JOURNAL_BYTES then Err (Oversized MAX_JOURNAL_BYTES (length bytes))
      else and_then (ok_or Corrupt (probe_schema serde bytes)) (\<lambda>schema.
      if schema \<noteq> RUNNER_JOURNAL_SCHEMA_VERSION
      then Err (UnsupportedSchema RUNNER_JOURNAL_SCHEMA_VERSION schema)
      else and_then (ok_or Corrupt (from_slice serde bytes)) (\<lambda>state.
      and_then (map_err (\<lambda>_. Corrupt) (StoredJournal_validate ext state)) (\<lambda>_.
      and_then (ok_or Corrupt (to_vec serde state)) (\<lambda>canonical.
      if canonical \<noteq> bytes then Err Corrupt else Ok state)))))"

section \<open>The state-root directory\<close>

record Directory =
  state_file :: "bytes option"
  durable_state_file :: "bytes option"
  obsolete_state_file :: bool
  staging_files :: "(string \<times> bytes) list"

text \<open>The system calls of one commit, in order.\<close>

datatype CommitCall =
  OpenStaging | CheckStaging | ChmodStaging | WriteStaging | SyncStaging | RenameState | SyncRoot

text \<open>
  The system calls of opening a journal, in order: opening and locking the root, scanning it for staging files (each
  entry read and the end of the scan, each removal), synchronizing it, and reading the state file.
\<close>

datatype RecoveryCall =
  OpenRoot | ScanStaging | ReadEntry "string option" | UnlinkStaging string | SyncRecovery
| OpenObsolete | OpenState | CheckState | ChmodState | StatState | ReadState

text \<open>
  The environment of the adapter: the injected faults, the errors of the system calls, and what the operating
  system decides (the fresh staging name, the prefix that a failing write leaves).
\<close>

record Environment =
  fault_check :: "CommitStage \<Rightarrow> bool"
  call_error :: "CommitCall \<Rightarrow> JournalError option"
  recovery_error :: "RecoveryCall \<Rightarrow> JournalError option"
  staging_name :: string
  partial_write :: bytes

record CommitFailure =
  failure_error :: JournalError
  failure_renamed :: bool

definition inject :: "Environment \<Rightarrow> CommitStage \<Rightarrow> bool \<Rightarrow> (unit, CommitFailure) result" where
  "inject env stage renamed =
     (if fault_check env stage
      then Err \<lparr>failure_error = InjectedFault stage, failure_renamed = renamed\<rparr> else Ok ())"

definition system_call :: "Environment \<Rightarrow> CommitCall \<Rightarrow> bool \<Rightarrow> (unit, CommitFailure) result" where
  "system_call env call renamed =
     (case call_error env call of
        Some error \<Rightarrow> Err \<lparr>failure_error = error, failure_renamed = renamed\<rparr>
      | None \<Rightarrow> Ok ())"

text \<open>
  \<open>commit\<close> in three phases, each with the directory it leaves: stage the bytes, publish them by
  renaming, make the rename durable.
\<close>

definition stage_bytes ::
  "Environment \<Rightarrow> bytes \<Rightarrow> Directory \<Rightarrow> (unit, CommitFailure) result \<times> Directory" where
  "stage_bytes env bytes dir =
     (case system_call env OpenStaging False of
        Inl failure \<Rightarrow> (Err failure, dir)
      | Inr _ \<Rightarrow>
          let created = dir\<lparr>staging_files := (staging_name env, []) # staging_files dir\<rparr>;
              partial = dir\<lparr>staging_files := (staging_name env, partial_write env) # staging_files dir\<rparr>;
              written = dir\<lparr>staging_files := (staging_name env, bytes) # staging_files dir\<rparr> in
          case and_then (system_call env CheckStaging False) (\<lambda>_.
               and_then (system_call env ChmodStaging False) (\<lambda>_. inject env StagingCreated False)) of
            Inl failure \<Rightarrow> (Err failure, created)
          | Inr _ \<Rightarrow>
              (case system_call env WriteStaging False of
                 Inl failure \<Rightarrow> (Err failure, partial)
               | Inr _ \<Rightarrow>
                   (and_then (inject env DataWritten False) (\<lambda>_.
                    and_then (system_call env SyncStaging False) (\<lambda>_.
                    inject env FileSynced False)), written)))"

definition publish :: "Environment \<Rightarrow> bytes \<Rightarrow> Directory \<Rightarrow> Directory" where
  "publish env bytes dir =
     dir\<lparr>state_file := Some bytes,
         staging_files := filter (\<lambda>(name, _). name \<noteq> staging_name env) (staging_files dir)\<rparr>"

definition commit ::
  "Environment \<Rightarrow> bytes \<Rightarrow> Directory \<Rightarrow> (unit, CommitFailure) result \<times> Directory" where
  "commit env bytes dir =
     (case stage_bytes env bytes dir of
        (Inl failure, dir) \<Rightarrow> (Err failure, dir)
      | (Inr _, dir) \<Rightarrow>
          (case system_call env RenameState False of
             Inl failure \<Rightarrow> (Err failure, dir)
           | Inr _ \<Rightarrow>
               let dir = publish env bytes dir in
               case and_then (inject env Renamed True) (\<lambda>_. system_call env SyncRoot True) of
                 Inl failure \<Rightarrow> (Err failure, dir)
               | Inr _ \<Rightarrow> (inject env DirectorySynced True, dir\<lparr>durable_state_file := state_file dir\<rparr>)))"

definition STAGING_PREFIX :: string where
  "STAGING_PREFIX = ''.runner-journal.stage-''"

text \<open>
  \<open>cleanup_staging\<close> removes what starts with the staging prefix and synchronizes the directory when it
  removed anything.  An entry that vanished before its removal counts as removed.
\<close>

definition is_staging :: "string \<Rightarrow> bool" where
  "is_staging name = (take (length STAGING_PREFIX) name = STAGING_PREFIX)"

definition recovery_call :: "Environment \<Rightarrow> RecoveryCall \<Rightarrow> (unit, JournalError) result" where
  "recovery_call env call = (case recovery_error env call of Some error \<Rightarrow> Err error | None \<Rightarrow> Ok ())"

fun remove_staging ::
  "Environment \<Rightarrow> (string \<times> bytes) list \<Rightarrow> bool \<Rightarrow> (bool, JournalError) result \<times> (string \<times> bytes) list" where
  "remove_staging env [] removed = (and_then (recovery_call env (ReadEntry None)) (\<lambda>_. Ok removed), [])"
| "remove_staging env ((name, bytes) # entries) removed =
     (case recovery_call env (ReadEntry (Some name)) of
        Inl error \<Rightarrow> (Err error, (name, bytes) # entries)
      | Inr _ \<Rightarrow>
          if is_staging name
          then (case recovery_call env (UnlinkStaging name) of
                  Inl error \<Rightarrow> (Err error, (name, bytes) # entries)
                | Inr _ \<Rightarrow> remove_staging env entries True)
          else (case remove_staging env entries removed of (r, rest) \<Rightarrow> (r, (name, bytes) # rest)))"

definition cleanup_staging :: "Environment \<Rightarrow> Directory \<Rightarrow> (unit, JournalError) result \<times> Directory" where
  "cleanup_staging env dir =
     (case recovery_call env ScanStaging of
        Inl error \<Rightarrow> (Err error, dir)
      | Inr _ \<Rightarrow>
          (case remove_staging env (staging_files dir) False of
             (Inl error, files) \<Rightarrow> (Err error, dir\<lparr>staging_files := files\<rparr>)
           | (Inr removed, files) \<Rightarrow>
               let dir = dir\<lparr>staging_files := files\<rparr> in
               if removed
               then (case recovery_call env SyncRecovery of
                       Inl error \<Rightarrow> (Err error, dir)
                     | Inr _ \<Rightarrow> (Ok (), dir\<lparr>durable_state_file := state_file dir\<rparr>))
               else (Ok (), dir)))"

definition read_state :: "Environment \<Rightarrow> Directory \<Rightarrow> (bytes option, JournalError) result" where
  "read_state env dir =
     and_then (recovery_call env OpenObsolete) (\<lambda>_.
     if obsolete_state_file dir then Err ObsoleteState
     else and_then (recovery_call env OpenState) (\<lambda>_.
     case state_file dir of
       None \<Rightarrow> Ok None
     | Some content \<Rightarrow>
         and_then (recovery_call env CheckState) (\<lambda>_.
         and_then (recovery_call env ChmodState) (\<lambda>_.
         and_then (recovery_call env StatState) (\<lambda>_.
         if length content > MAX_JOURNAL_BYTES then Err (Oversized MAX_JOURNAL_BYTES (length content))
         else and_then (recovery_call env ReadState) (\<lambda>_.
         let bytes = take (MAX_JOURNAL_BYTES + 1) content in
         if length bytes > MAX_JOURNAL_BYTES then Err (Oversized MAX_JOURNAL_BYTES (length bytes))
         else Ok (Some bytes)))))))"

text \<open>A power loss: the directory comes back with the file a reader saw or with the durable one.\<close>

definition power_loss :: "bool \<Rightarrow> Directory \<Rightarrow> Directory" where
  "power_loss survived dir =
     (let file = (if survived then state_file dir else durable_state_file dir) in
      dir\<lparr>state_file := file, durable_state_file := file\<rparr>)"

section \<open>The journal handle\<close>

record MemoryState =
  memory_state :: StoredJournal
  poisoned :: bool

record JournalSnapshot =
  snapshot_revision :: u64
  snapshot_runner_id :: RunnerId
  snapshot_session :: "SessionSnapshot option"
  snapshot_slots :: "SlotSnapshot list"

definition StoredJournal_snapshot :: "StoredJournal \<Rightarrow> JournalSnapshot" where
  "StoredJournal_snapshot self =
     \<lparr>snapshot_revision = revision self, snapshot_runner_id = runner_id self,
      snapshot_session = session self, snapshot_slots = slots self\<rparr>"

definition open_with_options ::
  "Serde \<Rightarrow> externals \<Rightarrow> Environment \<Rightarrow> RunnerId \<Rightarrow> Directory \<Rightarrow>
   (MemoryState, JournalError) result \<times> Directory" where
  "open_with_options serde ext env runner dir =
     (case recovery_call env OpenRoot of
        Inl error \<Rightarrow> (Err error, dir)
      | Inr _ \<Rightarrow>
          (case cleanup_staging env dir of
             (Inl error, dir) \<Rightarrow> (Err error, dir)
           | (Inr _, dir) \<Rightarrow>
               (case read_state env dir of
                  Inl error \<Rightarrow> (Err error, dir)
                | Inr (Some bytes) \<Rightarrow>
                    (and_then (decode serde ext bytes) (\<lambda>state.
                     if runner_id state \<noteq> runner then Err (RunnerIdentityMismatch (runner_id state) runner)
                     else Ok \<lparr>memory_state = state, poisoned = False\<rparr>), dir)
                | Inr None \<Rightarrow>
                    let state = StoredJournal_new runner in
                    (case encode serde ext state of
                       Inl error \<Rightarrow> (Err error, dir)
                     | Inr bytes \<Rightarrow>
                         (case commit env bytes dir of
                            (Inl failure, dir) \<Rightarrow>
                              (Err (if failure_renamed failure then CommitOutcomeUnknown
                                    else failure_error failure), dir)
                          | (Inr _, dir) \<Rightarrow> (Ok \<lparr>memory_state = state, poisoned = False\<rparr>, dir))))))"

record MutateResult =
  mutate_result :: "(JournalSnapshot, JournalError) result"
  mutate_memory :: MemoryState
  mutate_directory :: Directory
  mutate_committed_bytes :: "nat option"
  mutate_noop :: bool

definition mutate_step ::
  "Serde \<Rightarrow> externals \<Rightarrow> Environment \<Rightarrow> JournalMutation \<Rightarrow> MemoryState \<Rightarrow> Directory \<Rightarrow> MutateResult" where
  "mutate_step serde ext env mutation memory dir =
     (let refuse = (\<lambda>error. \<lparr>mutate_result = Err error, mutate_memory = memory, mutate_directory = dir,
                     mutate_committed_bytes = None, mutate_noop = False\<rparr>) in
      if poisoned memory then refuse JournalPoisoned
      else case apply_mutation ext mutation (memory_state memory) of
        Inl error \<Rightarrow> refuse (Invariant error)
      | Inr (changed, candidate) \<Rightarrow>
          if \<not> changed
          then \<lparr>mutate_result = Ok (StoredJournal_snapshot (memory_state memory)), mutate_memory = memory,
                mutate_directory = dir, mutate_committed_bytes = None, mutate_noop = True\<rparr>
          else case and_then (map_err Invariant (increment_revision candidate)) (\<lambda>candidate.
                    and_then (encode serde ext candidate) (\<lambda>bytes. Ok (candidate, bytes))) of
            Inl error \<Rightarrow> refuse error
          | Inr (candidate, bytes) \<Rightarrow>
              (case commit env bytes dir of
                 (Inr _, dir) \<Rightarrow>
                   \<lparr>mutate_result = Ok (StoredJournal_snapshot candidate),
                    mutate_memory = memory\<lparr>memory_state := candidate\<rparr>, mutate_directory = dir,
                    mutate_committed_bytes = Some (length bytes), mutate_noop = False\<rparr>
               | (Inl failure, dir) \<Rightarrow>
                   if failure_renamed failure
                   then \<lparr>mutate_result = Err CommitOutcomeUnknown,
                         mutate_memory = memory\<lparr>poisoned := True\<rparr>, mutate_directory = dir,
                         mutate_committed_bytes = None, mutate_noop = False\<rparr>
                   else \<lparr>mutate_result = Err (failure_error failure), mutate_memory = memory,
                         mutate_directory = dir, mutate_committed_bytes = None, mutate_noop = False\<rparr>))"

definition mutate_outcome :: "MutateResult \<Rightarrow> JournalMutationOutcome" where
  "mutate_outcome r =
     (if mutate_committed_bytes r \<noteq> None then OutcomeCommitted
      else if mutate_noop r then OutcomeNoop
      else case mutate_result r of
        Inr _ \<Rightarrow> OutcomePoisoned
      | Inl (Invariant _) \<Rightarrow> OutcomeRejected
      | Inl (Oversized _ _) \<Rightarrow> OutcomeRejected
      | Inl Corrupt \<Rightarrow> OutcomeRejected
      | Inl CommitOutcomeUnknown \<Rightarrow> OutcomeUncertain
      | Inl JournalPoisoned \<Rightarrow> OutcomePoisoned
      | Inl _ \<Rightarrow> OutcomeIoError)"

definition FileJournal_snapshot :: "MemoryState \<Rightarrow> (JournalSnapshot, JournalError) result" where
  "FileJournal_snapshot memory =
     (if poisoned memory then Err JournalPoisoned
      else Ok (StoredJournal_snapshot (memory_state memory)))"

text \<open>\<open>authorize_orphan\<close> of the adapter: the verifier of the embedding application decides on the claim.\<close>

definition FileJournal_authorize_orphan ::
  "Serde \<Rightarrow> externals \<Rightarrow> Environment \<Rightarrow>
   (OrphanClaim \<Rightarrow> OrphanAuthorityProof \<Rightarrow> (OrphanAuthorityGrant, OrphanAuthorityError) result) \<Rightarrow>
   RunnerSessionId \<Rightarrow> RunnerSlotOrdinal \<Rightarrow> LeaseGuard \<Rightarrow> OrphanAuthorityProof \<Rightarrow>
   MemoryState \<Rightarrow> Directory \<Rightarrow> MutateResult" where
  "FileJournal_authorize_orphan serde ext env verify sid slot guard proof memory dir =
     (let refuse = (\<lambda>error. \<lparr>mutate_result = Err error, mutate_memory = memory, mutate_directory = dir,
                     mutate_committed_bytes = None, mutate_noop = False\<rparr>) in
      if poisoned memory then refuse JournalPoisoned
      else case orphan_claim sid slot guard (memory_state memory) of
        Inl error \<Rightarrow> refuse (Invariant error)
      | Inr claim \<Rightarrow>
          (case verify claim proof of
             Inl error \<Rightarrow> refuse (OrphanAuthority error)
           | Inr grant \<Rightarrow> mutate_step serde ext env (AuthorizeOrphan grant) memory dir))"

text \<open>The contents that a spool must keep for this journal.\<close>

definition retained_content :: "MemoryState \<Rightarrow> DurableContentRef list option" where
  "retained_content memory =
     (case FileJournal_snapshot memory of
        Inl _ \<Rightarrow> None
      | Inr _ \<Rightarrow> Some (content_references (memory_state memory)))"

end
