(* ===== verification/JournalCrash.thy ===== *)
theory JournalCrash
  imports FileJournal
begin

text \<open>
  What the file adapter guarantees across faults, process crashes and power losses.  The only
  hypothesis on the serializer is that it reads back what it wrote.
\<close>

definition serde_reads_back :: "Serde \<Rightarrow> bool" where
  "serde_reads_back serde \<longleftrightarrow>
     (\<forall>j b. to_vec serde j = Some b \<longrightarrow>
        from_slice serde b = Some j \<and> probe_schema serde b = Some (journal_schema_version j))"

section \<open>Codec\<close>

lemma encode_eq_Ok:
  "encode serde ext j = Ok b \<longleftrightarrow>
     journal_inv ext j \<and> to_vec serde j = Some b \<and> length b \<le> MAX_JOURNAL_BYTES"
  by (auto simp: encode_def result_simps journal_validate_iff[symmetric])

lemma decode_eq_Ok:
  "decode serde ext b = Ok j \<longleftrightarrow>
     length b \<le> MAX_JOURNAL_BYTES \<and> probe_schema serde b = Some RUNNER_JOURNAL_SCHEMA_VERSION \<and>
     from_slice serde b = Some j \<and> journal_inv ext j \<and> to_vec serde j = Some b"
  by (auto simp: decode_def result_simps journal_validate_iff[symmetric])

lemma decode_encode:
  "serde_reads_back serde \<Longrightarrow> encode serde ext j = Ok b \<Longrightarrow> decode serde ext b = Ok j"
  by (auto simp: encode_eq_Ok decode_eq_Ok serde_reads_back_def journal_inv_def journal_body_def)

section \<open>One commit\<close>

lemma failed_call:
  "system_call env c x = Err f \<Longrightarrow> failure_renamed f = x" "inject env st x = Err f \<Longrightarrow> failure_renamed f = x"
  by (auto simp: system_call_def inject_def split: option.splits if_splits)

definition same_files :: "Directory \<Rightarrow> Directory \<Rightarrow> bool" where
  "same_files d d' \<longleftrightarrow> state_file d' = state_file d \<and> durable_state_file d' = durable_state_file d \<and>
     obsolete_state_file d' = obsolete_state_file d"

lemma stage_bytes_files:
  assumes "stage_bytes env b d = (r, d')"
  shows "same_files d d'" "r = Err f \<Longrightarrow> \<not> failure_renamed f"
proof -
  show "same_files d d'"
    using assms by (auto simp: stage_bytes_def same_files_def Let_def split: sum.splits)
  show "r = Err f \<Longrightarrow> \<not> failure_renamed f"
    using assms by (auto simp: stage_bytes_def Let_def and_then_eq_Inl split: sum.splits dest: failed_call)
qed

text \<open>A commit did not happen, or is visible with unknown durability, or is durable.\<close>

lemma commit_cases:
  assumes "commit env b d = (r, d')"
  obtains (before) f where "r = Err f" "\<not> failure_renamed f" "same_files d d'"
  | (unknown) f where "r = Err f" "failure_renamed f" "state_file d' = Some b"
    "durable_state_file d' \<in> {durable_state_file d, Some b}" "obsolete_state_file d' = obsolete_state_file d"
  | (durable) "r = Ok ()" "state_file d' = Some b" "durable_state_file d' = Some b"
    "obsolete_state_file d' = obsolete_state_file d"
proof -
  obtain r1 d1 where s: "stage_bytes env b d = (r1, d1)" by (cases "stage_bytes env b d")
  note files = stage_bytes_files(1)[OF s]
  show ?thesis
  proof (cases r1)
    case (Inl f)
    with assms s files stage_bytes_files(2)[OF s] show ?thesis
      by (intro before[of f]) (auto simp: commit_def)
  next
    case (Inr u)
    let ?d = "publish env b d1"
    have d: "state_file ?d = Some b" "durable_state_file ?d = durable_state_file d"
      "obsolete_state_file ?d = obsolete_state_file d"
      using files by (simp_all add: publish_def same_files_def)
    show ?thesis
    proof (cases "system_call env RenameState False")
      case (Inl f)
      with assms s \<open>r1 = Inr u\<close> files failed_call(1)[OF Inl] show ?thesis
        by (intro before[of f]) (auto simp: commit_def)
    next
      case (Inr v)
      note r = assms[unfolded commit_def s \<open>r1 = Inr u\<close> Inr]
      show ?thesis
      proof (cases "and_then (inject env Renamed True) (\<lambda>_. system_call env SyncRoot True)")
        case (Inl f)
        then have "failure_renamed f" by (auto simp: and_then_eq_Inl dest: failed_call)
        with r d Inl show ?thesis by (intro unknown[of f]) auto
      next
        case (Inr w)
        show ?thesis
        proof (cases "inject env DirectorySynced True")
          case (Inl f)
          with r d \<open>_ = Inr w\<close> failed_call(2)[OF Inl] show ?thesis by (intro unknown[of f]) auto
        next
          case (Inr x)
          with r d \<open>_ = Inr w\<close> show ?thesis by (intro durable) auto
        qed
      qed
    qed
  qed
qed

section \<open>Opening\<close>

text \<open>An error that a system call of the recovery reported, and an environment without any.\<close>

definition recovery_failed :: "Environment \<Rightarrow> JournalError \<Rightarrow> bool" where
  "recovery_failed env e \<longleftrightarrow> (\<exists>call. recovery_error env call = Some e)"

definition quiet_recovery :: "Environment \<Rightarrow> bool" where
  "quiet_recovery env \<longleftrightarrow> (\<forall>call. recovery_error env call = None)"

text \<open>What recovery keeps of a directory.\<close>

definition kept :: "Directory \<Rightarrow> Directory \<Rightarrow> bool" where
  "kept d d' \<longleftrightarrow> state_file d' = state_file d \<and> obsolete_state_file d' = obsolete_state_file d \<and>
     durable_state_file d' \<in> {durable_state_file d, state_file d}"

lemma kept_refl: "kept d d"
  by (simp add: kept_def)

lemma recovery_call_eq_Inl: "recovery_call env call = Err e \<Longrightarrow> recovery_failed env e"
  by (auto simp: recovery_call_def recovery_failed_def split: option.splits)

lemma quiet_recovery_failed: "quiet_recovery env \<Longrightarrow> \<not> recovery_failed env e"
  by (simp add: quiet_recovery_def recovery_failed_def)

lemma remove_staging_eq_Inl: "fst (remove_staging env files removed) = Err e \<Longrightarrow> recovery_failed env e"
  by (induction env files removed rule: remove_staging.induct)
     (auto simp: and_then_eq_Inl dest: recovery_call_eq_Inl split: sum.splits if_splits prod.splits)

lemma cleanup_staging_cases:
  obtains (failed) e d' where "cleanup_staging env d = (Err e, d')" "recovery_failed env e" "kept d d'"
  | (cleaned) d' where "cleanup_staging env d = (Ok (), d')" "kept d d'"
proof (cases "recovery_call env ScanStaging")
  case (Inl e)
  then show ?thesis
    by (intro failed[of e d]) (simp_all add: cleanup_staging_def kept_refl recovery_call_eq_Inl)
next
  case scanned: (Inr u)
  obtain r files where rs: "remove_staging env (staging_files d) False = (r, files)"
    by (cases "remove_staging env (staging_files d) False")
  show ?thesis
  proof (cases r)
    case (Inl e)
    with scanned rs remove_staging_eq_Inl[of env "staging_files d" False e] show ?thesis
      by (intro failed[of e "d\<lparr>staging_files := files\<rparr>"]) (simp_all add: cleanup_staging_def kept_def)
  next
    case (Inr removed)
    show ?thesis
    proof (cases "removed \<and> recovery_call env SyncRecovery \<noteq> Ok ()")
      case True
      then obtain e where e: "recovery_call env SyncRecovery = Err e"
        by (cases "recovery_call env SyncRecovery") auto
      with True scanned rs Inr show ?thesis
        by (intro failed[of e "d\<lparr>staging_files := files\<rparr>"])
           (simp_all add: cleanup_staging_def kept_def recovery_call_eq_Inl)
    next
      case False
      with scanned rs Inr show ?thesis
        by (intro cleaned[of "snd (cleanup_staging env d)"]) (auto simp: cleanup_staging_def kept_def Let_def)
    qed
  qed
qed

lemma read_state_cases:
  assumes "\<not> obsolete_state_file d" "\<forall>b. state_file d = Some b \<longrightarrow> length b \<le> MAX_JOURNAL_BYTES"
  shows "read_state env d = Ok (state_file d) \<or> (\<exists>e. read_state env d = Err e \<and> recovery_failed env e)"
proof (cases "read_state env d")
  case (Inl e)
  with assms have "recovery_failed env e"
    by (auto simp: read_state_def and_then_eq_Inl Let_def dest: recovery_call_eq_Inl
        split: option.splits if_splits)
  with Inl show ?thesis by simp
next
  case (Inr f)
  with assms show ?thesis by (auto simp: read_state_def result_simps Let_def split: option.splits if_splits)
qed

text \<open>
  Opening a directory whose files fit: a system call fails, or the handle is built from the file that was there, or
  a first journal is committed.
\<close>

lemma open_cases:
  assumes "\<not> obsolete_state_file d" "\<forall>b. state_file d = Some b \<longrightarrow> length b \<le> MAX_JOURNAL_BYTES"
    and "open_with_options serde ext env runner d = (r, d')"
  obtains (failed) e where "r = Err e" "recovery_failed env e" "kept d d'"
  | (existing) b where "state_file d = Some b" "kept d d'"
      "r = and_then (decode serde ext b) (\<lambda>state.
         if runner_id state \<noteq> runner then Err (RunnerIdentityMismatch (runner_id state) runner)
         else Ok \<lparr>memory_state = state, poisoned = False\<rparr>)"
  | (unencodable) e where "state_file d = None" "kept d d'" "r = Err e"
      "encode serde ext (StoredJournal_new runner) = Err e"
  | (created) b d1 cr where "state_file d = None" "kept d d1"
      "encode serde ext (StoredJournal_new runner) = Ok b" "commit env b d1 = (cr, d')"
      "r = (case cr of
          Inl failure \<Rightarrow> Err (if failure_renamed failure then CommitOutcomeUnknown else failure_error failure)
        | Inr _ \<Rightarrow> Ok \<lparr>memory_state = StoredJournal_new runner, poisoned = False\<rparr>)"
proof (cases "recovery_call env OpenRoot")
  case (Inl e)
  with assms(3) show ?thesis
    by (intro failed[of e]) (simp_all add: open_with_options_def kept_refl recovery_call_eq_Inl)
next
  case root: (Inr u)
  show ?thesis
  proof (cases rule: cleanup_staging_cases[of env d])
    case (failed e d1)
    with assms(3) root show ?thesis by (intro that(1)[of e]) (simp_all add: open_with_options_def)
  next
    case (cleaned d1)
    then have d1: "\<not> obsolete_state_file d1" "state_file d1 = state_file d"
      using assms(1) by (simp_all add: kept_def)
    then consider "read_state env d1 = Ok (state_file d)" | e where "read_state env d1 = Err e" "recovery_failed env e"
      using read_state_cases[of d1 env] assms(2) by auto
    then show ?thesis
    proof cases
      case 1
      note opened = assms(3)[unfolded open_with_options_def root cleaned(1) prod.case sum.case 1]
      show ?thesis
      proof (cases "state_file d")
        case (Some b)
        with opened cleaned(2) show ?thesis by (intro existing[of b]) simp_all
      next
        case None
        show ?thesis
        proof (cases "encode serde ext (StoredJournal_new runner)")
          case (Inl e)
          with opened None cleaned(2) show ?thesis by (intro unencodable[of e]) (simp_all add: Let_def)
        next
          case (Inr b)
          obtain cr d2 where "commit env b d1 = (cr, d2)" by (cases "commit env b d1")
          with opened None Inr cleaned(2) show ?thesis
            by (intro created[of d1 b cr]) (auto simp: Let_def split: sum.splits)
        qed
      qed
    next
      case 2
      with assms(3) root cleaned show ?thesis by (intro that(1)[of e]) (simp_all add: open_with_options_def)
    qed
  qed
qed

lemma open_existing:
  assumes "serde_reads_back serde" "encode serde ext j = Ok b" "state_file d = Some b"
    and "\<not> obsolete_state_file d" "open_with_options serde ext env runner d = (r, d')"
  shows "kept d d' \<and> ((\<exists>e. r = Err e \<and> recovery_failed env e) \<or>
    r = (if runner_id j = runner then Ok \<lparr>memory_state = j, poisoned = False\<rparr>
         else Err (RunnerIdentityMismatch (runner_id j) runner)))"
proof -
  have fits: "\<forall>c. state_file d = Some c \<longrightarrow> length c \<le> MAX_JOURNAL_BYTES"
    using assms(2,3) by (simp add: encode_eq_Ok)
  from assms(4) fits assms(5) show ?thesis
    by (cases rule: open_cases) (use assms(3) decode_encode[OF assms(1,2)] in auto)
qed

lemma open_quiet:
  assumes "serde_reads_back serde" "encode serde ext j = Ok b" "state_file d = Some b"
    and "\<not> obsolete_state_file d" "quiet_recovery env" "runner_id j = runner"
  shows "fst (open_with_options serde ext env runner d) = Ok \<lparr>memory_state = j, poisoned = False\<rparr>"
  using open_existing[OF assms(1-4), of env runner] assms(5,6)
  by (cases "open_with_options serde ext env runner d") (auto dest: quiet_recovery_failed)

section \<open>Typed journals\<close>

text \<open>
  What the argument types of the source exclude and the words of the model do not: a slot ordinal of
  zero in a new checkpoint.
\<close>

fun typed_mutation :: "JournalMutation \<Rightarrow> bool" where
  "typed_mutation (PrepareLeasePoll sid slot operation) \<longleftrightarrow> slot \<noteq> 0"
| "typed_mutation _ \<longleftrightarrow> True"

lemma unguarded_no_early_log:
  assumes "apply_slot m s = Ok (b, s')" "\<not> commit_guard m s" "no_early_log s"
  shows "no_early_log s'"
proof -
  from assms(2) consider op where "m = RecordProviderIntent op" | op where "m = AcceptEndpointOperation op"
    | i res where "m = RecordEndpointResult i res" | p at where "m = RecordLogSegment p at"
    by (cases m) auto
  then show ?thesis
  proof cases
    case 1
    with assms show ?thesis
      by (auto simp: slot_record_provider_intent_def compact_oldest_def Let_def result_simps no_early_log_def
          split: if_splits option.splits list.splits)
  qed (use assms in \<open>auto simp: slot_accept_endpoint_operation_def slot_record_endpoint_result_def
      slot_record_log_segment_def result_simps no_early_log_def split: if_splits option.splits\<close>)
qed

lemma apply_slot_no_early_log:
  assumes "slot_ok ext r v j s" "apply_slot m s = Ok (b, s')"
  shows "no_early_log s'"
  using apply_slot_ok[OF assms] unguarded_no_early_log[OF assms(2)] assms(1)
  by (auto simp: slot_ok_def)

text \<open>A candidate that passes the validation before the commit is again a journal of the invariant.\<close>

lemma validated_begin_session:
  assumes "begin_session bd j = Ok (True, j')" "journal_body ext j'"
  shows "mutation_guard (BeginSession bd) j"
proof -
  have "session j' = Some (SessionSnapshot_new bd)"
    using assms(1) by (auto simp: begin_session_def split: option.splits if_splits)
  with assms(2) have "session_inv (SessionSnapshot_new bd)" by (simp add: journal_body_def)
  then show ?thesis by (simp add: session_inv_def SessionSnapshot_new_def)
qed

lemma validated_with_slot:
  assumes "journal_ok ext j" "with_slot sid slot g (apply_slot m) j = Ok (b, j')" "journal_body ext j'"
  shows "journal_ok ext j'"
  using assms(2,1)
proof (cases rule: with_slot_OkE)
  case (1 s i y)
  have y: "no_early_log y" by (rule apply_slot_no_early_log[OF slots_ok_nth[OF 1(4,5)] 1(8)])
  have "list_all no_early_log (slots j)" using 1(4) by (simp add: slots_ok_def)
  with y have "list_all no_early_log ((slots j)[i := y])"
    using set_update_subset_insert[of "slots j" i y] by (auto simp: list_all_iff)
  moreover have "slots_inv ext (runner_id j) s ((slots j)[i := y])"
    "journal_schema_version j = RUNNER_JOURNAL_SCHEMA_VERSION" "length (slots j) \<le> MAX_JOURNALED_SLOTS"
    using assms(3) unfolding 1(9) journal_body_def by (simp_all add: 1(1))
  ultimately show ?thesis
    unfolding 1(9) journal_ok_def by (simp add: 1(1,3) slots_ok_def)
qed

lemma validated_mutation_ok:
  assumes "journal_ok ext j" "apply_mutation ext m j = Ok (True, j')" "typed_mutation m"
    and "journal_body ext j'"
  shows "journal_ok ext j'"
proof (cases m)
  case (BeginSession bd)
  then show ?thesis
    using apply_mutation_ok[OF assms(1,2)] validated_begin_session[of bd j j', OF _ assms(4)] assms(2) by simp
next
  case (MutateSlot sid slot g sm)
  then show ?thesis using validated_with_slot[OF assms(1) _ assms(4)] assms(2) by simp
qed (use apply_mutation_ok[OF assms(1,2)] assms(3) in simp_all)

lemma increment_revision_eq_Ok:
  "increment_revision j = Ok j' \<longleftrightarrow> (\<exists>n. unat n = unat (revision j) + 1 \<and> j' = j\<lparr>revision := n\<rparr>)"
  by (auto simp: increment_revision_def result_simps checked_simps)

lemma journal_ok_revision [simp]: "journal_ok ext (j\<lparr>revision := n\<rparr>) = journal_ok ext j"
  by (simp add: journal_ok_def split: option.split)

lemma journal_body_revision [simp]: "journal_body ext (j\<lparr>revision := n\<rparr>) = journal_body ext j"
  by (simp add: journal_body_def split: option.split)

text \<open>No mutation changes the runner, the schema version or the revision.\<close>

definition same_identity :: "StoredJournal \<Rightarrow> StoredJournal \<Rightarrow> bool" where
  "same_identity j j' \<longleftrightarrow> runner_id j' = runner_id j \<and> revision j' = revision j"

lemma same_identity_simps [simp]:
  "same_identity j j" "same_identity j (j\<lparr>session := s\<rparr>)" "same_identity j (j\<lparr>slots := ss\<rparr>)"
  "same_identity j (j\<lparr>session := s, slots := ss\<rparr>)"
  by (simp_all add: same_identity_def)

lemma same_identity_trans: "same_identity a b \<Longrightarrow> same_identity b c \<Longrightarrow> same_identity a c"
  by (simp add: same_identity_def)

lemma commit_command_identity: "commit_command sid c d j = Ok (b, j') \<Longrightarrow> same_identity j j'"
  by (erule commit_command_OkE) simp_all

lemma record_offer_identity:
  "journal_ok ext j \<Longrightarrow> record_offer ext sid record j = Ok (b, j') \<Longrightarrow> same_identity j j'"
  by (erule record_offer_OkE, assumption) simp_all

lemma record_cancellation_identity:
  "journal_ok ext j \<Longrightarrow> record_cancellation sid slot g c j = Ok (b, j') \<Longrightarrow> same_identity j j'"
  by (erule record_cancellation_OkE, assumption) simp_all

lemma advance_lease_poll_identity:
  "advance_lease_poll sid slot e n rs j = Ok (b, j') \<Longrightarrow> same_identity j j'"
  by (erule advance_lease_poll_OkE) simp_all

lemma begin_session_identity: "begin_session binding j = Ok (b, j') \<Longrightarrow> same_identity j j'"
  by (auto simp: begin_session_def split: option.splits if_splits)

lemma prepare_lease_poll_identity:
  "prepare_lease_poll sid slot i j = Ok (b, j') \<Longrightarrow> same_identity j j'"
  by (erule prepare_lease_poll_OkE) simp_all

lemma acknowledge_receipts_identity:
  "acknowledge_lease_authority_receipts sid slot rs j = Ok (b, j') \<Longrightarrow> same_identity j j'"
  by (erule acknowledge_receipts_OkE) simp_all

lemma slot_operations_identity:
  "with_slot sid slot g f j = Ok (b, j') \<Longrightarrow> same_identity j j'"
  "authorize_orphan grant j = Ok (b, j') \<Longrightarrow> same_identity j j'"
  "release_rejected_offer sid slot g i j = Ok (b, j') \<Longrightarrow> same_identity j j'"
  "release_slot sid slot g j = Ok (b, j') \<Longrightarrow> same_identity j j'"
  by (auto simp: with_slot_def authorize_orphan_def release_rejected_offer_def release_slot_def
      Let_def result_simps)

lemma complete_lease_poll_identity:
  assumes "journal_ok ext j" "complete_lease_poll ext sid completion j = Ok (b, j')"
  shows "same_identity j j'"
  using assms(2)
proof (cases rule: complete_lease_poll_OkE)
  case (1 b1 j1 b2)
  have "same_identity j1 j'"
    using 1(3) advance_lease_poll_ok[OF assms(1) 1(2)]
    by (cases "completion_command completion")
       (auto simp: result_simps
        intro: commit_command_identity record_offer_identity record_cancellation_identity)
  with advance_lease_poll_identity[OF 1(2)] show ?thesis by (rule same_identity_trans)
qed

lemmas mutation_identities = begin_session_identity prepare_lease_poll_identity
  acknowledge_receipts_identity commit_command_identity slot_operations_identity

lemma apply_mutation_identity:
  assumes "journal_ok ext j" "apply_mutation ext m j = Ok (b, j')"
  shows "same_identity j j'"
  using assms(2)
  by (cases m) (simp_all, (erule mutation_identities complete_lease_poll_identity[OF assms(1)]
      record_offer_identity[OF assms(1)] record_cancellation_identity[OF assms(1)])+)

section \<open>One mutation\<close>

lemma map_err_eq_Inl: "map_err f r = Inl e \<longleftrightarrow> (\<exists>x. r = Inl x \<and> e = f x)"
  by (cases r) auto

lemma refused_encode:
  "encode serde ext j = Err e \<Longrightarrow> (\<exists>x. e = Invariant x) \<or> e = Corrupt \<or> (\<exists>x y. e = Oversized x y)"
  by (cases "to_vec serde j") (auto simp: encode_def and_then_eq_Inl map_err_eq_Inl split: if_splits)

lemma mutate_cases:
  assumes "r = mutate_step serde ext env m memory dir"
  obtains (refused) e where "mutate_result r = Err e" "mutate_memory r = memory" "mutate_directory r = dir"
      "mutate_committed_bytes r = None" "\<not> mutate_noop r"
      "poisoned memory \<and> e = JournalPoisoned \<or>
       (\<exists>x. e = Invariant x) \<or> e = Corrupt \<or> (\<exists>x y. e = Oversized x y)"
  | (unchanged) c where "\<not> poisoned memory" "apply_mutation ext m (memory_state memory) = Ok (False, c)"
      "mutate_result r = Ok (StoredJournal_snapshot (memory_state memory))" "mutate_memory r = memory"
      "mutate_directory r = dir" "mutate_committed_bytes r = None" "mutate_noop r"
  | (attempted) c0 c b cr where "\<not> poisoned memory" "apply_mutation ext m (memory_state memory) = Ok (True, c0)"
      "increment_revision c0 = Ok c" "encode serde ext c = Ok b" "commit env b dir = (cr, mutate_directory r)"
      "mutate_result r = (case cr of Inr _ \<Rightarrow> Ok (StoredJournal_snapshot c)
         | Inl f \<Rightarrow> Err (if failure_renamed f then CommitOutcomeUnknown else failure_error f))"
      "mutate_memory r = (case cr of Inr _ \<Rightarrow> memory\<lparr>memory_state := c\<rparr>
         | Inl f \<Rightarrow> if failure_renamed f then memory\<lparr>poisoned := True\<rparr> else memory)"
      "mutate_committed_bytes r = (case cr of Inr _ \<Rightarrow> Some (length b) | Inl _ \<Rightarrow> None)" "\<not> mutate_noop r"
proof (cases "poisoned memory")
  case True
  with assms show ?thesis by (intro refused) (auto simp: mutate_step_def)
next
  case live: False
  show ?thesis
  proof (cases "apply_mutation ext m (memory_state memory)")
    case (Inl e)
    with assms live show ?thesis by (intro refused) (auto simp: mutate_step_def)
  next
    case (Inr ch)
    then obtain changed c0 where ch: "apply_mutation ext m (memory_state memory) = Ok (changed, c0)"
      by (cases ch) simp
    show ?thesis
    proof (cases changed)
      case False
      with assms live ch show ?thesis by (intro unchanged) (auto simp: mutate_step_def)
    next
      case True
      show ?thesis
      proof (cases "and_then (map_err Invariant (increment_revision c0)) (\<lambda>candidate.
                    and_then (encode serde ext candidate) (\<lambda>bytes. Ok (candidate, bytes)))")
        case (Inl e)
        then have "(\<exists>x. e = Invariant x) \<or> e = Corrupt \<or> (\<exists>x y. e = Oversized x y)"
          by (auto simp: and_then_eq_Inl map_err_eq_Inl dest: refused_encode)
        with assms live ch True Inl show ?thesis by (intro refused) (auto simp: mutate_step_def)
      next
        case (Inr cb)
        obtain c b where cb: "cb = (c, b)" by (cases cb)
        obtain cr d' where d': "commit env b dir = (cr, d')" by (cases "commit env b dir")
        note r = assms[unfolded mutate_step_def Let_def ch True Inr cb]
        from Inr cb have "increment_revision c0 = Ok c" "encode serde ext c = Ok b"
          by (auto simp: result_simps)
        with live ch True d' r show ?thesis
          by (intro attempted[of c0 c b cr]) (auto split: sum.splits)
      qed
    qed
  qed
qed

section \<open>The file, the handle and their environment\<close>

definition file_ok :: "Serde \<Rightarrow> externals \<Rightarrow> RunnerId \<Rightarrow> bytes option \<Rightarrow> bool" where
  "file_ok serde ext runner file \<longleftrightarrow>
     (\<forall>b. file = Some b \<longrightarrow> (\<exists>j. encode serde ext j = Ok b \<and> journal_ok ext j \<and> runner_id j = runner))"

definition directory_ok :: "Serde \<Rightarrow> externals \<Rightarrow> RunnerId \<Rightarrow> Directory \<Rightarrow> bool" where
  "directory_ok serde ext runner d \<longleftrightarrow> \<not> obsolete_state_file d \<and>
     file_ok serde ext runner (state_file d) \<and> file_ok serde ext runner (durable_state_file d)"

definition handle_ok :: "Serde \<Rightarrow> externals \<Rightarrow> RunnerId \<Rightarrow> MemoryState \<Rightarrow> Directory \<Rightarrow> bool" where
  "handle_ok serde ext runner m d \<longleftrightarrow> journal_ok ext (memory_state m) \<and> runner_id (memory_state m) = runner \<and>
     (\<not> poisoned m \<longrightarrow> (\<exists>b. encode serde ext (memory_state m) = Ok b \<and> state_file d = Some b))"

record System =
  sys_directory :: Directory
  sys_handle :: "MemoryState option"

definition system_init :: "System \<Rightarrow> bool" where
  "system_init s \<longleftrightarrow> s = \<lparr>sys_directory = \<lparr>state_file = None, durable_state_file = None,
     obsolete_state_file = False, staging_files = []\<rparr>, sys_handle = None\<rparr>"

inductive system_step :: "Serde \<Rightarrow> externals \<Rightarrow> RunnerId \<Rightarrow> System \<Rightarrow> System \<Rightarrow> bool"
  for serde ext runner where
  step_open: "sys_handle s = None \<Longrightarrow> open_with_options serde ext env runner (sys_directory s) = (r, d') \<Longrightarrow>
    system_step serde ext runner s
      \<lparr>sys_directory = d', sys_handle = (case r of Inl _ \<Rightarrow> None | Inr m \<Rightarrow> Some m)\<rparr>"
| step_mutate: "sys_handle s = Some m \<Longrightarrow> typed_mutation x \<Longrightarrow>
    r = mutate_step serde ext env x m (sys_directory s) \<Longrightarrow>
    system_step serde ext runner s \<lparr>sys_directory = mutate_directory r, sys_handle = Some (mutate_memory r)\<rparr>"
| step_exit: "system_step serde ext runner s (s\<lparr>sys_handle := None\<rparr>)"
| step_power_loss: "system_step serde ext runner s
    \<lparr>sys_directory = power_loss survived (sys_directory s), sys_handle = None\<rparr>"

definition system_ok :: "Serde \<Rightarrow> externals \<Rightarrow> RunnerId \<Rightarrow> System \<Rightarrow> bool" where
  "system_ok serde ext runner s \<longleftrightarrow> directory_ok serde ext runner (sys_directory s) \<and>
     (\<forall>m. sys_handle s = Some m \<longrightarrow> handle_ok serde ext runner m (sys_directory s))"

lemma file_okI: "encode serde ext j = Ok b \<Longrightarrow> journal_ok ext j \<Longrightarrow> runner_id j = runner \<Longrightarrow>
    file_ok serde ext runner (Some b)"
  by (auto simp: file_ok_def)

text \<open>The candidate of a mutation is a journal of the same runner at the next revision.\<close>

lemma candidate_ok:
  assumes "journal_ok ext j" "apply_mutation ext m j = Ok (True, c0)" "increment_revision c0 = Ok c"
    and "encode serde ext c = Ok b" "typed_mutation m"
  shows "journal_ok ext c" "runner_id c = runner_id j" "unat (revision c) = unat (revision j) + 1"
proof -
  from assms(3) obtain n where c: "c = c0\<lparr>revision := n\<rparr>" "unat n = unat (revision c0) + 1"
    by (auto simp: increment_revision_eq_Ok)
  have "journal_body ext c0" using assms(4) by (simp add: encode_eq_Ok journal_inv_def c(1))
  then show "journal_ok ext c" using validated_mutation_ok[OF assms(1,2,5)] by (simp add: c(1))
  show "runner_id c = runner_id j" "unat (revision c) = unat (revision j) + 1"
    using apply_mutation_identity[OF assms(1,2)] c by (simp_all add: same_identity_def)
qed

lemma mutate_ok:
  assumes "r = mutate_step serde ext env x m d" "typed_mutation x"
    and "directory_ok serde ext runner d" "handle_ok serde ext runner m d"
  shows "directory_ok serde ext runner (mutate_directory r)"
    "handle_ok serde ext runner (mutate_memory r) (mutate_directory r)"
  using assms(1)
proof (atomize (full), cases rule: mutate_cases)
  case (attempted c0 c b cr)
  have j: "journal_ok ext (memory_state m)" "runner_id (memory_state m) = runner"
    using assms(4) by (simp_all add: handle_ok_def)
  note c = candidate_ok[OF j(1) attempted(2,3,4) assms(2)]
  have fok: "file_ok serde ext runner (Some b)" using file_okI[OF attempted(4) c(1)] c(2) j(2) by simp
  from attempted(5) show "directory_ok serde ext runner (mutate_directory r) \<and>
      handle_ok serde ext runner (mutate_memory r) (mutate_directory r)"
  proof (cases rule: commit_cases)
    case (before f)
    then show ?thesis using assms(3,4) attempted(7)
      by (simp add: directory_ok_def handle_ok_def same_files_def)
  next
    case (unknown f)
    then show ?thesis using assms(3) attempted(7) fok j
      by (auto simp: directory_ok_def handle_ok_def)
  next
    case durable
    then show ?thesis using assms(3) attempted(1,4,7) fok j c
      by (auto simp: directory_ok_def handle_ok_def)
  qed
qed (use assms(3,4) in auto)

lemma new_journal_file:
  "encode serde ext (StoredJournal_new r) = Ok b \<Longrightarrow> file_ok serde ext r (Some b)"
  by (erule file_okI) (simp_all add: journal_ok_new, simp add: StoredJournal_new_def)

lemma kept_directory_ok:
  "kept d d' \<Longrightarrow> directory_ok serde ext runner d \<Longrightarrow> directory_ok serde ext runner d'"
  by (auto simp: directory_ok_def kept_def)

lemma open_ok:
  assumes "serde_reads_back serde" "directory_ok serde ext runner d"
    and "open_with_options serde ext env runner d = (r, d')"
  shows "directory_ok serde ext runner d' \<and> (r = Ok m \<longrightarrow> handle_ok serde ext runner m d')"
proof -
  have d: "\<not> obsolete_state_file d" "\<forall>b. state_file d = Some b \<longrightarrow> length b \<le> MAX_JOURNAL_BYTES"
    using assms(2) by (auto simp: directory_ok_def file_ok_def encode_eq_Ok)
  from d assms(3) show ?thesis
  proof (cases rule: open_cases)
    case (failed e)
    with kept_directory_ok[OF _ assms(2)] show ?thesis by simp
  next
    case (existing b)
    with assms(2) obtain j where j: "encode serde ext j = Ok b" "journal_ok ext j" "runner_id j = runner"
      by (auto simp: directory_ok_def file_ok_def)
    with existing kept_directory_ok[OF existing(2) assms(2)] decode_encode[OF assms(1) j(1)] show ?thesis
      by (auto simp: handle_ok_def kept_def)
  next
    case (unencodable e)
    with kept_directory_ok[OF _ assms(2)] show ?thesis by simp
  next
    case (created b d1 cr)
    note ok = kept_directory_ok[OF created(2) assms(2)] and fok = new_journal_file[OF created(3)]
    from created(4) show ?thesis
    proof (cases rule: commit_cases)
      case (before f)
      with ok created(5) show ?thesis by (auto simp: directory_ok_def same_files_def)
    next
      case (unknown f)
      with ok fok created(5) show ?thesis by (auto simp: directory_ok_def)
    next
      case durable
      with ok fok created(3,5) journal_ok_new[of ext runner] show ?thesis
        by (auto simp: directory_ok_def handle_ok_def StoredJournal_new_def)
    qed
  qed
qed

lemma system_step_ok:
  assumes "system_step serde ext runner s s'" "serde_reads_back serde" "system_ok serde ext runner s"
  shows "system_ok serde ext runner s'"
  using assms(1)
proof cases
  case (step_open env r d')
  have "directory_ok serde ext runner (sys_directory s)" using assms(3) by (simp add: system_ok_def)
  from open_ok[OF assms(2) this step_open(3)] show ?thesis
    unfolding step_open(1) by (cases r) (auto simp: system_ok_def)
next
  case (step_mutate m x r env)
  with assms(3) show ?thesis
    using mutate_ok[OF step_mutate(4,3)] by (auto simp: system_ok_def)
next
  case step_exit
  with assms(3) show ?thesis by (auto simp: system_ok_def)
next
  case (step_power_loss survived)
  with assms(3) show ?thesis by (auto simp: system_ok_def directory_ok_def power_loss_def Let_def)
qed

interpretation file_system:
  inductive_invariant system_init "system_step serde ext runner"
    "\<lambda>s. serde_reads_back serde \<longrightarrow> system_ok serde ext runner s" for serde ext runner
proof
  show "system_init s \<Longrightarrow> serde_reads_back serde \<longrightarrow> system_ok serde ext runner s" for s
    by (simp add: system_init_def system_ok_def directory_ok_def file_ok_def)
qed (blast intro: system_step_ok)

section \<open>Crash atomicity\<close>

lemma mutate_then_reopen:
  assumes "serde_reads_back serde" "journal_ok ext (memory_state m)" "\<not> poisoned m"
    and "encode serde ext (memory_state m) = Ok b" "state_file d = Some b" "durable_state_file d = Some b"
    and "\<not> obsolete_state_file d" "r = mutate_step serde ext env x m d" "quiet_recovery env'"
  shows "\<exists>j. fst (open_with_options serde ext env' (runner_id (memory_state m))
           (power_loss survived (mutate_directory r))) =
         Ok \<lparr>memory_state = j, poisoned = False\<rparr> \<and>
       (j = memory_state m \<or>
        (\<exists>c. apply_mutation ext x (memory_state m) = Ok (True, c) \<and> increment_revision c = Ok j)) \<and>
       (case mutate_result r of
          Inr snapshot \<Rightarrow> StoredJournal_snapshot j = snapshot
        | Inl error \<Rightarrow> error = CommitOutcomeUnknown \<or> j = memory_state m)"
proof -
  let ?j = "memory_state m"
  have reopen: "fst (open_with_options serde ext env' (runner_id ?j) (power_loss survived d')) =
      Ok \<lparr>memory_state = k, poisoned = False\<rparr>"
    if "encode serde ext k = Ok f" "runner_id k = runner_id ?j" "\<not> obsolete_state_file d'"
      "(if survived then state_file d' else durable_state_file d') = Some f" for k f d'
    using open_quiet[OF assms(1) that(1) _ _ assms(9), of "power_loss survived d'" "runner_id ?j"] that
    by (simp add: power_loss_def Let_def split: if_splits)
  show ?thesis
    using assms(8)
  proof (cases rule: mutate_cases)
    case (attempted c0 c f cr)
    have c: "runner_id c = runner_id ?j"
      using apply_mutation_identity[OF assms(2) attempted(2)] attempted(3)
      by (auto simp: same_identity_def increment_revision_eq_Ok)
    note old = reopen[OF assms(4) refl, of "mutate_directory r"]
      and new = reopen[OF attempted(4) c, of "mutate_directory r"]
    from attempted(5) show ?thesis
    proof (cases rule: commit_cases)
      case (before e)
      with old assms(5-7) attempted(6) show ?thesis by (auto simp: same_files_def)
    next
      case (unknown e)
      then have "(if survived then state_file (mutate_directory r) else durable_state_file (mutate_directory r))
          \<in> {Some b, Some f}"
        using assms(6) by auto
      with unknown old new assms(7) attempted show ?thesis by auto
    next
      case durable
      with new assms(7) attempted show ?thesis by (auto split: if_splits)
    qed
  qed (use reopen[OF assms(4) refl, of d] assms(5-7) in auto)
qed


section \<open>Outcomes\<close>

text \<open>The operating-system calls of a commit fail with an I/O error or the path-security error only.\<close>

definition os_errors_only :: "Environment \<Rightarrow> bool" where
  "os_errors_only env \<longleftrightarrow>
     (\<forall>call e. call_error env call = Some e \<longrightarrow> e = PathSecurity \<or> (\<exists>w. e = JournalIo w))"

lemma failed_call_error:
  assumes "os_errors_only env"
  shows "system_call env call x = Err f \<Longrightarrow> failure_error f = PathSecurity \<or> (\<exists>w. failure_error f = JournalIo w)"
    and "inject env st x = Err f \<Longrightarrow> failure_error f = InjectedFault st"
  using assms unfolding os_errors_only_def system_call_def inject_def
  by (cases "call_error env call"; fastforce split: if_splits)+

lemma commit_error:
  assumes "os_errors_only env" "fst (commit env b d) = Err f"
  shows "failure_error f = PathSecurity \<or> (\<exists>w. failure_error f = JournalIo w) \<or>
    (\<exists>st. failure_error f = InjectedFault st)"
proof -
  have "(\<exists>c x. system_call env c x = Err f) \<or> (\<exists>st x. inject env st x = Err f)"
    using assms(2)
    by (fastforce simp: commit_def stage_bytes_def Let_def and_then_eq_Inl split: sum.splits prod.splits)
  then show ?thesis using failed_call_error[OF assms(1)] by blast
qed

lemma outcome_of:
  assumes "os_errors_only env" "r = mutate_step serde ext env x m d"
  shows "case mutate_outcome r of
      OutcomeCommitted \<Rightarrow> (\<exists>j b. encode serde ext j = Ok b \<and> mutate_result r = Ok (StoredJournal_snapshot j) \<and>
        memory_state (mutate_memory r) = j \<and> state_file (mutate_directory r) = Some b \<and>
        durable_state_file (mutate_directory r) = Some b)
    | OutcomeNoop \<Rightarrow> mutate_result r = Ok (StoredJournal_snapshot (memory_state m)) \<and>
        mutate_memory r = m \<and> mutate_directory r = d
    | OutcomeRejected \<Rightarrow> \<not> is_ok (mutate_result r) \<and> mutate_memory r = m \<and> mutate_directory r = d
    | OutcomeIoError \<Rightarrow> \<not> is_ok (mutate_result r) \<and> mutate_memory r = m \<and> same_files d (mutate_directory r)
    | OutcomeUncertain \<Rightarrow> mutate_result r = Err CommitOutcomeUnknown \<and> poisoned (mutate_memory r) \<and>
        (\<exists>j b. encode serde ext j = Ok b \<and> state_file (mutate_directory r) = Some b)
    | OutcomePoisoned \<Rightarrow> poisoned m \<and> mutate_result r = Err JournalPoisoned \<and> mutate_memory r = m \<and>
        mutate_directory r = d"
proof -
  show ?thesis
    using assms(2)
  proof (cases rule: mutate_cases)
    case (refused e)
    then show ?thesis by (auto simp: mutate_outcome_def)
  next
    case (unchanged c)
    then show ?thesis by (simp add: mutate_outcome_def)
  next
    case (attempted c0 c b cr)
    from attempted(5) show ?thesis
    proof (cases rule: commit_cases)
      case (before f)
      then have "failure_error f = PathSecurity \<or> (\<exists>w. failure_error f = JournalIo w) \<or>
          (\<exists>st. failure_error f = InjectedFault st)"
        using commit_error[OF assms(1), of b d f] attempted(5) by simp
      with before attempted show ?thesis by (auto simp: mutate_outcome_def)
    next
      case (unknown f)
      with attempted show ?thesis by (auto simp: mutate_outcome_def)
    next
      case durable
      with attempted show ?thesis by (auto simp: mutate_outcome_def)
    qed
  qed
qed

text \<open>The outcome that the adapter reports to its observer is the truth about the file and the
  handle: a committed mutation is durable, a no-op or a rejection touched nothing, an I/O error left both files
  and the handle as they were, and an uncertain commit is visible and poisons the handle.\<close>

theorem mutate_outcome_truthful:
  assumes "os_errors_only env"
  shows "let r = mutate_step serde ext env x m d in
    case mutate_outcome r of
      OutcomeCommitted \<Rightarrow> (\<exists>j b. encode serde ext j = Ok b \<and> mutate_result r = Ok (StoredJournal_snapshot j) \<and>
        memory_state (mutate_memory r) = j \<and> state_file (mutate_directory r) = Some b \<and>
        durable_state_file (mutate_directory r) = Some b)
    | OutcomeNoop \<Rightarrow> mutate_result r = Ok (StoredJournal_snapshot (memory_state m)) \<and>
        mutate_memory r = m \<and> mutate_directory r = d
    | OutcomeRejected \<Rightarrow> \<not> is_ok (mutate_result r) \<and> mutate_memory r = m \<and> mutate_directory r = d
    | OutcomeIoError \<Rightarrow> \<not> is_ok (mutate_result r) \<and> mutate_memory r = m \<and> same_files d (mutate_directory r)
    | OutcomeUncertain \<Rightarrow> mutate_result r = Err CommitOutcomeUnknown \<and> poisoned (mutate_memory r) \<and>
        (\<exists>j b. encode serde ext j = Ok b \<and> state_file (mutate_directory r) = Some b)
    | OutcomePoisoned \<Rightarrow> poisoned m \<and> mutate_result r = Err JournalPoisoned \<and> mutate_memory r = m \<and>
        mutate_directory r = d"
  unfolding Let_def by (rule outcome_of[OF assms refl])

section \<open>Reopening\<close>


section \<open>A concrete journal\<close>

definition sample_session_binding :: SessionBinding where
  "sample_session_binding = \<lparr>binding_session_id = 5, binding_protocol = 3, binding_job_ir = JobIrVersion_current\<rparr>"

definition sample_begun :: StoredJournal where
  "sample_begun = (StoredJournal_new 9)\<lparr>revision := 1, session := Some (SessionSnapshot_new sample_session_binding)\<rparr>"

text \<open>A serializer that knows the two journals of the example.\<close>

definition sample_serde :: Serde where
  "sample_serde =
     \<lparr>to_vec = (\<lambda>j. if j = StoredJournal_new 9 then Some [1] else if j = sample_begun then Some [2] else None),
      from_slice = (\<lambda>b. if b = [1] then Some (StoredJournal_new 9) else if b = [2] then Some sample_begun else None),
      probe_schema = (\<lambda>b. if b = [1] \<or> b = [2] then Some RUNNER_JOURNAL_SCHEMA_VERSION else None)\<rparr>"

definition sample_env :: "CommitCall option \<Rightarrow> Environment" where
  "sample_env failing =
     \<lparr>fault_check = (\<lambda>_. False),
      call_error = (\<lambda>call. if failing = Some call then Some (JournalIo ''sync state-root directory'') else None),
      recovery_error = (\<lambda>_. None), staging_name = STAGING_PREFIX @ ''1-a'', partial_write = []\<rparr>"

definition sample_directory :: Directory where
  "sample_directory = \<lparr>state_file = Some [1], durable_state_file = Some [1], obsolete_state_file = False,
     staging_files = []\<rparr>"

definition sample_memory :: MemoryState where
  "sample_memory = \<lparr>memory_state = StoredJournal_new 9, poisoned = False\<rparr>"

lemma sample_distinct: "StoredJournal_new 9 \<noteq> sample_begun"
  by (simp add: StoredJournal_new_def sample_begun_def)

lemma sample_reads_back: "serde_reads_back sample_serde"
  using sample_distinct
  by (simp add: serde_reads_back_def sample_serde_def StoredJournal_new_def sample_begun_def split: if_splits)

lemma sample_begin:
  "apply_mutation sample_externals (BeginSession sample_session_binding) (StoredJournal_new 9) =
     Ok (True, sample_begun\<lparr>revision := 0\<rparr>)"
  "increment_revision (sample_begun\<lparr>revision := 0\<rparr>) = Ok sample_begun"
  "apply_mutation sample_externals (BeginSession sample_session_binding) sample_begun = Ok (False, sample_begun)"
  by (simp_all add: begin_session_def StoredJournal_new_def sample_begun_def increment_revision_def
      checked_add_def SessionSnapshot_binding_def SessionSnapshot_new_def sample_session_binding_def)

lemma sample_begun_ok: "journal_ok sample_externals sample_begun" "journal_inv sample_externals sample_begun"
proof -
  have guard: "mutation_guard (BeginSession sample_session_binding) (StoredJournal_new 9)"
    by (simp add: sample_session_binding_def ProtocolRange_contains_def SUPPORTED_PROTOCOL_RANGE_def
        JobIrVersionRange_supports_def JobIrVersionRange_current_def)
  from apply_mutation_ok[OF journal_ok_new sample_begin(1) this]
  show ok: "journal_ok sample_externals sample_begun" by simp
  show "journal_inv sample_externals sample_begun"
    using journal_ok_body[OF ok] by (simp add: journal_inv_def sample_begun_def)
qed

lemma sample_encode:
  "encode sample_serde sample_externals (StoredJournal_new 9) = Ok [1]"
  "encode sample_serde sample_externals sample_begun = Ok [2]"
  using sample_begun_ok(2) sample_distinct journal_ok_body[OF journal_ok_new[of sample_externals 9]]
  by (auto simp: encode_eq_Ok sample_serde_def MAX_JOURNAL_BYTES_def journal_inv_def StoredJournal_new_def)

lemma sample_quiet: "quiet_recovery (sample_env failing)" "recovery_call (sample_env failing) call = Ok ()"
  by (simp_all add: quiet_recovery_def recovery_call_def sample_env_def)

lemma sample_commit:
  "commit (sample_env None) b d = (Ok (), d\<lparr>state_file := Some b, durable_state_file := Some b,
     staging_files := filter (\<lambda>(name, _). name \<noteq> STAGING_PREFIX @ ''1-a'') (staging_files d)\<rparr>)"
  "commit (sample_env (Some SyncRoot)) b d =
     (Err \<lparr>failure_error = JournalIo ''sync state-root directory'', failure_renamed = True\<rparr>,
      d\<lparr>state_file := Some b,
        staging_files := filter (\<lambda>(name, _). name \<noteq> STAGING_PREFIX @ ''1-a'') (staging_files d)\<rparr>)"
  by (simp_all add: commit_def stage_bytes_def system_call_def inject_def sample_env_def publish_def Let_def)


theorem mutate_outcome_truthful_witness:
  "os_errors_only (sample_env (Some SyncRoot)) \<and>
   mutate_outcome (mutate_step sample_serde sample_externals (sample_env (Some SyncRoot))
     (BeginSession sample_session_binding) sample_memory sample_directory) = OutcomeUncertain \<and>
   poisoned (mutate_memory (mutate_step sample_serde sample_externals (sample_env (Some SyncRoot))
     (BeginSession sample_session_binding) sample_memory sample_directory))"
proof -
  have os: "os_errors_only (sample_env (Some SyncRoot))" by (simp add: os_errors_only_def sample_env_def)
  moreover have "mutate_outcome (mutate_step sample_serde sample_externals (sample_env (Some SyncRoot))
     (BeginSession sample_session_binding) sample_memory sample_directory) = OutcomeUncertain"
    using sample_begin sample_encode sample_commit
    by (simp add: mutate_step_def mutate_outcome_def sample_memory_def Let_def)
  ultimately show ?thesis
    using mutate_outcome_truthful[OF os, of sample_serde sample_externals "BeginSession sample_session_binding"
        sample_memory sample_directory]
    by (simp add: Let_def)
qed

lemma sample_reach:
  "reach system_init (system_step sample_serde sample_externals 9)
     \<lparr>sys_directory = sample_directory, sys_handle = Some sample_memory\<rparr>"
proof -
  let ?d = "\<lparr>state_file = None, durable_state_file = None, obsolete_state_file = False, staging_files = []\<rparr>"
  have "open_with_options sample_serde sample_externals (sample_env None) 9 ?d = (Ok sample_memory, sample_directory)"
    using sample_encode(1) sample_commit(1)[of "[1]" ?d]
    by (simp add: open_with_options_def cleanup_staging_def read_state_def sample_quiet sample_memory_def
        sample_directory_def Let_def)
  then have "system_step sample_serde sample_externals 9 \<lparr>sys_directory = ?d, sys_handle = None\<rparr>
      \<lparr>sys_directory = sample_directory, sys_handle = Some sample_memory\<rparr>"
    using step_open[of "\<lparr>sys_directory = ?d, sys_handle = None\<rparr>" sample_serde sample_externals "sample_env None" 9
        "Ok sample_memory" sample_directory] by simp
  moreover have "system_init \<lparr>sys_directory = ?d, sys_handle = None\<rparr>" by (simp add: system_init_def)
  ultimately show ?thesis by (blast intro: reach_init reach_step)
qed


section \<open>A rename that is never synchronized\<close>


end
