(* ===== verification/JournalProperties.thy ===== *)
theory JournalProperties
  imports JournalCrash
begin

text \<open>
  What the mutations of the journal promise to its clients: they keep it valid, recognise retries, refuse
  a stale fence, act on one slot only, take every command exactly once, and release a slot only when
  nothing of it is still owed.
\<close>

section \<open>Validity and retries\<close>

text \<open>C2. A mutation of a journal of the invariant, whose side conditions hold, never fails the
  validation that precedes the commit.\<close>

theorem mutations_keep_journal_valid:
  assumes "journal_ok ext j" "apply_mutation ext m j = Ok (True, c)" "mutation_guard m j"
    and "increment_revision c = Ok c'"
  shows "StoredJournal_validate ext c' = Ok ()"
proof -
  from assms(4) obtain n where c': "c' = c\<lparr>revision := n\<rparr>" "n \<noteq> 0"
    by (auto simp: increment_revision_eq_Ok) (metis Suc_neq_Zero unsigned_0)
  have "journal_body ext c" by (rule journal_ok_body[OF apply_mutation_ok[OF assms(1,2,3)]])
  then show ?thesis by (simp add: journal_validate_iff journal_inv_def c')
qed

theorem mutations_keep_journal_valid_witness:
  "StoredJournal_validate sample_externals sample_begun = Ok ()"
  using mutations_keep_journal_valid[OF journal_ok_new sample_begin(1) _ sample_begin(2)]
  by (simp add: sample_session_binding_def ProtocolRange_contains_def SUPPORTED_PROTOCOL_RANGE_def
      JobIrVersionRange_supports_def JobIrVersionRange_current_def)

text \<open>C9. Every mutation except the two releases can be retried any number of times after it was applied:
  each retry is accepted, reports no change and leaves the journal as it is.\<close>

theorem journal_retries_change_nothing:
  assumes "journal_ok ext j" "retryable m" "apply_mutation ext m j = Ok (b, j')"
  shows "apply_mutation ext m j' = Ok (False, j') \<and>
    ((\<lambda>t. case apply_mutation ext m t of Inl _ \<Rightarrow> t | Inr (_, t') \<Rightarrow> t') ^^ n) j' = j'"
  using journal_retry.retry_once[of ext j m b j'] journal_retry.retries[of ext j m b j' n] assms by simp

theorem journal_retries_change_nothing_witness:
  "apply_mutation sample_externals (BeginSession sample_session_binding) (sample_begun\<lparr>revision := 0\<rparr>) =
     Ok (False, sample_begun\<lparr>revision := 0\<rparr>)"
  using journal_retries_change_nothing[OF journal_ok_new _ sample_begin(1)] by simp

section \<open>Fencing\<close>

fun mutation_fence :: "JournalMutation \<Rightarrow> (RunnerSessionId \<times> RunnerSlotOrdinal \<times> LeaseGuard) option" where
  "mutation_fence (MutateSlot sid slot guard _) = Some (sid, slot, guard)"
| "mutation_fence (RecordCancellation sid slot guard _) = Some (sid, slot, guard)"
| "mutation_fence (ReleaseSlot sid slot guard) = Some (sid, slot, guard)"
| "mutation_fence (ReleaseRejectedLease sid slot guard _) = Some (sid, slot, guard)"
| "mutation_fence (AuthorizeOrphan grant) =
     Some (claim_session_id (grant_claim grant), claim_slot (grant_claim grant), claim_guard (grant_claim grant))"
| "mutation_fence _ = None"

lemma fenced_mutation_index:
  assumes "mutation_fence m = Some (sid, slot, g)" "apply_mutation ext m j = Ok r"
  shows "\<exists>i. fenced_index sid slot g j = Ok i"
  using assms
  by (cases m; cases r)
     (auto simp: with_slot_def record_cancellation_def release_slot_def release_rejected_offer_def
      authorize_orphan_def orphan_claim_def Let_def result_simps)

text \<open>C3. A mutation that names a session, a slot and a lease guard succeeds only if that session is the
  current one, the slot is occupied, and its lease has exactly that identity and fencing token: a stale session or
  lease is refused by every mutation.\<close>

theorem stale_fence_is_refused:
  assumes "journal_ok ext j" "mutation_fence m = Some (sid, slot, g)"
    and "\<not> (\<exists>s x. session j = Some s \<and> session_id s = sid \<and> journal_slot slot j = Some x \<and> slot_guard x = g)"
  shows "\<exists>e. apply_mutation ext m j = Err e"
proof (cases "apply_mutation ext m j")
  case (Inr r)
  then obtain i where i: "fenced_index sid slot g j = Ok i"
    using fenced_mutation_index[OF assms(2)] by blast
  then have "journal_slot slot j = Some (slots j ! i)"
    by (auto simp: fenced_index_def slot_index_def journal_slot_def result_simps split: search.splits)
  moreover obtain s where "session j = Some s" "session_id s = sid" "slot_guard (slots j ! i) = g"
    using i assms(1) by (rule fenced_index_OkE)
  ultimately show ?thesis using assms(3) by blast
qed simp

theorem stale_fence_is_refused_witness:
  "\<exists>e. apply_mutation sample_externals (ReleaseSlot 6 1 (Lease_guard (sample_lease 5 1))) sample_begun = Err e"
  using stale_fence_is_refused[OF sample_begun_ok(1), of "ReleaseSlot 6 1 (Lease_guard (sample_lease 5 1))"]
  by (simp add: sample_begun_def SessionSnapshot_new_def sample_session_binding_def)

section \<open>The slots as a map\<close>

definition slot_map :: "StoredJournal \<Rightarrow> RunnerSlotOrdinal \<rightharpoonup> SlotSnapshot" where
  "slot_map j = (\<lambda>k. journal_slot k j)"

lemma slot_map_eq_Some:
  assumes "strictly_sorted_by slot_ordinal (slots j)"
  shows "slot_map j k = Some x \<longleftrightarrow> x \<in> set (slots j) \<and> slot_ordinal x = k"
proof (cases "binary_search_by_key slot_ordinal k (slots j)")
  case (Found i)
  note i = slot_search.lookup_found[OF assms Found]
  have "y = slots j ! i" if "y \<in> set (slots j)" "slot_ordinal y = k" for y
  proof -
    from that(1) obtain n where n: "n < length (slots j)" "y = slots j ! n" by (auto simp: in_set_conv_nth)
    with that(2) slot_search.lookup_eq_Found[OF assms, of k n] Found show ?thesis by simp
  qed
  with i Found show ?thesis by (auto simp: slot_map_def journal_slot_def)
next
  case (Missing i)
  with slot_search.missing_not_member[OF assms Missing] show ?thesis
    by (auto simp: slot_map_def journal_slot_def)
qed

lemma slot_map_eqI:
  assumes "strictly_sorted_by slot_ordinal (slots j')"
    and "\<And>k x. M k = Some x \<longleftrightarrow> x \<in> set (slots j') \<and> slot_ordinal x = k"
  shows "slot_map j' = M"
proof
  fix k
  show "slot_map j' k = M k"
    using slot_map_eq_Some[OF assms(1), of k] assms(2)[of k] by (cases "slot_map j' k"; cases "M k") auto
qed

lemma slot_map_cong: "slots j' = slots j \<Longrightarrow> slot_map j' = slot_map j"
  by (rule ext) (simp add: slot_map_def journal_slot_def split: search.split)

lemma slot_map_nth:
  "strictly_sorted_by slot_ordinal (slots j) \<Longrightarrow> i < length (slots j) \<Longrightarrow>
   slot_map j (slot_ordinal (slots j ! i)) = Some (slots j ! i)"
  by (simp add: slot_map_eq_Some)

lemma sorted_ordinals_distinct:
  "strictly_sorted_by slot_ordinal (A @ x # B) \<Longrightarrow> y \<in> set A \<union> set B \<Longrightarrow> slot_ordinal y \<noteq> slot_ordinal x"
  by (auto simp: strictly_sorted_by_iff sorted_wrt_append)

lemma slot_map_update:
  assumes "strictly_sorted_by slot_ordinal (slots j)" "i < length (slots j)"
    and "slot_ordinal y = slot_ordinal (slots j ! i)" "slots j' = (slots j)[i := y]"
  shows "slot_map j' = (slot_map j)(slot_ordinal y \<mapsto> y)"
proof -
  obtain A B where AB: "slots j = A @ slots j ! i # B" "length A = i" using split_nth[OF assms(2)] by blast
  have j': "slots j' = A @ y # B" using assms(4) AB by (metis list_update_length)
  have mem: "x \<in> set (slots j) \<longleftrightarrow> x \<in> set A \<or> x = slots j ! i \<or> x \<in> set B" for x
    using arg_cong[OF AB(1), of set] by auto
  have "strictly_sorted_by slot_ordinal (A @ slots j ! i # B)" using assms(1) AB(1) by simp
  note other = sorted_ordinals_distinct[OF this]
  have "strictly_sorted_by slot_ordinal (slots j')"
    using strictly_sorted_by_update[OF assms(1,2,3)] assms(4) by simp
  then show ?thesis
    by (rule slot_map_eqI)
       (use other assms(3) in \<open>auto simp: j' slot_map_eq_Some[OF assms(1)] mem\<close>)
qed

lemma slot_map_remove:
  assumes "strictly_sorted_by slot_ordinal (slots j)" "i < length (slots j)"
    and "slots j' = remove_at i (slots j)"
  shows "slot_map j' = (slot_map j)(slot_ordinal (slots j ! i) := None)"
proof -
  obtain A B where AB: "slots j = A @ slots j ! i # B" "slots j' = A @ B"
    using remove_at_split[OF assms(2)] assms(3) by metis
  have mem: "x \<in> set (slots j) \<longleftrightarrow> x \<in> set A \<or> x = slots j ! i \<or> x \<in> set B" for x
    using arg_cong[OF AB(1), of set] by auto
  have "strictly_sorted_by slot_ordinal (A @ slots j ! i # B)" using assms(1) AB(1) by simp
  note other = sorted_ordinals_distinct[OF this]
  have "strictly_sorted_by slot_ordinal (slots j')"
    using strictly_sorted_by_remove[OF assms(1)] assms(3) by simp
  then show ?thesis
    by (rule slot_map_eqI) (use other in \<open>auto simp: AB(2) slot_map_eq_Some[OF assms(1)] mem\<close>)
qed

lemma slot_map_insert:
  assumes "strictly_sorted_by slot_ordinal (slots j)"
    and "binary_search_by_key slot_ordinal (slot_ordinal y) (slots j) = Missing i"
    and "slots j' = insert_at i y (slots j)"
  shows "slot_map j' = (slot_map j)(slot_ordinal y \<mapsto> y)"
proof -
  have "strictly_sorted_by slot_ordinal (slots j')"
    using slot_search.insert_sorted[OF assms(1,2)] assms(3) by simp
  then show ?thesis
    by (rule slot_map_eqI)
       (use slot_search.missing_not_member[OF assms(1,2)] in
         \<open>auto simp: assms(3) set_insert_at slot_map_eq_Some[OF assms(1)]\<close>)
qed

text \<open>
  The abstract journal is a map from slot ordinals to slots.  One mutation touches at most the one slot
  that it names.
\<close>

inductive slot_effect ::
  "JournalMutation \<Rightarrow> (RunnerSlotOrdinal \<rightharpoonup> SlotSnapshot) \<Rightarrow> (RunnerSlotOrdinal \<rightharpoonup> SlotSnapshot) \<Rightarrow> bool" where
  effect_none: "slot_effect m M M"
| effect_slot: "M k = Some x \<Longrightarrow> slot_guard x = g \<Longrightarrow> apply_slot sm x = Ok (b, y) \<Longrightarrow>
    slot_effect (MutateSlot sid k g sm) M (M(k \<mapsto> y))"
| effect_offer: "M (offer_slot record) = None \<Longrightarrow>
    slot_effect (RecordLeaseOffer sid record) M (M(offer_slot record \<mapsto> SlotSnapshot_from_offer record))"
| effect_cancel: "M k = Some x \<Longrightarrow> slot_guard x = g \<Longrightarrow> slot_cancel c x = Ok y \<Longrightarrow>
    slot_effect (RecordCancellation sid k g c) M (M(k \<mapsto> y))"
| effect_orphan: "M k = Some x \<Longrightarrow> k = claim_slot (grant_claim grant) \<Longrightarrow>
    slot_guard x = claim_guard (grant_claim grant) \<Longrightarrow> slot_authorize_orphan grant x = Ok (b, y) \<Longrightarrow>
    slot_effect (AuthorizeOrphan grant) M (M(k \<mapsto> y))"
| effect_release: "M k = Some x \<Longrightarrow> slot_guard x = g \<Longrightarrow> slot_releasable x = Ok () \<Longrightarrow>
    slot_effect (ReleaseSlot sid k g) M (M(k := None))"
| effect_release_rejected: "M k = Some x \<Longrightarrow> slot_guard x = g \<Longrightarrow> slot_rejection_releasable i x = Ok () \<Longrightarrow>
    slot_effect (ReleaseRejectedLease sid k g i) M (M(k := None))"
| effect_poll_offer: "completion_command completion = LeaseOffer record \<Longrightarrow>
    slot_effect (RecordLeaseOffer sid record) M M' \<Longrightarrow> slot_effect (CompleteLeasePoll sid completion) M M'"
| effect_poll_cancel: "completion_command completion = Cancellation k g c \<Longrightarrow>
    slot_effect (RecordCancellation sid k g c) M M' \<Longrightarrow> slot_effect (CompleteLeasePoll sid completion) M M'"

lemma record_offer_effect:
  assumes "journal_ok ext j" "record_offer ext sid record j = Ok (b, j')"
  shows "slot_effect (RecordLeaseOffer sid record) (slot_map j) (slot_map j')"
  using assms(2,1)
proof (cases rule: record_offer_OkE)
  case (2 s i)
  let ?x = "SlotSnapshot_from_offer record"
  note sorted = journal_ok_sorted[OF assms(1)]
  have ord: "slot_ordinal ?x = offer_slot record" by (simp add: SlotSnapshot_from_offer_def slot_ordinal_def)
  have "slot_map j' = (slot_map j)(offer_slot record \<mapsto> ?x)"
    using slot_map_insert[OF sorted, of ?x i j'] 2(9,11) ord by simp
  moreover have "slot_map j (offer_slot record) = None"
    using 2(9) by (simp add: slot_map_def journal_slot_def)
  ultimately show ?thesis by (simp add: effect_offer)
qed (simp add: effect_none)

lemma record_cancellation_effect:
  assumes "journal_ok ext j" "record_cancellation sid slot g c j = Ok (b, j')"
  shows "slot_effect (RecordCancellation sid slot g c) (slot_map j) (slot_map j')"
  using assms(2,1)
proof (cases rule: record_cancellation_OkE)
  case (2 s i y)
  note sorted = journal_ok_sorted[OF assms(1)] and y = slot_cancel_commands(2)[OF 2(8,9)]
  have "slot_map j' = (slot_map j)(slot \<mapsto> y)"
    using slot_map_update[OF sorted 2(4) y, of j'] 2(5,11) y by simp
  with slot_map_nth[OF sorted 2(4)] 2(5,6,9) show ?thesis by (auto intro: effect_cancel)
qed (simp add: effect_none)

lemma fenced_slot:
  assumes "journal_ok ext j" "fenced_index sid slot g j = Ok i"
  shows "i < length (slots j)" "slot_ordinal (slots j ! i) = slot" "slot_guard (slots j ! i) = g"
    "slot_map j slot = Some (slots j ! i)"
proof -
  obtain s where s: "i < length (slots j)" "slot_ordinal (slots j ! i) = slot" "slot_guard (slots j ! i) = g"
    using assms(2,1) by (rule fenced_index_OkE)
  then show "i < length (slots j)" "slot_ordinal (slots j ! i) = slot" "slot_guard (slots j ! i) = g" by simp_all
  show "slot_map j slot = Some (slots j ! i)"
    using slot_map_nth[OF journal_ok_sorted[OF assms(1)] s(1)] s(2) by simp
qed

lemma mutate_slot_effect:
  assumes "journal_ok ext j" "with_slot sid slot g (apply_slot m) j = Ok (b, j')"
  shows "slot_effect (MutateSlot sid slot g m) (slot_map j) (slot_map j')"
proof -
  from assms(2) obtain i y where i: "fenced_index sid slot g j = Ok i" and y: "apply_slot m (slots j ! i) = Ok (b, y)"
    and j': "slots j' = (slots j)[i := y]"
    by (auto simp: with_slot_def result_simps)
  note f = fenced_slot[OF assms(1) i]
  have ord: "slot_ordinal y = slot_ordinal (slots j ! i)"
    using apply_slot_same_offer[OF y] by (simp add: same_offer_def slot_ordinal_def)
  have j1: "slot_map j' = (slot_map j)(slot \<mapsto> y)"
    using slot_map_update[OF journal_ok_sorted[OF assms(1)] f(1) ord j'] ord f(2) by simp
  show ?thesis unfolding j1 by (rule effect_slot, rule f(4), rule f(3), rule y)
qed

lemma authorize_orphan_effect:
  assumes "journal_ok ext j" "authorize_orphan grant j = Ok (b, j')"
  shows "slot_effect (AuthorizeOrphan grant) (slot_map j) (slot_map j')"
proof -
  let ?c = "grant_claim grant"
  from assms(2) obtain i y where i: "fenced_index (claim_session_id ?c) (claim_slot ?c) (claim_guard ?c) j = Ok i"
    and y: "slot_authorize_orphan grant (slots j ! i) = Ok (b, y)" and j': "slots j' = (slots j)[i := y]"
    by (auto simp: authorize_orphan_def orphan_claim_def fenced_index_def Let_def result_simps)
  note f = fenced_slot[OF assms(1) i]
  have ord: "slot_ordinal y = slot_ordinal (slots j ! i)"
    using slot_authorize_orphan_same_offer[OF y] by (simp add: same_offer_def slot_ordinal_def)
  have j1: "slot_map j' = (slot_map j)(claim_slot ?c \<mapsto> y)"
    using slot_map_update[OF journal_ok_sorted[OF assms(1)] f(1) ord j'] ord f(2) by simp
  show ?thesis unfolding j1 by (rule effect_orphan, rule f(4), rule refl, rule f(3), rule y)
qed

lemma removed_slot_map:
  assumes "journal_ok ext j" "fenced_index sid slot g j = Ok i"
  shows "slot_map (j\<lparr>slots := remove_at i (slots j)\<rparr>) = (slot_map j)(slot := None)"
  using slot_map_remove[OF journal_ok_sorted[OF assms(1)] fenced_slot(1)[OF assms],
      of "j\<lparr>slots := remove_at i (slots j)\<rparr>"] fenced_slot(2)[OF assms] by simp

lemma release_slot_effect:
  assumes "journal_ok ext j" "release_slot sid slot g j = Ok (b, j')"
  shows "slot_effect (ReleaseSlot sid slot g) (slot_map j) (slot_map j')"
proof -
  from assms(2) obtain i where i: "fenced_index sid slot g j = Ok i" and x: "slot_releasable (slots j ! i) = Ok ()"
    and j': "j' = j\<lparr>slots := remove_at i (slots j)\<rparr>"
    by (auto simp: release_slot_def result_simps)
  show ?thesis
    unfolding j' removed_slot_map[OF assms(1) i]
    by (rule effect_release, rule fenced_slot(4)[OF assms(1) i], rule fenced_slot(3)[OF assms(1) i], rule x)
qed

lemma release_rejected_effect:
  assumes "journal_ok ext j" "release_rejected_offer sid slot g k j = Ok (b, j')"
  shows "slot_effect (ReleaseRejectedLease sid slot g k) (slot_map j) (slot_map j')"
proof -
  from assms(2) obtain i where i: "fenced_index sid slot g j = Ok i"
    and x: "slot_rejection_releasable k (slots j ! i) = Ok ()" and j': "j' = j\<lparr>slots := remove_at i (slots j)\<rparr>"
    by (auto simp: release_rejected_offer_def result_simps)
  show ?thesis
    unfolding j' removed_slot_map[OF assms(1) i]
    by (rule effect_release_rejected, rule fenced_slot(4)[OF assms(1) i], rule fenced_slot(3)[OF assms(1) i], rule x)
qed

lemma unchanged_slots_effect: "slots j' = slots j \<Longrightarrow> slot_effect m (slot_map j) (slot_map j')"
  using slot_map_cong[of j' j] by (simp add: effect_none)

lemma complete_lease_poll_effect:
  assumes "journal_ok ext j" "complete_lease_poll ext sid completion j = Ok (b, j')"
  shows "slot_effect (CompleteLeasePoll sid completion) (slot_map j) (slot_map j')"
  using assms(2)
proof (cases rule: complete_lease_poll_OkE)
  case (1 b1 j1 b2)
  note ok = advance_lease_poll_ok[OF assms(1) 1(2)]
  have same: "slot_map j1 = slot_map j"
    using 1(2) by (rule advance_lease_poll_OkE) (auto intro!: slot_map_cong)
  show ?thesis
  proof (cases "completion_command completion")
    case (Ignored c rs)
    with 1(3) have "slots j' = slots j1" by (auto elim!: commit_command_OkE)
    then show ?thesis using slot_map_cong[of j' j1] same by (simp add: effect_none)
  next
    case (LeaseOffer rec)
    with 1(3) record_offer_effect[OF ok] same show ?thesis by (auto intro: effect_poll_offer)
  next
    case (Cancellation k g c)
    with 1(3) record_cancellation_effect[OF ok] same show ?thesis by (auto intro: effect_poll_cancel)
  qed (use 1(3) same in \<open>auto simp: result_simps effect_none\<close>)
qed

lemma session_effects:
  "begin_session bd j = Ok (b, j') \<Longrightarrow> slot_effect (BeginSession bd) (slot_map j) (slot_map j')"
  "prepare_lease_poll sid slot i j = Ok (b, j') \<Longrightarrow>
     slot_effect (PrepareLeasePoll sid slot i) (slot_map j) (slot_map j')"
  "acknowledge_lease_authority_receipts sid slot rs j = Ok (b, j') \<Longrightarrow>
     slot_effect (AcknowledgeLeaseAuthorityReceipts sid slot rs) (slot_map j) (slot_map j')"
  "commit_command sid c d j = Ok (b, j') \<Longrightarrow>
     slot_effect (RecordCommandDisposition sid c d) (slot_map j) (slot_map j')"
  by (rule unchanged_slots_effect,
      auto simp: begin_session_def elim!: prepare_lease_poll_OkE acknowledge_receipts_OkE commit_command_OkE
        split: option.splits if_splits)+

text \<open>C8. The journal with its sorted vector of slots implements a map from slot ordinals to slots: every
  successful mutation has the effect on the map that the abstract journal gives it, and so leaves every slot that it does
  not name as it was.\<close>

theorem mutations_refine_slot_map:
  assumes "journal_ok ext j" "apply_mutation ext m j = Ok (b, j')"
  shows "slot_effect m (slot_map j) (slot_map j')"
  using assms(2)
  by (cases m) (simp_all, (erule session_effects record_offer_effect[OF assms(1)]
    record_cancellation_effect[OF assms(1)] mutate_slot_effect[OF assms(1)]
    authorize_orphan_effect[OF assms(1)] release_slot_effect[OF assms(1)] release_rejected_effect[OF assms(1)]
    complete_lease_poll_effect[OF assms(1)])+)

end
