(* ===== verification/JournalDelivery.thy ===== *)
theory JournalDelivery
  imports JournalProperties
begin

text \<open>
  Commands and deliveries over the life of a journal: which commands the replay window holds and how a command is
  answered, when a slot may be released, and what the oldest pending deliveries are.
\<close>

section \<open>Runs of mutations\<close>

definition journal_step :: "externals \<Rightarrow> StoredJournal \<Rightarrow> StoredJournal \<Rightarrow> bool" where
  "journal_step ext j j' \<longleftrightarrow>
     (\<exists>m b. typed_mutation m \<and> apply_mutation ext m j = Ok (b, j') \<and> journal_body ext j')"

definition journal_init :: "StoredJournal \<Rightarrow> bool" where
  "journal_init j \<longleftrightarrow> (\<exists>r. j = StoredJournal_new r)"

text \<open>The window holds the newest commands without a gap: as many as it may, up to the cursor.\<close>

definition window_ok :: "SessionSnapshot \<Rightarrow> bool" where
  "window_ok s \<longleftrightarrow>
     (let p = cursor_position (command_cursor s); n = min p MAX_COMMAND_TOMBSTONES in
      map (unat \<circ> tombstone_sequence) (command_tombstones s) = [Suc p - n..<Suc p])"

definition commands_ok :: "StoredJournal \<Rightarrow> bool" where
  "commands_ok j \<longleftrightarrow> (\<forall>s. session j = Some s \<longrightarrow> window_ok s)"

lemma window_length:
  assumes "window_ok s"
  shows "length (command_tombstones s) = min (cursor_position (command_cursor s)) MAX_COMMAND_TOMBSTONES"
proof -
  let ?p = "cursor_position (command_cursor s)"
  have "length (map (unat \<circ> tombstone_sequence) (command_tombstones s)) =
      length [Suc ?p - min ?p MAX_COMMAND_TOMBSTONES..<Suc ?p]"
    using assms by (simp only: window_ok_def Let_def)
  then show ?thesis by (simp del: upt_Suc)
qed

lemma upt_slide: "a \<le> b \<Longrightarrow> tl [a..<Suc b] @ [Suc b] = [Suc a..<Suc (Suc b)]"
  by (induction b) (auto simp: upt_conv_Cons)

lemma committed_window:
  assumes "window_ok s" "command_cursor_ok (command_cursor s)"
    and "CommandCursor_advance (command_cursor s) (command_sequence c) =
       Ok (CommandCursor_through (command_sequence c))"
  shows "window_ok (committed c d s)"
proof -
  let ?p = "cursor_position (command_cursor s)" and ?M = MAX_COMMAND_TOMBSTONES
  let ?f = "unat \<circ> tombstone_sequence" and ?t = "\<lparr>tombstone_command = c, tombstone_disposition = d\<rparr>"
  have seq: "unat (command_sequence c) = Suc ?p"
    using assms(2,3) by (simp add: CommandCursor_advance_eq_Ok)
  have pos: "cursor_position (command_cursor (committed c d s)) = Suc ?p"
    using seq by (simp add: cursor_position_def)
  have w: "map ?f (command_tombstones s) = [Suc ?p - min ?p ?M..<Suc ?p]" using assms(1) by (simp add: window_ok_def Let_def)
  have len: "length (command_tombstones s) = min ?p ?M" by (rule window_length[OF assms(1)])
  have t: "?f ?t = Suc ?p" using seq by (simp add: tombstone_sequence_def)
  have M: "0 < ?M" by (simp add: MAX_COMMAND_TOMBSTONES_def)
  have "map ?f (push_tombstone ?t (command_tombstones s)) = [Suc (Suc ?p) - min (Suc ?p) ?M..<Suc (Suc ?p)]"
  proof (cases "?M \<le> ?p")
    case True
    then have "map ?f (push_tombstone ?t (command_tombstones s)) = tl [Suc ?p - ?M..<Suc ?p] @ [Suc ?p]"
      using len w t by (simp add: push_tombstone_eq map_tl)
    also have "\<dots> = [Suc (Suc ?p - ?M)..<Suc (Suc ?p)]"
      using upt_slide[of "Suc ?p - ?M" ?p] M by simp
    finally show ?thesis using True by (simp add: Suc_diff_le)
  next
    case False
    then show ?thesis using len w t by (simp add: push_tombstone_eq min_def)
  qed
  then show ?thesis unfolding window_ok_def pos Let_def by (simp add: committed_def)
qed

lemma window_ok_checkpoints [simp]: "window_ok (s\<lparr>lease_poll_checkpoints := cs\<rparr>) = window_ok s"
  by (simp add: window_ok_def)

lemma commands_ok_cong: "session j' = session j \<Longrightarrow> commands_ok j \<Longrightarrow> commands_ok j'"
  by (simp add: commands_ok_def)

lemma commit_command_window:
  assumes "journal_ok ext j" "commands_ok j" "commit_command sid c d j = Ok (b, j')"
  shows "commands_ok j'"
  using assms(3)
proof (cases rule: commit_command_OkE)
  case (2 s)
  have "command_cursor_ok (command_cursor s)" using journal_ok_session[OF assms(1) 2(1)] by (simp add: session_ok_def)
  with 2 assms(2) show ?thesis by (simp add: commands_ok_def committed_window)
qed (use assms(2) in simp)

lemma record_offer_window:
  assumes "journal_ok ext j" "commands_ok j" "record_offer ext sid record j = Ok (b, j')"
  shows "commands_ok j'"
  using assms(3,1)
proof (cases rule: record_offer_OkE)
  case (2 s i)
  from commit_command_window[OF assms(1,2) 2(10)] show ?thesis
    by (rule commands_ok_cong[rotated]) (simp add: 2(11))
qed (use assms(2) in simp)

lemma record_cancellation_window:
  assumes "journal_ok ext j" "commands_ok j" "record_cancellation sid slot g c j = Ok (b, j')"
  shows "commands_ok j'"
  using assms(3,1)
proof (cases rule: record_cancellation_OkE)
  case (2 s i y)
  from commit_command_window[OF assms(1,2) 2(10)] show ?thesis
    by (rule commands_ok_cong[rotated]) (simp add: 2(11))
qed (use assms(2) in simp)

lemma advance_lease_poll_window:
  assumes "commands_ok j" "advance_lease_poll sid slot e n rs j = Ok (b, j')"
  shows "commands_ok j'"
  using assms(2) by (rule advance_lease_poll_OkE) (use assms(1) in \<open>simp_all add: commands_ok_def\<close>)

lemma complete_lease_poll_window:
  assumes "journal_ok ext j" "commands_ok j" "complete_lease_poll ext sid completion j = Ok (b, j')"
  shows "commands_ok j'"
  using assms(3)
proof (cases rule: complete_lease_poll_OkE)
  case (1 b1 j1 b2)
  note ok = advance_lease_poll_ok[OF assms(1) 1(2)] advance_lease_poll_window[OF assms(2) 1(2)]
  show ?thesis
    using 1(3) ok by (cases "completion_command completion")
      (auto simp: result_simps dest: commit_command_window record_offer_window record_cancellation_window)
qed

lemma window_other:
  assumes "commands_ok j"
  shows "begin_session bd j = Ok (b, j') \<Longrightarrow> commands_ok j'"
    and "prepare_lease_poll sid slot i j = Ok (b, j') \<Longrightarrow> commands_ok j'"
    and "acknowledge_lease_authority_receipts sid slot rs j = Ok (b, j') \<Longrightarrow> commands_ok j'"
    and "with_slot sid slot g f j = Ok (b, j') \<Longrightarrow> commands_ok j'"
    and "authorize_orphan grant j = Ok (b, j') \<Longrightarrow> commands_ok j'"
    and "release_slot sid slot g j = Ok (b, j') \<Longrightarrow> commands_ok j'"
    and "release_rejected_offer sid slot g i j = Ok (b, j') \<Longrightarrow> commands_ok j'"
proof -
  have "window_ok (SessionSnapshot_new bd)"
    by (simp add: window_ok_def SessionSnapshot_new_def CommandCursor_initial_def cursor_position_def)
  then show "begin_session bd j = Ok (b, j') \<Longrightarrow> commands_ok j'"
    using assms by (auto simp: begin_session_def commands_ok_def split: option.splits if_splits)
  show "prepare_lease_poll sid slot i j = Ok (b, j') \<Longrightarrow> commands_ok j'"
    by (erule prepare_lease_poll_OkE) (use assms in \<open>simp_all add: commands_ok_def\<close>)
  show "acknowledge_lease_authority_receipts sid slot rs j = Ok (b, j') \<Longrightarrow> commands_ok j'"
    by (erule acknowledge_receipts_OkE) (use assms in \<open>simp_all add: commands_ok_def\<close>)
qed (use assms in \<open>auto simp: with_slot_def authorize_orphan_def release_slot_def release_rejected_offer_def
    commands_ok_def Let_def result_simps\<close>)

lemma apply_mutation_window:
  assumes "journal_ok ext j" "commands_ok j" "apply_mutation ext m j = Ok (b, j')"
  shows "commands_ok j'"
  using assms(3)
  by (cases m) (simp_all, (erule window_other[OF assms(2)] commit_command_window[OF assms(1,2)]
    record_offer_window[OF assms(1,2)] record_cancellation_window[OF assms(1,2)]
    complete_lease_poll_window[OF assms(1,2)])+)

lemma validated_step_ok:
  assumes "journal_ok ext j" "apply_mutation ext m j = Ok (b, j')" "typed_mutation m" "journal_body ext j'"
  shows "journal_ok ext j'"
proof (cases b)
  case True
  with assms show ?thesis by (auto intro: validated_mutation_ok)
next
  case False
  then show ?thesis
    using journal_retry.unchanged[of ext j m j'] assms
    by (cases "retryable m") (auto simp: release_slot_def release_rejected_offer_def result_simps elim!: retryable.elims)
qed

interpretation journal_run:
  inductive_invariant journal_init "journal_step ext" "\<lambda>j. journal_ok ext j \<and> commands_ok j" for ext
proof
  show "journal_init j \<Longrightarrow> journal_ok ext j \<and> commands_ok j" for j
    by (auto simp: journal_init_def journal_ok_new) (simp add: commands_ok_def StoredJournal_new_def)
  show "journal_ok ext j \<and> commands_ok j \<Longrightarrow> journal_step ext j j' \<Longrightarrow> journal_ok ext j' \<and> commands_ok j'" for j j'
    by (auto simp: journal_step_def intro: validated_step_ok apply_mutation_window)
qed

section \<open>Every command exactly once\<close>

lemma window_tombstone:
  assumes "window_ok s" "n \<le> cursor_position (command_cursor s)"
    and "cursor_position (command_cursor s) < n + MAX_COMMAND_TOMBSTONES" "0 < n"
  obtains t where "t \<in> set (command_tombstones s)" "unat (tombstone_sequence t) = n"
proof -
  let ?p = "cursor_position (command_cursor s)"
  have "n \<in> set [Suc ?p - min ?p MAX_COMMAND_TOMBSTONES..<Suc ?p]"
    using assms(2-4) by (auto simp: min_def)
  also have "\<dots> = (unat \<circ> tombstone_sequence) ` set (command_tombstones s)"
    using assms(1) unfolding window_ok_def Let_def by (metis list.set_map)
  finally show ?thesis using that by auto
qed

lemma no_old_tombstone:
  assumes "window_ok s" "n + MAX_COMMAND_TOMBSTONES \<le> cursor_position (command_cursor s)"
    and "t \<in> set (command_tombstones s)"
  shows "unat (tombstone_sequence t) \<noteq> n"
proof -
  let ?p = "cursor_position (command_cursor s)"
  have "unat (tombstone_sequence t) \<in> set (map (unat \<circ> tombstone_sequence) (command_tombstones s))"
    using assms(3) by simp
  also have "\<dots> = set [Suc ?p - min ?p MAX_COMMAND_TOMBSTONES..<Suc ?p]"
    using assms(1) by (simp only: window_ok_def Let_def)
  finally show ?thesis
    using assms(2) by (auto simp del: upt_Suc simp: min_def MAX_COMMAND_TOMBSTONES_def split: if_splits)
qed

lemma replay_position:
  assumes "command_cursor_ok cur"
  shows "(case acknowledged_through cur of Some k \<Rightarrow> n \<le> k | None \<Rightarrow> False) \<longleftrightarrow>
    acknowledged_through cur \<noteq> None \<and> unat n \<le> cursor_position cur"
  by (auto simp: cursor_position_def word_le_nat_alt split: option.splits)

lemma expected_sequence_eq_Ok:
  assumes "command_cursor_ok cur"
  shows "expected_sequence cur = Ok n \<longleftrightarrow> unat n = cursor_position cur + 1 \<and> n \<le> CommandSequence_MAX"
  using assms
  by (auto simp: expected_sequence_def cursor_position_def command_cursor_ok_def result_simps
      CommandSequence_checked_next_eq_Ok CommandSequence_new_def CommandSequence_MAX_def unat_eqI
      split: option.splits)

text \<open>A command beyond the cursor is taken exactly if it is the next one.\<close>

lemma command_beyond_cursor:
  assumes "command_cursor_ok (command_cursor s)" "session j = Some s"
    and "cursor_position (command_cursor s) < unat (command_sequence c)" "\<not> command_is_used c j"
  shows "if unat (command_sequence c) = cursor_position (command_cursor s) + 1 \<and>
        command_sequence c \<le> CommandSequence_MAX
      then \<exists>j' s'. commit_command (session_id s) c d j = Ok (True, j') \<and> session j' = Some s' \<and>
             cursor_position (command_cursor s') = unat (command_sequence c) \<and> slots j' = slots j
      else \<exists>e. commit_command (session_id s) c d j = Err e"
proof -
  let ?next = "unat (command_sequence c) = cursor_position (command_cursor s) + 1 \<and>
        command_sequence c \<le> CommandSequence_MAX"
  note unfold = commit_command_def require_session_def replay_position[OF assms(1)]
  show ?thesis
  proof (cases ?next)
    case True
    then have "expected_sequence (command_cursor s) = Ok (command_sequence c)"
      "CommandCursor_advance (command_cursor s) (command_sequence c) =
         Ok (CommandCursor_through (command_sequence c))"
      using assms(1) by (simp_all add: expected_sequence_eq_Ok CommandCursor_advance_eq_Ok)
    with True assms show ?thesis
      by (simp add: unfold) (simp add: cursor_position_def CommandCursor_through_def)
  next
    case False
    with assms(1) have "expected_sequence (command_cursor s) \<noteq> Ok (command_sequence c)"
      by (auto simp: expected_sequence_eq_Ok)
    then have "\<not> is_ok (commit_command (session_id s) c d j)"
      using assms(2-4) by (auto simp: unfold is_ok_iff result_simps)
    then show ?thesis using False by (cases "commit_command (session_id s) c d j") auto
  qed
qed

text \<open>C4. In every journal that mutations can reach, the session answers the command with sequence number
  \<open>n\<close> from its cursor position \<open>p\<close> alone.  The last 256 commands are recognised: the recorded command with its recorded
  disposition is a no-op, anything else under its number a conflict.  Older numbers are outside the window.  The number
  after the cursor is taken once and moves the cursor by one, unless its operation was used before.\<close>

theorem commands_are_taken_once:
  assumes "reach journal_init (journal_step ext) j" "session j = Some s" "command_sequence c \<noteq> 0"
  shows "let p = cursor_position (command_cursor s); n = unat (command_sequence c);
             answer = commit_command (session_id s) c d j in
    (n + MAX_COMMAND_TOMBSTONES \<le> p \<longrightarrow> answer = Err CommandReplayOutsideWindow) \<and>
    (n \<le> p \<and> p < n + MAX_COMMAND_TOMBSTONES \<longrightarrow>
       (\<exists>t \<in> set (command_tombstones s). tombstone_sequence t = command_sequence c \<and>
          answer = (if tombstone_command t = c \<and> tombstone_disposition t = d
                    then Ok (False, j) else Err CommandReplayConflict))) \<and>
    (p < n \<and> \<not> command_is_used c j \<longrightarrow>
       (if n = p + 1 \<and> command_sequence c \<le> CommandSequence_MAX
        then \<exists>j' s'. answer = Ok (True, j') \<and> session j' = Some s' \<and>
               cursor_position (command_cursor s') = n \<and> slots j' = slots j
        else \<exists>e. answer = Err e))"
proof -
  let ?p = "cursor_position (command_cursor s)" and ?n = "unat (command_sequence c)"
  let ?answer = "commit_command (session_id s) c d j"
  have inv: "journal_ok ext j" "window_ok s"
    using journal_run.reach_inv[OF assms(1)] assms(2) by (auto simp: commands_ok_def)
  have ok: "session_ok s" "command_cursor_ok (command_cursor s)"
    using journal_ok_session[OF inv(1) assms(2)] by (simp_all add: session_ok_def)
  have n0: "0 < ?n" using assms(3) by (simp add: unat_gt_0)
  have some: "?n \<le> ?p \<Longrightarrow> acknowledged_through (command_cursor s) \<noteq> None"
    using n0 by (auto simp: cursor_position_def split: option.splits)
  note unfold = commit_command_def require_session_def assms(2) replay_position[OF ok(2)]
  have old: "?n + MAX_COMMAND_TOMBSTONES \<le> ?p \<Longrightarrow> ?answer = Err CommandReplayOutsideWindow"
  proof -
    assume old: "?n + MAX_COMMAND_TOMBSTONES \<le> ?p"
    have "find (\<lambda>t. command_sequence (tombstone_command t) = command_sequence c) (command_tombstones s) = None"
      using no_old_tombstone[OF inv(2) old] by (force simp: find_None_iff tombstone_sequence_def)
    then show ?thesis using old some by (simp add: unfold)
  qed
  have recent: "?n \<le> ?p \<Longrightarrow> ?p < ?n + MAX_COMMAND_TOMBSTONES \<Longrightarrow>
      \<exists>t \<in> set (command_tombstones s). tombstone_sequence t = command_sequence c \<and>
        ?answer = (if tombstone_command t = c \<and> tombstone_disposition t = d
                   then Ok (False, j) else Err CommandReplayConflict)"
  proof -
    assume n: "?n \<le> ?p" "?p < ?n + MAX_COMMAND_TOMBSTONES"
    obtain t where t: "t \<in> set (command_tombstones s)" "unat (tombstone_sequence t) = ?n"
      using window_tombstone[OF inv(2) n n0] .
    then have seq: "tombstone_sequence t = command_sequence c" by (simp add: unat_eqI)
    with find_sequence[OF ok(1) t(1)] n some t(1) show ?thesis
      by (intro bexI[of _ t]) (simp_all add: unfold tombstone_sequence_def)
  qed
  have beyond: "?p < ?n \<Longrightarrow> \<not> command_is_used c j \<Longrightarrow>
      if ?n = ?p + 1 \<and> command_sequence c \<le> CommandSequence_MAX
      then \<exists>j' s'. ?answer = Ok (True, j') \<and> session j' = Some s' \<and>
             cursor_position (command_cursor s') = ?n \<and> slots j' = slots j
      else \<exists>e. ?answer = Err e"
    by (rule command_beyond_cursor[OF ok(2) assms(2)])
  show ?thesis
    unfolding Let_def by (intro conjI impI; (elim conjE)?; rule old recent beyond; assumption)
qed

section \<open>A concrete offer\<close>

lemma search_small:
  "binary_search_by_key key k [] = Missing 0"
  "binary_search_by_key key k [x] = (if key x = k then Found 0 else if key x < k then Missing 1 else Missing 0)"
  by (simp_all add: binary_search_by_key_def bisect.simps[of _ _ _ 0] bisect.simps[of _ _ _ "Suc 0"])

definition sample_command :: "u64 \<Rightarrow> DurableCommand" where
  "sample_command n = \<lparr>command_sequence = n, command_operation_id = ucast n, command_digest = []\<rparr>"

definition sample_offer :: LeaseOfferRecord where
  "sample_offer =
     \<lparr>offer_slot = 1, offer_lease = sample_lease 5 1,
      offer_job_ir = \<lparr>job_ir_version = JobIrVersion_current,
        job_ir_content = (sample_content 10)\<lparr>content_kind := KJobIr\<rparr>\<rparr>,
      managed_secret_bindings = None, offer_command = sample_command 1\<rparr>"

lemma sample_offer_valid: "LeaseOfferRecord_validate ext sample_offer = Ok ()"
  by (simp add: LeaseOfferRecord_validate_def sample_offer_def Lease_validate_def sample_lease_def
      CORE_SCHEMA_VERSION_def JobIrContentRef_validate_def sample_content_def accounted_bytes_def
      MAX_JOB_IR_CONTENT_BYTES_def)

definition sample_leased :: StoredJournal where
  "sample_leased = sample_begun\<lparr>session := Some (committed (sample_command 1) CommandApplied
       (SessionSnapshot_new sample_session_binding)), slots := [SlotSnapshot_from_offer sample_offer]\<rparr>"

lemma sample_record_offer_at:
  "apply_mutation sample_externals (RecordLeaseOffer 5 sample_offer) (sample_begun\<lparr>revision := n\<rparr>) =
     Ok (True, sample_leased\<lparr>revision := n\<rparr>)"
  by (simp add: record_offer_def sample_offer_valid)
     (simp add: sample_offer_def sample_begun_def sample_leased_def require_session_def
      SessionSnapshot_new_def SessionSnapshot_binding_def sample_session_binding_def sample_lease_def
      StoredJournal_new_def MAX_JOURNALED_SLOTS_def search_small
      commit_command_def CommandCursor_initial_def command_is_used_def expected_sequence_def
      CommandSequence_new_def CommandSequence_MAX_def sample_command_def CommandCursor_advance_def
      committed_def insert_at_def Let_def)

lemma sample_record_offer:
  "apply_mutation sample_externals (RecordLeaseOffer 5 sample_offer) sample_begun = Ok (True, sample_leased)"
proof -
  have "sample_begun\<lparr>revision := 1\<rparr> = sample_begun" "sample_leased\<lparr>revision := 1\<rparr> = sample_leased"
    by (simp_all add: sample_begun_def sample_leased_def StoredJournal_new_def)
  with sample_record_offer_at[of 1] show ?thesis by (simp del: apply_mutation.simps)
qed

lemma sample_leased_ok: "journal_ok sample_externals sample_leased"
  by (rule apply_mutation_ok[OF sample_begun_ok(1) sample_record_offer]) simp

lemma sample_leased_reach: "reach journal_init (journal_step sample_externals) (sample_leased\<lparr>revision := 0\<rparr>)"
proof -
  have "reach journal_init (journal_step sample_externals) (StoredJournal_new 9)"
    by (rule reach_init) (auto simp: journal_init_def)
  moreover have "journal_step sample_externals (StoredJournal_new 9) (sample_begun\<lparr>revision := 0\<rparr>)"
    using sample_begin(1) journal_ok_body[OF sample_begun_ok(1)]
    by (auto simp: journal_step_def intro!: exI[of _ "BeginSession sample_session_binding"])
  moreover have "journal_step sample_externals (sample_begun\<lparr>revision := 0\<rparr>) (sample_leased\<lparr>revision := 0\<rparr>)"
    using journal_ok_body[OF sample_leased_ok] sample_record_offer_at[of 0]
    by (auto simp: journal_step_def intro!: exI[of _ "RecordLeaseOffer 5 sample_offer"])
  ultimately show ?thesis by (blast intro: reach_step)
qed

theorem commands_are_taken_once_witness:
  "commit_command 5 (sample_command 1) CommandApplied (sample_leased\<lparr>revision := 0\<rparr>) =
     Ok (False, sample_leased\<lparr>revision := 0\<rparr>)"
  using commands_are_taken_once[OF sample_leased_reach, of _ "sample_command 1" CommandApplied]
  by (simp add: sample_leased_def committed_def SessionSnapshot_new_def sample_session_binding_def
      sample_command_def CommandCursor_through_def cursor_position_def push_tombstone_eq
      MAX_COMMAND_TOMBSTONES_def CommandCursor_initial_def tombstone_sequence_def)

theorem mutations_refine_slot_map_witness:
  "slot_effect (RecordLeaseOffer 5 sample_offer) (slot_map sample_begun) (slot_map sample_leased) \<and>
   slot_map sample_leased 1 = Some (SlotSnapshot_from_offer sample_offer)"
proof
  show "slot_effect (RecordLeaseOffer 5 sample_offer) (slot_map sample_begun) (slot_map sample_leased)"
    by (rule mutations_refine_slot_map[OF sample_begun_ok(1) sample_record_offer])
  show "slot_map sample_leased 1 = Some (SlotSnapshot_from_offer sample_offer)"
    by (simp add: slot_map_def journal_slot_def sample_leased_def search_small
        slot_ordinal_def SlotSnapshot_from_offer_def sample_offer_def)
qed

section \<open>Releasing a slot\<close>

lemma releasable_owes_nothing:
  assumes "slot_ok ext r v ver x" "slot_releasable x = Ok ()"
  shows "is_terminal (slot_lifecycle x) \<and> sandbox x = None \<and> endpoint_recovery_pending x = None \<and>
    owed_terminal_result x = None \<and> owed_lease_rejection x = None \<and> owed_log_stream x = None"
proof -
  from assms(2) have rel: "is_terminal (slot_lifecycle x)" "sandbox x = None"
    "\<not> list_ex is_recovery_pending (endpoint_operations x)"
    "(case log_delivery x of None \<Rightarrow> True | Some log \<Rightarrow> is_fully_delivered log) \<or>
       orphan_abandoned LogStream (orphan x)"
    "offer_status x = OfferAccepted \<longrightarrow>
       (case terminal_result x of None \<Rightarrow> False | Some result \<Rightarrow> terminal_acknowledged result) \<or>
       orphan x \<noteq> None \<and> (orphan_abandoned TerminalResult (orphan x) \<or> terminal_result x = None)"
    "case rejection x of None \<Rightarrow> True | Some record \<Rightarrow> response_acknowledged record \<or>
       orphan_abandoned LeaseRejection (orphan x)"
    unfolding slot_releasable_def by (auto simp: result_simps)
  have "terminal_result x \<noteq> None \<Longrightarrow> offer_status x = OfferAccepted"
    using assms(1) by (auto simp: slot_ok_parts result_ok_def)
  with rel(5) have "owed_terminal_result x = None"
    by (auto simp: owed_terminal_result_def split: option.splits)
  moreover have "owed_lease_rejection x = None"
    using rel(6) by (auto simp: owed_lease_rejection_def split: option.splits)
  moreover have "owed_log_stream x = None"
    using rel(4) by (auto simp: owed_log_stream_def split: option.splits)
  moreover have "endpoint_recovery_pending x = None"
    using rel(3) by (auto simp: endpoint_recovery_pending_def last_pending_def last_opt_def list_ex_iff)
  ultimately show ?thesis using rel(1,2) by simp
qed

text \<open>C12. A slot that is released is gone, every other slot stays, and nothing of the released one is lost:
  its attempt is terminal, it has no sandbox and no endpoint operation to recover, and no terminal result,
  rejection or log segment of it is still owed to the server.\<close>

theorem release_loses_nothing:
  assumes "journal_ok ext j" "release_slot sid slot g j = Ok (b, j')"
  shows "\<exists>x. slot_map j slot = Some x \<and> slot_map j' = (slot_map j)(slot := None) \<and>
    is_terminal (slot_lifecycle x) \<and> sandbox x = None \<and> endpoint_recovery_pending x = None \<and>
    owed_terminal_result x = None \<and> owed_lease_rejection x = None \<and> owed_log_stream x = None"
proof -
  from assms(2) obtain i where i: "fenced_index sid slot g j = Ok i" and x: "slot_releasable (slots j ! i) = Ok ()"
    and j': "j' = j\<lparr>slots := remove_at i (slots j)\<rparr>"
    by (auto simp: release_slot_def result_simps)
  obtain s where "slots_ok ext (runner_id j) s (slots j)" "i < length (slots j)"
    using i assms(1) by (rule fenced_index_OkE)
  from releasable_owes_nothing[OF slots_ok_nth[OF this] x] fenced_slot(4)[OF assms(1) i]
    removed_slot_map[OF assms(1) i]
  show ?thesis by (auto simp: j')
qed

section \<open>The oldest pending deliveries\<close>

definition oldest :: "UnixMillis option list \<Rightarrow> UnixMillis option" where
  "oldest xs = (let owed = List.map_filter id xs in if owed = [] then None else Some (Min (set owed)))"

lemma include_owed_simps:
  "include_owed None current = current" "include_owed (Some a) None = Some a"
  "include_owed (Some a) (Some b) = Some (min a b)"
  by (simp_all add: include_owed_def include_oldest_def min_def)

lemma include_owed_fold:
  "foldl (\<lambda>current owed. include_owed owed current) start xs = oldest (start # xs)"
proof (induction xs arbitrary: start)
  case Nil
  then show ?case by (cases start) (simp_all add: oldest_def List.map_filter_def)
next
  case (Cons x xs)
  have "oldest (include_owed x start # xs) = oldest (start # x # xs)"
    by (cases x; cases start; cases "List.map_filter id xs")
       (simp_all add: oldest_def include_owed_simps List.map_filter_simps min.left_commute min.commute
        min.assoc)
  with Cons show ?case by simp
qed

lemma pending_fold:
  "foldl (\<lambda>timestamps slot.
       \<lparr>pending_terminal_result = include_owed (f slot) (pending_terminal_result timestamps),
        pending_lease_rejection = include_owed (g slot) (pending_lease_rejection timestamps),
        pending_log_stream = include_owed (h slot) (pending_log_stream timestamps)\<rparr>)
     \<lparr>pending_terminal_result = a, pending_lease_rejection = b, pending_log_stream = c\<rparr> ss =
   \<lparr>pending_terminal_result = foldl (\<lambda>current owed. include_owed owed current) a (map f ss),
    pending_lease_rejection = foldl (\<lambda>current owed. include_owed owed current) b (map g ss),
    pending_log_stream = foldl (\<lambda>current owed. include_owed owed current) c (map h ss)\<rparr>"
  by (induction ss arbitrary: a b c) simp_all

lemma oldest_None [simp]: "oldest (None # xs) = oldest xs"
  by (simp add: oldest_def List.map_filter_def)

text \<open>The aggregated pending-delivery timestamps are, for each kind of delivery, the least
  enqueue time among the slots that still owe one, and absent exactly if no slot does.\<close>

theorem pending_timestamps_are_oldest:
  "pending_delivery_timestamps j =
     \<lparr>pending_terminal_result = oldest (map owed_terminal_result (slots j)),
      pending_lease_rejection = oldest (map owed_lease_rejection (slots j)),
      pending_log_stream = oldest (map owed_log_stream (slots j))\<rparr>"
  by (simp add: pending_delivery_timestamps_def pending_fold include_owed_fold)

section \<open>Results of endpoint operations on an orphaned slot\<close>

text \<open>
  An orphaned slot that is not terminal waits for its last endpoint operation.  Cancelling or abandoning that
  operation ends the attempt; recording its result does not, so the slot it leaves never passes validation.
\<close>

lemma orphan_waits:
  assumes "slot_ok ext r v ver s" "orphan s = Some orph" "\<not> is_terminal (slot_lifecycle s)"
  shows "last_pending (endpoint_operations s) \<noteq> None"
  using assms by (auto simp: slot_ok_parts orphan_ok_def)

lemma recorded_result_not_pending:
  "record_result result op = Ok (True, op') \<Longrightarrow> is_recovery_pending op \<and> \<not> is_recovery_pending op'"
  by (auto simp: record_result_def result_simps is_recovery_pending_def split: EndpointOperationState.splits if_splits)

text \<open>C13. On an orphaned slot, recording a result that the endpoint operation accepts always yields a slot
  that the validation before the commit rejects.\<close>

theorem orphan_endpoint_result_is_rejected:
  assumes "slot_ok ext r v ver s" "orphan s = Some orph"
    and "slot_record_endpoint_result i result s = Ok (True, s')"
  shows "SlotSnapshot_validate ext r v ver s' \<noteq> Ok ()"
proof -
  from assms(3) obtain ops where ops: "update_endpoint i (record_result result) (endpoint_operations s) = Ok (True, ops)"
    and s': "s' = s\<lparr>endpoint_operations := ops\<rparr>"
    by (auto simp: slot_record_endpoint_result_def result_simps)
  from ops obtain xs op ys op' where split: "endpoint_operations s = xs @ op # ys" "ops = xs @ op' # ys"
    and op: "record_result result op = Ok (True, op')"
    by (rule update_endpoint_OkE)
  note pending = recorded_result_not_pending[OF op]
  have eps: "endpoints_ok (offer_status s) (slot_lifecycle s) (xs @ op # ys)"
    using assms(1) split(1) by (simp add: slot_ok_parts)
  have "ys = []"
  proof (rule ccontr)
    assume "ys \<noteq> []"
    then have "op \<in> set (butlast (xs @ op # ys))" by (simp add: butlast_append)
    with eps pending show False by (auto simp: endpoints_ok_def)
  qed
  then have "last_pending (xs @ op # ys) \<noteq> None" "last_pending ops = None"
    using pending split(2) by simp_all
  moreover from this(1) eps have "\<not> is_terminal (slot_lifecycle s)" by (auto simp: endpoints_ok_def)
  ultimately have "\<not> slot_inv ext r v ver s'"
    using assms(2) by (auto simp: slot_inv_def orphan_ok_def s')
  then show ?thesis by (simp add: slot_validate_iff)
qed

definition sample_orphan_slot :: SlotSnapshot where
  "sample_orphan_slot = (SlotSnapshot_from_offer sample_offer)\<lparr>offer_status := OfferAccepted,
     slot_lifecycle := Running, endpoint_operations := [sample_endpoint InvocationCommitted],
     orphan := Some (OrphanRecord_from_grant
       \<lparr>grant_claim = \<lparr>claim_runner_id = 9, claim_session_id = 5, claim_slot = 1,
          claim_guard = Lease_guard (sample_lease 5 1)\<rparr>,
        grant_authority_operation_id = 8, grant_evidence_digest = [],
        grant_permissions = \<lparr>permit_terminal_result = True, permit_log_delivery = True,
          permit_lease_rejection = True\<rparr>\<rparr>)\<rparr>"

definition sample_result :: DurableContentRef where
  "sample_result = \<lparr>content_kind = KEndpointResult, identity = EndpointResultIdentity 65536 [], cache_key = [],
     protection_id = []\<rparr>"

lemma sample_orphan_slot_ok:
  "slot_ok sample_externals 9 5 JobIrVersion_current sample_orphan_slot"
proof -
  have ep: "endpoint_operation_inv (sample_endpoint InvocationCommitted)"
    by (simp add: endpoint_operation_inv_def sample_endpoint_def sample_request_def
        EndpointRequestContentRef_validate_def public_plaintext_bytes_def ENDPOINT_REQUEST_COMMITMENT_BYTES_def)
  have n: "charge (sample_endpoint InvocationCommitted) \<le> 17891360"
    by (rule accounted_charge[OF ep])
  have "endpoints_ok OfferAccepted Running [sample_endpoint InvocationCommitted]"
    using ep n endpoint_content_budget
    by (simp add: endpoints_ok_def content_refs_def content_charge_def accounted_content_refs_def
        sample_endpoint_def MAX_ENDPOINT_CONTENT_REFS_PER_SLOT_def MAX_ENDPOINT_OPERATIONS_PER_JOB_def
        MAX_LOGICAL_STEPS_def)
  then show ?thesis
    using sample_offer_valid[of sample_externals]
    by (simp add: slot_ok_parts sample_orphan_slot_def SlotSnapshot_from_offer_def offer_ok_def authority_ok_def
      provider_ok_def rejection_ok_def result_ok_def status_ok_def cancellation_ok_def log_ok_def
      timestamp_ok_def ProviderRecoveryState_default_def is_coherent_def replay_provider_operations_def
      orphan_ok_def OrphanRecord_from_grant_def sample_offer_def sample_lease_def is_abandoned_def
      last_pending_def last_opt_def sample_endpoint_def is_recovery_pending_def)
qed

lemma sample_orphan_result:
  "slot_record_endpoint_result 1 sample_result sample_orphan_slot =
     Ok (True, sample_orphan_slot\<lparr>endpoint_operations := [sample_endpoint (Completed sample_result)]\<rparr>)"
proof -
  have "unat (100 :: u64) \<le> 17825792" by simp
  then obtain a :: u64 where a: "endpoint_result_allocation 100 = Ok a" "unat a = allocation_of 100"
    by (rule reserved_allocation)
  then have "(65536 :: u64) \<le> a" by (simp add: allocation_of_def word_le_nat_alt)
  with a(1) have "record_result sample_result (sample_endpoint InvocationCommitted) =
      Ok (True, sample_endpoint (Completed sample_result))"
    by (simp add: record_result_def sample_endpoint_def sample_result_def EndpointResultContentRef_validate_def
        endpoint_result_allocation_bytes_def endpoint_budget_values accounted_bytes_def word_le_nat_alt
        word_less_nat_alt)
  then show ?thesis
    by (simp add: slot_record_endpoint_result_def sample_orphan_slot_def) (simp add: sample_endpoint_def)
qed

theorem orphan_endpoint_result_is_rejected_witness:
  "SlotSnapshot_validate sample_externals 9 5 JobIrVersion_current
     (sample_orphan_slot\<lparr>endpoint_operations := [sample_endpoint (Completed sample_result)]\<rparr>) \<noteq> Ok ()"
  by (rule orphan_endpoint_result_is_rejected[OF sample_orphan_slot_ok _ sample_orphan_result])
     (simp add: sample_orphan_slot_def)

text \<open>A slot whose authority was orphaned and whose job is lost, with nothing left to deliver.\<close>

definition sample_terminal_slot :: SlotSnapshot where
  "sample_terminal_slot = sample_orphan_slot\<lparr>slot_lifecycle := Lost, endpoint_operations := []\<rparr>"

definition sample_terminal :: StoredJournal where
  "sample_terminal = sample_leased\<lparr>slots := [sample_terminal_slot]\<rparr>"

lemma sample_terminal_ok: "journal_ok sample_externals sample_terminal"
proof -
  have "slot_ok sample_externals 9 5 JobIrVersion_current sample_terminal_slot"
    using sample_orphan_slot_ok
    by (simp add: slot_ok_parts sample_terminal_slot_def sample_orphan_slot_def SlotSnapshot_from_offer_def
        endpoints_ok_def result_ok_def status_ok_def orphan_ok_def cancellation_ok_def content_refs_def
        content_charge_def)
  moreover have "same_offer (SlotSnapshot_from_offer sample_offer) sample_terminal_slot"
    by (simp add: same_offer_def sample_terminal_slot_def sample_orphan_slot_def)
  ultimately show ?thesis
    using sample_leased_ok slots_ok_replace[of sample_externals 9 _ "[SlotSnapshot_from_offer sample_offer]" 0]
    by (auto simp: journal_ok_def sample_terminal_def sample_leased_def sample_begun_def StoredJournal_new_def
        SessionSnapshot_new_def sample_session_binding_def)
qed

lemma sample_release:
  "release_slot 5 1 (Lease_guard (sample_lease 5 1)) sample_terminal = Ok (True, sample_terminal\<lparr>slots := []\<rparr>)"
  by (simp add: release_slot_def fenced_index_def require_session_def slot_index_def sample_terminal_def
      search_small sample_leased_def sample_begun_def SessionSnapshot_new_def sample_session_binding_def
      remove_at_def)
     (simp add: sample_terminal_slot_def sample_orphan_slot_def SlotSnapshot_from_offer_def slot_ordinal_def
      sample_offer_def require_guard_def slot_guard_def slot_releasable_def)

theorem release_loses_nothing_witness:
  "slot_map (sample_terminal\<lparr>slots := []\<rparr>) 1 = None \<and> slot_map sample_terminal 1 \<noteq> None"
  using release_loses_nothing[OF sample_terminal_ok sample_release] by auto

end
