(* ===== verification/CapabilityId.thy ===== *)
theory CapabilityId
  imports Text
begin

text \<open>
  Capability identifiers \<open><namespace>/<name>@v<major>\<close> and environment-profile identities:
  \<open>feature.rs\<close> and \<open>environment.rs\<close> in \<open>automata-ci-core/src/capability\<close>.  The accessors of an
  identifier panic in the source where they cannot split it; here they return nothing.
\<close>

section \<open>Definitions\<close>

type_synonym CapabilityId = utext

definition MAX_CAPABILITY_ID_LENGTH :: nat where "MAX_CAPABILITY_ID_LENGTH = 128"

datatype CapabilityIdError = IdEmpty | IdTooLong nat | IdNonAscii | InvalidNamespace | InvalidName | InvalidVersion

definition is_lower :: "nat \<Rightarrow> bool" where
  "is_lower c \<longleftrightarrow> 97 \<le> c \<and> c \<le> 122"

text \<open>\<open>str::rsplit_once\<close> with a pattern of two different characters.\<close>

fun rsplit_pair :: "nat \<Rightarrow> nat \<Rightarrow> utext \<Rightarrow> (utext \<times> utext) option" where
  "rsplit_pair a b [] = None"
| "rsplit_pair a b (c # cs) =
     (case rsplit_pair a b cs of
        Some (before, after) \<Rightarrow> Some (c # before, after)
      | None \<Rightarrow> (case cs of
            d # ds \<Rightarrow> if c = a \<and> d = b then Some ([], ds) else None
          | [] \<Rightarrow> None))"

definition is_identifier_component :: "utext \<Rightarrow> bool" where
  "is_identifier_component component =
     (case (first_opt component, last_opt component) of
        (Some initial, Some final) \<Rightarrow>
          is_lower initial \<and> (is_lower final \<or> is_digit final) \<and>
          list_all (\<lambda>c. is_lower c \<or> is_digit c \<or> c = 45) component
      | _ \<Rightarrow> False)"

definition validate_capability_id :: "utext \<Rightarrow> (unit, CapabilityIdError) result" where
  "validate_capability_id value =
     (if value = [] then Err IdEmpty
      else if utf8_length value > MAX_CAPABILITY_ID_LENGTH then Err (IdTooLong MAX_CAPABILITY_ID_LENGTH)
      else if \<not> is_ascii value then Err IdNonAscii
      else and_then (ok_or InvalidVersion (rsplit_pair 64 118 value)) (\<lambda>(qualified_name, version).
      if version = [] \<or> first_opt version = Some 48 \<or> \<not> list_all is_digit version \<or>
         (parse_word version :: u16 option) = None
      then Err InvalidVersion
      else and_then (ok_or InvalidNamespace (split_once 47 qualified_name)) (\<lambda>(namespace, name).
      if namespace = [] \<or> list_ex (\<lambda>component. \<not> is_identifier_component component) (split_char 46 namespace)
      then Err InvalidNamespace
      else if \<not> is_identifier_component name then Err InvalidName
      else Ok ())))"

definition CapabilityId_new :: "utext \<Rightarrow> (CapabilityId, CapabilityIdError) result" where
  "CapabilityId_new value = and_then (validate_capability_id value) (\<lambda>_. Ok value)"

definition capability_namespace :: "CapabilityId \<Rightarrow> utext option" where
  "capability_namespace self = map_option fst (split_once 47 self)"

definition capability_name :: "CapabilityId \<Rightarrow> utext option" where
  "capability_name self =
     Option.bind (split_once 47 self) (\<lambda>(_, qualified_name). map_option fst (rsplit_pair 64 118 qualified_name))"

definition capability_major_version :: "CapabilityId \<Rightarrow> u16 option" where
  "capability_major_version self = Option.bind (rsplit_pair 64 118 self) (\<lambda>(_, version). parse_word version)"

definition WINDOWS_HYPERV_CONTAINER :: CapabilityId where
  "WINDOWS_HYPERV_CONTAINER = chars ''automata.core/windows-hyperv-container@v1''"

section \<open>Environment-profile identities\<close>

definition MAX_ENVIRONMENT_PROFILE_ID_LENGTH :: nat where "MAX_ENVIRONMENT_PROFILE_ID_LENGTH = 128"

datatype EnvironmentProfileError =
  ProfileEmpty | ProfileTooLong nat | ProfileNonAscii | MissingNamespace | InvalidProfileNamespace | InvalidProfileName

definition valid_component :: "utext \<Rightarrow> bool \<Rightarrow> bool" where
  "valid_component value allow_leading_digit =
     (case (first_opt value, last_opt value) of
        (Some initial, Some final) \<Rightarrow>
          (is_lower initial \<or> allow_leading_digit \<and> is_digit initial) \<and> (is_lower final \<or> is_digit final) \<and>
          list_all (\<lambda>c. is_lower c \<or> is_digit c \<or> c = 45) value
      | _ \<Rightarrow> False)"

definition validate_profile_id :: "utext \<Rightarrow> (unit, EnvironmentProfileError) result" where
  "validate_profile_id value =
     (if value = [] then Err ProfileEmpty
      else if utf8_length value > MAX_ENVIRONMENT_PROFILE_ID_LENGTH
      then Err (ProfileTooLong MAX_ENVIRONMENT_PROFILE_ID_LENGTH)
      else if \<not> is_ascii value then Err ProfileNonAscii
      else and_then (ok_or MissingNamespace (split_once 47 value)) (\<lambda>(namespace, name).
      if namespace = [] \<or> list_ex (\<lambda>part. \<not> valid_component part False) (split_char 46 namespace)
      then Err InvalidProfileNamespace
      else if name = [] \<or> 47 \<in> set name \<or> list_ex (\<lambda>part. \<not> valid_component part True) (split_char 46 name)
      then Err InvalidProfileName
      else Ok ()))"

section \<open>Lemmas\<close>

lemma rsplit_pair_eq_Some: "rsplit_pair a b s = Some (x, y) \<Longrightarrow> s = x @ a # b # y"
proof (induction s arbitrary: x)
  case (Cons c cs)
  show ?case
  proof (cases "rsplit_pair a b cs")
    case (Some p)
    then obtain x' y' where "p = (x', y')" by (cases p)
    with Some Cons show ?thesis by auto
  next
    case None
    with Cons.prems show ?thesis by (cases cs) (simp_all split: if_splits)
  qed
qed simp

lemma rsplit_pair_none: "a \<notin> set s \<Longrightarrow> rsplit_pair a b s = None"
proof (induction s)
  case (Cons c s)
  then show ?case by (cases s) simp_all
qed simp

lemma rsplit_pair_append: "a \<notin> set (b # y) \<Longrightarrow> rsplit_pair a b (x @ a # b # y) = Some (x, y)"
proof (induction x)
  case Nil
  then have "rsplit_pair a b (b # y) = None" by (rule rsplit_pair_none)
  then show ?case by (simp del: rsplit_pair.simps(2) add: rsplit_pair.simps(2)[of a b a "b # y"])
next
  case (Cons c x)
  then have "rsplit_pair a b (x @ a # b # y) = Some (x, y)" by simp
  then show ?case by (simp del: rsplit_pair.simps(2) add: rsplit_pair.simps(2)[of a b c "x @ a # b # y"])
qed

lemma split_once_eq_Some: "split_once sep s = Some (x, y) \<longleftrightarrow> s = x @ sep # y \<and> sep \<notin> set x"
proof
  show "split_once sep s = Some (x, y) \<Longrightarrow> s = x @ sep # y \<and> sep \<notin> set x"
    by (induction s arbitrary: x) (auto split: if_splits)
qed (simp add: split_once_append)

lemma decimal_pos: "s \<noteq> [] \<Longrightarrow> hd s \<noteq> 48 \<Longrightarrow> list_all is_digit s \<Longrightarrow> 0 < decimal s"
proof (induction s rule: rev_induct)
  case (snoc c s)
  then show ?case by (cases "s = []") (auto simp: decimal_snoc is_digit_def, simp add: decimal_def)
qed simp

text \<open>A decimal numeral without a leading zero is the printed form of its value.\<close>

lemma print_decimal: "s \<noteq> [] \<Longrightarrow> hd s \<noteq> 48 \<Longrightarrow> list_all is_digit s \<Longrightarrow> print_nat (decimal s) = s"
proof (induction s rule: rev_induct)
  case (snoc c s)
  then have "is_digit c" by simp
  then obtain d where c: "c = 48 + d" "d < 10" by (auto simp: is_digit_def intro: that[of "c - 48"])
  show ?case
  proof (cases "s = []")
    case True
    with c show ?thesis by (simp add: decimal_def print_nat.simps)
  next
    case False
    with snoc have IH: "print_nat (decimal s) = s" and pos: "0 < decimal s" using decimal_pos by simp_all
    have "(decimal s * 10 + d) div 10 = decimal s" "(decimal s * 10 + d) mod 10 = d"
      using c by simp_all
    with pos IH c show ?thesis by (subst print_nat.simps) (simp add: decimal_snoc)
  qed
qed simp

section \<open>Properties\<close>

text \<open>C26. Every accepted capability identifier splits: its accessors never fail, its version is positive, and the
  identifier is exactly its namespace, its name and its version printed back in the canonical form.\<close>

theorem capability_id_roundtrip:
  assumes "CapabilityId_new value = Ok cid"
  shows "\<exists>namespace name version.
    capability_namespace cid = Some namespace \<and> capability_name cid = Some name \<and>
    capability_major_version cid = Some version \<and> 0 < version \<and>
    cid = namespace @ chars ''/'' @ name @ chars ''@v'' @ print_nat (unat version) \<and> cid = value"
proof -
  from assms obtain qual version namespace name v
    where cid: "cid = value"
      and q: "rsplit_pair 64 118 value = Some (qual, version)"
      and v: "version \<noteq> []" "first_opt version \<noteq> Some 48" "list_all is_digit version" "parse_word version = Some (v :: u16)"
      and n: "split_once 47 qual = Some (namespace, name)"
      and ns: "list_all is_identifier_component (split_char 46 namespace)" and nm: "is_identifier_component name"
    by (auto simp: CapabilityId_new_def validate_capability_id_def result_simps list_ex_iff list_all_iff
        split: if_splits)
  have split: "value = namespace @ 47 # name @ 64 # 118 # version"
    and slash: "47 \<notin> set namespace"
    using rsplit_pair_eq_Some[OF q] n by (auto simp: split_once_eq_Some)
  have "64 \<notin> set version" using v(3) by (auto simp: list_all_iff is_digit_def)
  then have name: "rsplit_pair 64 118 (name @ 64 # 118 # version) = Some (name, version)"
    by (intro rsplit_pair_append) simp_all
  have hd: "hd version \<noteq> 48" using v(1,2) by (cases version) simp_all
  have dec: "unat v = decimal version"
    using v parse_word_digits[OF v(1,3), where 'a = 16] unat_of_nat_small[of "decimal version", where 'a = 16]
    by (auto split: if_splits)
  have "0 < v" using decimal_pos[OF v(1) hd v(3)] dec by (simp add: word_less_nat_alt)
  moreover have "version = print_nat (unat v)" using print_decimal[OF v(1) hd v(3)] dec by simp
  moreover have "split_once 47 value = Some (namespace, name @ 64 # 118 # version)"
    using split slash by (simp add: split_once_eq_Some)
  ultimately show ?thesis
    using q name v(4) split cid
    by (simp add: capability_namespace_def capability_name_def capability_major_version_def chars_def)
qed

theorem capability_id_roundtrip_witness:
  "CapabilityId_new WINDOWS_HYPERV_CONTAINER = Ok WINDOWS_HYPERV_CONTAINER \<and>
   capability_namespace WINDOWS_HYPERV_CONTAINER \<noteq> None"
proof
  show new: "CapabilityId_new WINDOWS_HYPERV_CONTAINER = Ok WINDOWS_HYPERV_CONTAINER"
    by (simp add: CapabilityId_new_def validate_capability_id_def WINDOWS_HYPERV_CONTAINER_def chars_def
        utf8_length_def MAX_CAPABILITY_ID_LENGTH_def is_ascii_def parse_word_def decimal_def is_digit_def
        is_identifier_component_def is_lower_def first_opt_def last_opt_def)
  show "capability_namespace WINDOWS_HYPERV_CONTAINER \<noteq> None"
    using capability_id_roundtrip[OF new] by auto
qed

end
