(* ===== verification/Resources.thy ===== *)
theory Resources
  imports Text
begin

text \<open>
  Quantitative job resources, \<open>automata-ci-core/src/capability/resource.rs\<close>: capacities and their
  checked arithmetic, resolved allocations, the pinned resource policy of a repository, and the two quantity
  grammars of a workflow file.
\<close>

section \<open>Capacities\<close>

record ResourceCapacity =
  cpu_millis :: u32
  memory_bytes :: u64
  ephemeral_disk_bytes :: u64
  gpu_count :: u16

definition ResourceCapacity_default :: ResourceCapacity where
  "ResourceCapacity_default = \<lparr>cpu_millis = 0, memory_bytes = 0, ephemeral_disk_bytes = 0, gpu_count = 0\<rparr>"

definition fits_within :: "ResourceCapacity \<Rightarrow> ResourceCapacity \<Rightarrow> bool" where
  "fits_within self available \<longleftrightarrow>
     cpu_millis self \<le> cpu_millis available \<and>
     memory_bytes self \<le> memory_bytes available \<and>
     ephemeral_disk_bytes self \<le> ephemeral_disk_bytes available \<and>
     gpu_count self \<le> gpu_count available"

definition capacity_checked_add :: "ResourceCapacity \<Rightarrow> ResourceCapacity \<Rightarrow> ResourceCapacity option" where
  "capacity_checked_add self other =
     (case checked_add (cpu_millis self) (cpu_millis other) of None \<Rightarrow> None | Some cpu \<Rightarrow>
     (case checked_add (memory_bytes self) (memory_bytes other) of None \<Rightarrow> None | Some memory \<Rightarrow>
     (case checked_add (ephemeral_disk_bytes self) (ephemeral_disk_bytes other) of None \<Rightarrow> None | Some disk \<Rightarrow>
     (case checked_add (gpu_count self) (gpu_count other) of None \<Rightarrow> None | Some gpu \<Rightarrow>
      Some \<lparr>cpu_millis = cpu, memory_bytes = memory, ephemeral_disk_bytes = disk, gpu_count = gpu\<rparr>))))"

definition capacity_checked_sub :: "ResourceCapacity \<Rightarrow> ResourceCapacity \<Rightarrow> ResourceCapacity option" where
  "capacity_checked_sub self other =
     (case checked_sub (cpu_millis self) (cpu_millis other) of None \<Rightarrow> None | Some cpu \<Rightarrow>
     (case checked_sub (memory_bytes self) (memory_bytes other) of None \<Rightarrow> None | Some memory \<Rightarrow>
     (case checked_sub (ephemeral_disk_bytes self) (ephemeral_disk_bytes other) of None \<Rightarrow> None | Some disk \<Rightarrow>
     (case checked_sub (gpu_count self) (gpu_count other) of None \<Rightarrow> None | Some gpu \<Rightarrow>
      Some \<lparr>cpu_millis = cpu, memory_bytes = memory, ephemeral_disk_bytes = disk, gpu_count = gpu\<rparr>))))"

section \<open>Allocations and policies\<close>

datatype ResourceAllocationError =
  CpuRequired | MemoryRequired | RequestExceedsLimit | GpuRequestLimitMismatch

record JobResourceAllocation =
  allocation_requests :: ResourceCapacity
  allocation_limits :: ResourceCapacity

definition JobResourceAllocation_new ::
  "ResourceCapacity \<Rightarrow> ResourceCapacity \<Rightarrow> (JobResourceAllocation, ResourceAllocationError) result" where
  "JobResourceAllocation_new requests limits =
     (if cpu_millis requests = 0 \<or> cpu_millis limits = 0 then Err CpuRequired
      else if memory_bytes requests = 0 \<or> memory_bytes limits = 0 then Err MemoryRequired
      else if \<not> fits_within requests limits then Err RequestExceedsLimit
      else if gpu_count requests \<noteq> gpu_count limits then Err GpuRequestLimitMismatch
      else Ok \<lparr>allocation_requests = requests, allocation_limits = limits\<rparr>)"

datatype ResourcePolicyError =
  RequiredDimensionIsZero | DefaultsOutsideBounds | RequestBelowMinimum | LimitAboveMaximum

record JobResourcePolicy =
  policy_defaults :: JobResourceAllocation
  minimum_requests :: ResourceCapacity
  maximum_limits :: ResourceCapacity

definition JobResourcePolicy_new ::
  "JobResourceAllocation \<Rightarrow> ResourceCapacity \<Rightarrow> ResourceCapacity \<Rightarrow>
   (JobResourcePolicy, ResourcePolicyError) result" where
  "JobResourcePolicy_new defaults minimum maximum =
     (if cpu_millis minimum = 0 \<or> memory_bytes minimum = 0 \<or> cpu_millis maximum = 0 \<or> memory_bytes maximum = 0
      then Err RequiredDimensionIsZero
      else if \<not> fits_within minimum (allocation_requests defaults) \<or>
              \<not> fits_within (allocation_limits defaults) maximum \<or>
              gpu_count minimum > gpu_count maximum
      then Err DefaultsOutsideBounds
      else Ok \<lparr>policy_defaults = defaults, minimum_requests = minimum, maximum_limits = maximum\<rparr>)"

definition validate_allocation :: "JobResourcePolicy \<Rightarrow> JobResourceAllocation \<Rightarrow> (unit, ResourcePolicyError) result" where
  "validate_allocation self allocation =
     (if \<not> fits_within (minimum_requests self) (allocation_requests allocation) then Err RequestBelowMinimum
      else if \<not> fits_within (allocation_limits allocation) (maximum_limits self) then Err LimitAboveMaximum
      else Ok ())"

section \<open>Quantities\<close>

datatype ResourceQuantityError = InvalidCpu | CpuOverflow | InvalidStorage | StorageOverflow

definition parse_positive_digits :: "utext \<Rightarrow> 'a::len word option" where
  "parse_positive_digits value =
     (if value \<noteq> [] \<and> list_all is_digit value
      then (case parse_word value of Some n \<Rightarrow> if n > 0 then Some n else None | None \<Rightarrow> None)
      else None)"

definition fractional_millis :: "utext option \<Rightarrow> (u32, ResourceQuantityError) result" where
  "fractional_millis fraction =
     (case fraction of
        None \<Rightarrow> Ok 0
      | Some fraction \<Rightarrow>
          if fraction \<noteq> [] \<and> utf8_length fraction \<le> 3 \<and> list_all is_digit fraction
          then and_then (ok_or InvalidCpu (parse_word fraction)) (\<lambda>value.
               Ok (value * 10 ^ (3 - utf8_length fraction)))
          else Err InvalidCpu)"

definition parse_cpu_quantity :: "utext \<Rightarrow> (u32, ResourceQuantityError) result" where
  "parse_cpu_quantity value =
     (let value = trim value in
      if value = [] then Err InvalidCpu
      else and_then
        (case strip_suffix (chars ''m'') value of
           Some number \<Rightarrow> ok_or InvalidCpu (parse_positive_digits number)
         | None \<Rightarrow>
             (let parts = split_char 46 value; whole = hd parts in
              if length parts > 2 \<or> whole = [] \<or> \<not> list_all is_digit whole then Err InvalidCpu
              else and_then (ok_or CpuOverflow (parse_word whole)) (\<lambda>whole.
              and_then (fractional_millis (first_opt (tl parts))) (\<lambda>fractional.
              ok_or CpuOverflow (Option.bind (checked_mul whole 1000) (\<lambda>whole. checked_add whole fractional))))))
        (\<lambda>millis. if millis = 0 then Err InvalidCpu else Ok millis))"

definition storage_units :: "(string \<times> u64) list" where
  "storage_units =
     [(''Ei'', 2 ^ 60), (''Pi'', 2 ^ 50), (''Ti'', 2 ^ 40), (''Gi'', 2 ^ 30), (''Mi'', 2 ^ 20), (''Ki'', 2 ^ 10),
      (''E'', 10 ^ 18), (''P'', 10 ^ 15), (''T'', 10 ^ 12), (''G'', 10 ^ 9), (''M'', 10 ^ 6), (''K'', 10 ^ 3)]"

fun find_unit :: "(string \<times> u64) list \<Rightarrow> utext \<Rightarrow> utext \<times> u64" where
  "find_unit [] value = (value, 1)"
| "find_unit ((suffix, multiplier) # units) value =
     (case strip_suffix (chars suffix) value of
        Some number \<Rightarrow> (number, multiplier)
      | None \<Rightarrow> find_unit units value)"

definition parse_storage_quantity :: "utext \<Rightarrow> (u64, ResourceQuantityError) result" where
  "parse_storage_quantity value =
     (case find_unit storage_units (trim value) of
        (number, multiplier) \<Rightarrow>
          and_then (ok_or InvalidStorage (parse_positive_digits number)) (\<lambda>number.
          ok_or StorageOverflow (checked_mul number multiplier)))"

section \<open>Lemmas\<close>

lemma fits_within_refl: "fits_within c c"
  by (simp add: fits_within_def)

lemma fits_within_trans: "fits_within a b \<Longrightarrow> fits_within b c \<Longrightarrow> fits_within a c"
  by (auto simp: fits_within_def)

text \<open>Reserving what fits, and giving it back.\<close>

lemma reserve_iff: "(\<exists>rest. capacity_checked_sub whole part = Some rest) \<longleftrightarrow> fits_within part whole"
  by (auto simp: capacity_checked_sub_def fits_within_def checked_sub_def word_le_nat_alt split: option.splits)

lemma reserve_release:
  assumes "capacity_checked_sub whole part = Some rest"
  shows "capacity_checked_add rest part = Some whole"
proof -
  obtain c m d g where "checked_sub (cpu_millis whole) (cpu_millis part) = Some c"
    "checked_sub (memory_bytes whole) (memory_bytes part) = Some m"
    "checked_sub (ephemeral_disk_bytes whole) (ephemeral_disk_bytes part) = Some d"
    "checked_sub (gpu_count whole) (gpu_count part) = Some g"
    and rest: "rest = \<lparr>cpu_millis = c, memory_bytes = m, ephemeral_disk_bytes = d, gpu_count = g\<rparr>"
    using assms by (auto simp: capacity_checked_sub_def split: option.splits)
  then have "checked_add c (cpu_millis part) = Some (cpu_millis whole)"
    "checked_add m (memory_bytes part) = Some (memory_bytes whole)"
    "checked_add d (ephemeral_disk_bytes part) = Some (ephemeral_disk_bytes whole)"
    "checked_add g (gpu_count part) = Some (gpu_count whole)"
    by (simp_all add: checked_simps)
  then show ?thesis by (simp add: capacity_checked_add_def rest)
qed

lemma parse_positive_print:
  "(parse_positive_digits (print_nat n) :: 'a::len word option) =
     (if 0 < n \<and> n < 2 ^ LENGTH('a) then Some (of_nat n) else None)"
proof -
  have "(of_nat n :: 'a word) > 0 \<longleftrightarrow> n \<noteq> 0" if "n < 2 ^ LENGTH('a)"
    using that by (simp add: word_less_nat_alt unat_of_nat take_bit_nat_eq_self)
  then show ?thesis
    by (auto simp: parse_positive_digits_def print_nat_digits parse_print_nat)
qed

lemma print_nat_hd_last: "is_digit (hd (print_nat n))" "is_digit (last (print_nat n))"
  using print_nat_digits(1,2)[of n] by (auto simp: list_all_iff)

lemma trim_print: "\<not> is_whitespace (last (print_nat n @ s)) \<Longrightarrow> trim (print_nat n @ s) = print_nat n @ s"
  using print_nat_digits(1)[of n] digit_not_whitespace[OF print_nat_hd_last(1)[of n]]
  by (intro trim_id) simp_all

lemma strip_print:
  "strip_suffix (chars u) (print_nat n @ chars u) = Some (print_nat n)"
  by (simp add: strip_suffix_eq_Some)

text \<open>Three decimal places.\<close>

definition print_thousandths :: "nat \<Rightarrow> utext" where
  "print_thousandths r = [48 + r div 100, 48 + r div 10 mod 10, 48 + r mod 10]"

lemma print_thousandths_digits: "r < 1000 \<Longrightarrow> list_all is_digit (print_thousandths r)" "print_thousandths r \<noteq> []"
  by (auto simp: print_thousandths_def intro!: is_digit_add)

lemma print_thousandths_parse:
  assumes "r < 1000"
  shows "fractional_millis (Some (print_thousandths r)) = Ok (of_nat r)"
proof -
  note digits = print_thousandths_digits(1)[OF assms]
  have "decimal (print_thousandths r) = r div 100 * 100 + r div 10 mod 10 * 10 + r mod 10"
    by (simp add: decimal_def print_thousandths_def)
  also have "\<dots> = (r div 10 div 10 * 10 + r div 10 mod 10) * 10 + r mod 10"
    by (simp add: algebra_simps flip: div_mult2_eq)
  also have "\<dots> = r" by simp
  finally have "(parse_word (print_thousandths r) :: u32 option) = Some (of_nat r)"
    using digits assms by (simp add: parse_word_digits print_thousandths_def[of r])
  then show ?thesis
    using digits digits_ascii[OF digits] by (simp add: fractional_millis_def print_thousandths_def[of r])
qed

lemma parse_cpu_whole:
  assumes "length parts \<le> 1" "list_all (\<lambda>p. 46 \<notin> set p) parts"
    and "last (print_nat n @ concat (map ((#) 46) parts)) \<noteq> 109"
    and "\<not> is_whitespace (last (print_nat n @ concat (map ((#) 46) parts)))"
  shows "parse_cpu_quantity (print_nat n @ concat (map ((#) 46) parts)) =
    and_then (if n < 2 ^ 32 then Ok (of_nat n) else Err CpuOverflow) (\<lambda>whole.
    and_then (fractional_millis (first_opt parts)) (\<lambda>fractional.
    and_then (ok_or CpuOverflow (Option.bind (checked_mul whole 1000) (\<lambda>whole. checked_add whole fractional)))
      (\<lambda>millis. if millis = 0 then Err InvalidCpu else Ok millis)))"
proof -
  let ?s = "print_nat n @ concat (map ((#) 46) parts)"
  have strip: "strip_suffix (chars ''m'') ?s = None"
  proof (rule ccontr)
    assume "strip_suffix (chars ''m'') ?s \<noteq> None"
    then obtain t where "?s = t @ chars ''m''" by (auto simp: strip_suffix_eq_Some)
    then have "last ?s = 109" by (simp add: chars_def)
    with assms(3) show False by simp
  qed
  have dot: "46 \<notin> set (print_nat n)"
    using print_nat_digits(2)[of n] by (auto simp: list_all_iff is_digit_def)
  have split: "split_char 46 ?s = print_nat n # parts"
  proof (cases parts)
    case Nil
    then show ?thesis using split_char_plain[OF dot] by simp
  next
    case (Cons p ps)
    with assms(1,2) have "ps = []" "46 \<notin> set p" by simp_all
    with Cons split_char_append[OF dot, of p] split_char_plain[of 46 p] show ?thesis by simp
  qed
  show ?thesis
    using strip split assms(1) print_nat_digits[of n] parse_print_nat[of n, where 'a = 32] trim_print[OF assms(4)]
    by (cases "fractional_millis (first_opt parts)") (simp_all add: parse_cpu_quantity_def Let_def)
qed

lemma core_millis:
  assumes "n < 2 ^ 32" "f < 1000"
  shows "and_then (ok_or CpuOverflow
      (Option.bind (checked_mul (of_nat n :: u32) 1000) (\<lambda>whole. checked_add whole (of_nat f))))
      (\<lambda>millis. if millis = 0 then Err InvalidCpu else Ok millis) =
    (if n * 1000 + f = 0 then Err InvalidCpu
     else if n * 1000 + f < 2 ^ 32 then Ok (of_nat (n * 1000 + f)) else Err CpuOverflow)"
proof -
  have n: "unat (of_nat n :: u32) = n" and f: "unat (of_nat f :: u32) = f"
    using assms by (simp_all add: unat_of_nat take_bit_nat_eq_self)
  show ?thesis
  proof (cases "n * 1000 < 2 ^ 32")
    case False
    with n show ?thesis by (auto simp: checked_mul_def)
  next
    case True
    have m: "checked_mul (of_nat n) 1000 = Some (of_nat (n * 1000) :: u32)"
      using True n by (simp add: checked_mul_def)
    have m': "unat (of_nat (n * 1000) :: u32) = n * 1000"
      by (rule unat_of_nat_small) (use True in simp)
    have a: "checked_add (of_nat (n * 1000)) (of_nat f :: u32) =
        (if n * 1000 + f < 2 ^ 32 then Some (of_nat (n * 1000 + f)) else None)"
      unfolding checked_add_def m' f by simp
    have zero: "(of_nat (n * 1000 + f) :: u32) = 0 \<longleftrightarrow> n * 1000 + f = 0" if "n * 1000 + f < 2 ^ 32"
      by (rule of_nat_eq_0_small) (use that in simp)
    show ?thesis
      unfolding m bind.bind_lunit a using zero by (cases "n * 1000 + f < 2 ^ 32") (auto simp del: of_nat_add of_nat_mult)
  qed
qed

lemma parse_cpu_decimal:
  assumes "r < 1000"
  shows "parse_cpu_quantity (print_nat q @ 46 # print_thousandths r) =
    (if q * 1000 + r = 0 then Err InvalidCpu
     else if q * 1000 + r < 2 ^ 32 then Ok (of_nat (q * 1000 + r)) else Err CpuOverflow)"
proof -
  have "is_digit (last (print_thousandths r))" "46 \<notin> set (print_thousandths r)"
    using print_thousandths_digits[of r] assms by (auto simp: list_all_iff is_digit_def)
  then have "46 \<notin> set (print_thousandths r)" "last (print_nat q @ 46 # print_thousandths r) \<noteq> 109"
    "\<not> is_whitespace (last (print_nat q @ 46 # print_thousandths r))"
    using print_thousandths_digits(2)[of r] digit_not_whitespace by (auto simp: is_digit_def)
  then have eq: "parse_cpu_quantity (print_nat q @ 46 # print_thousandths r) =
    and_then (if q < 2 ^ 32 then Ok (of_nat q) else Err CpuOverflow) (\<lambda>whole.
    and_then (ok_or CpuOverflow (Option.bind (checked_mul whole 1000) (\<lambda>whole. checked_add whole (of_nat r))))
      (\<lambda>millis. if millis = 0 then Err InvalidCpu else Ok millis))"
    using parse_cpu_whole[of "[print_thousandths r]" q] print_thousandths_parse[OF assms] by simp
  show ?thesis
  proof (cases "q < 2 ^ 32")
    case True
    with eq core_millis[OF True assms] show ?thesis by simp
  qed (use eq in simp)
qed

section \<open>Properties\<close>

text \<open>A CPU quantity means what it says, in each of its three notations: millicores, whole cores and cores with
  three decimal places.  Every amount that fits is read exactly, zero is invalid, and an amount of cores that does not fit is
  an overflow; millicores that do not fit are reported as invalid.\<close>

theorem cpu_quantity_values:
  "parse_cpu_quantity (print_nat n @ chars ''m'') =
     (if 0 < n \<and> n < 2 ^ 32 then Ok (of_nat n) else Err InvalidCpu) \<and>
   parse_cpu_quantity (print_nat n) =
     (if n = 0 then Err InvalidCpu else if n * 1000 < 2 ^ 32 then Ok (of_nat (n * 1000)) else Err CpuOverflow) \<and>
   parse_cpu_quantity (print_nat (n div 1000) @ chars ''.'' @ print_thousandths (n mod 1000)) =
     (if n = 0 then Err InvalidCpu else if n < 2 ^ 32 then Ok (of_nat n) else Err CpuOverflow)"
proof (intro conjI)
  have "trim (print_nat n @ chars ''m'') = print_nat n @ chars ''m''"
    by (rule trim_print) (simp add: chars_def is_whitespace_def)
  then show "parse_cpu_quantity (print_nat n @ chars ''m'') =
     (if 0 < n \<and> n < 2 ^ 32 then Ok (of_nat n) else Err InvalidCpu)"
    using strip_print[of "''m''" n] parse_positive_print[of n, where 'a = 32] print_nat_digits(1)[of n]
    by (auto simp: parse_cpu_quantity_def Let_def parse_positive_digits_def split: option.splits if_splits)
  have digit: "last (print_nat m) \<noteq> 109 \<and> \<not> is_whitespace (last (print_nat m))" for m
    using print_nat_hd_last(2)[of m] digit_not_whitespace by (auto simp: is_digit_def)
  show "parse_cpu_quantity (print_nat n) =
     (if n = 0 then Err InvalidCpu else if n * 1000 < 2 ^ 32 then Ok (of_nat (n * 1000)) else Err CpuOverflow)"
    using parse_cpu_whole[of "[]" n] digit[of n] core_millis[of n 0] by (auto simp: fractional_millis_def)
  show "parse_cpu_quantity (print_nat (n div 1000) @ chars ''.'' @ print_thousandths (n mod 1000)) =
     (if n = 0 then Err InvalidCpu else if n < 2 ^ 32 then Ok (of_nat n) else Err CpuOverflow)"
    using parse_cpu_decimal[of "n mod 1000" "n div 1000"] by (simp only: div_mult_mod_eq) (simp add: chars_def)
qed

lemma find_unit_print:
  assumes "(u, m) \<in> set (([], 1) # storage_units)"
  shows "find_unit storage_units (print_nat n @ chars u) = (print_nat n, m)"
proof -
  have "is_digit (last (print_nat n))" by (rule print_nat_hd_last)
  then have "last (print_nat n) < 58" by (simp add: is_digit_def)
  then show ?thesis
    using assms strip_print[of u n] print_nat_digits(1)[of n]
    by (auto simp: storage_units_def chars_def strip_suffix_last strip_suffix_two)
qed

lemma unit_visible:
  assumes "(u, m) \<in> set (([], 1) # storage_units)"
  shows "\<not> is_whitespace (last (print_nat n @ chars u))"
proof (cases "u = []")
  case True
  then show ?thesis using digit_not_whitespace[OF print_nat_hd_last(2)[of n]] by (simp add: chars_def)
next
  case False
  then have "last (print_nat n @ chars u) = of_char (last u)" by (simp add: chars_def last_map)
  moreover have "last u \<in> {CHR ''i'', CHR ''E'', CHR ''P'', CHR ''T'', CHR ''G'', CHR ''M'', CHR ''K''}"
    using assms False by (auto simp: storage_units_def)
  ultimately show ?thesis by (auto simp: is_whitespace_def)
qed



lemma accepted_allocation:
  assumes "JobResourceAllocation_new requests limits = Ok allocation"
  shows "allocation = \<lparr>allocation_requests = requests, allocation_limits = limits\<rparr>"
    "fits_within requests limits" "gpu_count requests = gpu_count limits"
  using assms by (simp_all add: JobResourceAllocation_new_def split: if_splits)

lemma accepted_policy:
  assumes "JobResourcePolicy_new defaults minimum maximum = Ok policy"
  shows "policy = \<lparr>policy_defaults = defaults, minimum_requests = minimum, maximum_limits = maximum\<rparr>"
    "fits_within minimum (allocation_requests defaults)" "fits_within (allocation_limits defaults) maximum"
  using assms by (simp_all add: JobResourcePolicy_new_def split: if_splits)

text \<open>Under a policy that was accepted, the default allocation is admitted, and every allocation that is admitted is
  bounded in each dimension: at least the minimum is reserved, no more than the limit is reserved, the limit
  does not exceed the maximum, and the GPUs of a reservation are exactly its limit.  What is reserved can be taken
  from any capacity in which it fits and given back without loss.\<close>

theorem admitted_allocation_is_bounded:
  assumes "JobResourcePolicy_new defaults minimum maximum = Ok policy"
    and "JobResourceAllocation_new requests limits = Ok allocation" "validate_allocation policy allocation = Ok ()"
  shows "validate_allocation policy (policy_defaults policy) = Ok () \<and>
    fits_within minimum requests \<and> fits_within requests limits \<and> fits_within limits maximum \<and>
    gpu_count requests = gpu_count limits \<and>
    (fits_within requests capacity \<longleftrightarrow> (\<exists>rest. capacity_checked_sub capacity requests = Some rest \<and>
      capacity_checked_add rest requests = Some capacity))"
proof -
  note policy = accepted_policy[OF assms(1)] and allocation = accepted_allocation[OF assms(2)]
  have "fits_within minimum requests \<and> fits_within limits maximum"
    using assms(3) policy allocation(1) by (simp add: validate_allocation_def split: if_splits)
  moreover have "fits_within requests capacity \<longleftrightarrow> (\<exists>rest. capacity_checked_sub capacity requests = Some rest \<and>
      capacity_checked_add rest requests = Some capacity)"
    using reserve_iff[of capacity requests] reserve_release[of capacity requests] by blast
  ultimately show ?thesis
    using policy allocation by (simp add: validate_allocation_def)
qed

definition sample_capacity :: "u32 \<Rightarrow> ResourceCapacity" where
  "sample_capacity cpu = \<lparr>cpu_millis = cpu, memory_bytes = 1024, ephemeral_disk_bytes = 0, gpu_count = 0\<rparr>"

theorem admitted_allocation_is_bounded_witness:
  "fits_within (sample_capacity 1000) (sample_capacity 2000) \<and> fits_within (sample_capacity 2000) (sample_capacity 4000)"
  using admitted_allocation_is_bounded[of
      "\<lparr>allocation_requests = sample_capacity 500, allocation_limits = sample_capacity 500\<rparr>"
      "sample_capacity 100" "sample_capacity 4000" _ "sample_capacity 1000" "sample_capacity 2000"]
  by (simp add: JobResourceAllocation_new_def JobResourcePolicy_new_def validate_allocation_def fits_within_def
      sample_capacity_def)

end
