(* ===== verification/Capability.thy ===== *)
theory Capability
  imports CapabilityId Resources Attempt "HOL-Library.Product_Lexorder"
begin

text \<open>
  Runner capabilities and job requirements: \<open>platform.rs\<close>, \<open>advertisement.rs\<close>, \<open>requirement.rs\<close> and
  \<open>matching.rs\<close> in \<open>automata-ci-core/src/capability\<close>.  A \<open>BTreeSet\<close> is a finite set; where the source
  iterates over one, the model lists it in its order, so the order of the reported mismatches is the source's.
  Labels, groups and features are the text of their canonical form.
\<close>

section \<open>Platform\<close>

datatype OperatingSystem = Linux | Windows | Macos | OtherSystem utext

datatype Architecture = X86_64 | Aarch64 | OtherArchitecture utext

record RunnerPlatform =
  platform_system :: OperatingSystem
  platform_architecture :: Architecture

datatype IsolationLevel = Process | SharedKernel | VirtualMachine

primrec isolation_rank :: "IsolationLevel \<Rightarrow> nat" where
  "isolation_rank Process = 0"
| "isolation_rank SharedKernel = 1"
| "isolation_rank VirtualMachine = 2"

lemma isolation_rank_inject: "isolation_rank a = isolation_rank b \<longleftrightarrow> a = b"
  by (cases a; cases b) simp_all

instantiation IsolationLevel :: linorder
begin

definition less_eq_IsolationLevel :: "IsolationLevel \<Rightarrow> IsolationLevel \<Rightarrow> bool" where
  "a \<le> b \<longleftrightarrow> isolation_rank a \<le> isolation_rank b"

definition less_IsolationLevel :: "IsolationLevel \<Rightarrow> IsolationLevel \<Rightarrow> bool" where
  "a < b \<longleftrightarrow> isolation_rank a < isolation_rank b"

instance
proof
  fix a b c :: IsolationLevel
  show "a < b \<longleftrightarrow> a \<le> b \<and> \<not> b \<le> a" "a \<le> a" "a \<le> b \<or> b \<le> a" "a \<le> b \<Longrightarrow> b \<le> c \<Longrightarrow> a \<le> c"
    unfolding less_eq_IsolationLevel_def less_IsolationLevel_def by linarith+
  show "a \<le> b \<Longrightarrow> b \<le> a \<Longrightarrow> a = b"
    unfolding less_eq_IsolationLevel_def by (drule (1) le_antisym) (simp only: isolation_rank_inject)
qed

end

datatype EnvironmentProfile = EnvironmentProfile (profile_id: utext) (profile_digest: Sha256Digest)

instantiation EnvironmentProfile :: linorder
begin

definition less_eq_EnvironmentProfile :: "EnvironmentProfile \<Rightarrow> EnvironmentProfile \<Rightarrow> bool" where
  "a \<le> b \<longleftrightarrow> (profile_id a, profile_digest a) \<le> (profile_id b, profile_digest b)"

definition less_EnvironmentProfile :: "EnvironmentProfile \<Rightarrow> EnvironmentProfile \<Rightarrow> bool" where
  "a < b \<longleftrightarrow> (profile_id a, profile_digest a) < (profile_id b, profile_digest b)"

instance
proof
  fix a b c :: EnvironmentProfile
  show "a < b \<longleftrightarrow> a \<le> b \<and> \<not> b \<le> a" "a \<le> a" "a \<le> b \<or> b \<le> a"
    unfolding less_eq_EnvironmentProfile_def less_EnvironmentProfile_def
    by (rule less_le_not_le, rule order_refl, rule linear)
  show "a \<le> b \<Longrightarrow> b \<le> c \<Longrightarrow> a \<le> c"
    unfolding less_eq_EnvironmentProfile_def by (rule order_trans)
  show "a \<le> b \<Longrightarrow> b \<le> a \<Longrightarrow> a = b"
    unfolding less_eq_EnvironmentProfile_def by (drule (1) order_antisym) (cases a; cases b; simp)
qed

end

section \<open>Advertisements\<close>

record SandboxCapabilities =
  maximum_isolation :: IsolationLevel
  sandbox_feature_set :: "CapabilityId fset"

record RunnerCapabilities =
  cap_schema_version :: u16
  cap_runner_id :: RunnerId
  cap_platform :: RunnerPlatform
  cap_labels :: "utext fset"
  cap_groups :: "utext fset"
  max_parallel_jobs :: u16
  resources_per_job :: ResourceCapacity
  cap_sandbox :: SandboxCapabilities
  cap_containers :: "CapabilityId fset"
  cap_features :: "CapabilityId fset"
  environment_profiles :: "EnvironmentProfile fset"

definition RunnerCapabilities_new :: "RunnerId \<Rightarrow> RunnerPlatform \<Rightarrow> RunnerCapabilities" where
  "RunnerCapabilities_new runner platform =
     \<lparr>cap_schema_version = CORE_SCHEMA_VERSION, cap_runner_id = runner, cap_platform = platform,
      cap_labels = {||}, cap_groups = {||}, max_parallel_jobs = 1,
      resources_per_job = ResourceCapacity_default,
      cap_sandbox = \<lparr>maximum_isolation = Process, sandbox_feature_set = {||}\<rparr>,
      cap_containers = {||}, cap_features = {||}, environment_profiles = {||}\<rparr>"

datatype CapabilityValidationError = UnsupportedCapabilitySchema u16 u16 | NoJobSlotsAdvertised

definition with_max_parallel_jobs :: "u16 \<Rightarrow> RunnerCapabilities \<Rightarrow> (RunnerCapabilities, CapabilityValidationError) result" where
  "with_max_parallel_jobs slots self =
     (if slots = 0 then Err NoJobSlotsAdvertised else Ok (self\<lparr>max_parallel_jobs := slots\<rparr>))"

definition RunnerCapabilities_validate :: "RunnerCapabilities \<Rightarrow> (unit, CapabilityValidationError) result" where
  "RunnerCapabilities_validate self =
     (if cap_schema_version self \<noteq> CORE_SCHEMA_VERSION
      then Err (UnsupportedCapabilitySchema CORE_SCHEMA_VERSION (cap_schema_version self))
      else if max_parallel_jobs self = 0 then Err NoJobSlotsAdvertised
      else Ok ())"

section \<open>Requirements\<close>

definition RUNNER_REQUIREMENTS_SCHEMA_VERSION :: u16 where "RUNNER_REQUIREMENTS_SCHEMA_VERSION = 1"

record RunnerRequirements =
  req_schema_version :: u16
  req_labels :: "utext fset"
  eligible_groups :: "utext fset"
  req_system :: "OperatingSystem option"
  req_architecture :: "Architecture option"
  minimum_resources :: ResourceCapacity
  resource_allocation :: "JobResourceAllocation option"
  minimum_isolation :: IsolationLevel
  req_sandbox :: "CapabilityId fset"
  req_containers :: "CapabilityId fset"
  req_features :: "CapabilityId fset"
  environment_profile :: "EnvironmentProfile option"

definition RunnerRequirements_default :: RunnerRequirements where
  "RunnerRequirements_default =
     \<lparr>req_schema_version = RUNNER_REQUIREMENTS_SCHEMA_VERSION, req_labels = {||}, eligible_groups = {||},
      req_system = None, req_architecture = None, minimum_resources = ResourceCapacity_default,
      resource_allocation = None, minimum_isolation = Process, req_sandbox = {||}, req_containers = {||},
      req_features = {||}, environment_profile = None\<rparr>"

definition windows_hyperv_requirement_is_valid ::
  "OperatingSystem option \<Rightarrow> IsolationLevel \<Rightarrow> CapabilityId fset \<Rightarrow> bool" where
  "windows_hyperv_requirement_is_valid system isolation features =
     (let requires_hyperv = WINDOWS_HYPERV_CONTAINER |\<in>| features in
      case system of
        Some Windows \<Rightarrow> isolation \<ge> VirtualMachine \<and> requires_hyperv
      | _ \<Rightarrow> \<not> requires_hyperv)"

datatype RequirementsDecodeError = UnsupportedRequirementsSchema u16 u16 | UnboundWindowsRequirement

text \<open>The checks of \<open>Deserialize\<close> after the fields were read.\<close>

definition RunnerRequirements_decoded :: "RunnerRequirements \<Rightarrow> (RunnerRequirements, RequirementsDecodeError) result" where
  "RunnerRequirements_decoded value =
     (if req_schema_version value \<noteq> RUNNER_REQUIREMENTS_SCHEMA_VERSION
      then Err (UnsupportedRequirementsSchema (req_schema_version value) RUNNER_REQUIREMENTS_SCHEMA_VERSION)
      else if \<not> windows_hyperv_requirement_is_valid (req_system value) (minimum_isolation value) (req_sandbox value)
      then Err UnboundWindowsRequirement
      else Ok value)"

definition with_windows_hyperv_container :: "RunnerRequirements \<Rightarrow> RunnerRequirements" where
  "with_windows_hyperv_container self =
     self\<lparr>req_system := Some Windows,
          minimum_isolation := max (minimum_isolation self) VirtualMachine,
          req_sandbox := finsert WINDOWS_HYPERV_CONTAINER (req_sandbox self)\<rparr>"

definition with_operating_system :: "OperatingSystem \<Rightarrow> RunnerRequirements \<Rightarrow> RunnerRequirements" where
  "with_operating_system system self =
     (if system = Windows then with_windows_hyperv_container self
      else self\<lparr>req_sandbox := req_sandbox self |-| {|WINDOWS_HYPERV_CONTAINER|}, req_system := Some system\<rparr>)"

definition with_minimum_resources :: "ResourceCapacity \<Rightarrow> RunnerRequirements \<Rightarrow> RunnerRequirements" where
  "with_minimum_resources resources self = self\<lparr>minimum_resources := resources, resource_allocation := None\<rparr>"

definition with_resource_allocation :: "JobResourceAllocation \<Rightarrow> RunnerRequirements \<Rightarrow> RunnerRequirements" where
  "with_resource_allocation allocation self =
     self\<lparr>minimum_resources := allocation_requests allocation, resource_allocation := Some allocation\<rparr>"

definition with_minimum_isolation :: "IsolationLevel \<Rightarrow> RunnerRequirements \<Rightarrow> RunnerRequirements" where
  "with_minimum_isolation isolation self =
     self\<lparr>minimum_isolation := (if req_system self = Some Windows then VirtualMachine else isolation)\<rparr>"

definition with_sandbox_features :: "CapabilityId list \<Rightarrow> RunnerRequirements \<Rightarrow> RunnerRequirements" where
  "with_sandbox_features features self =
     (let self = self\<lparr>req_sandbox := fset_of_list features\<rparr> in
      if WINDOWS_HYPERV_CONTAINER |\<in>| req_sandbox self then with_windows_hyperv_container self
      else if req_system self = Some Windows
      then self\<lparr>req_sandbox := finsert WINDOWS_HYPERV_CONTAINER (req_sandbox self)\<rparr>
      else self)"

datatype RequirementsBuilder =
    WithLabels "utext list"
  | WithEligibleGroups "utext list"
  | WithOperatingSystem OperatingSystem
  | WithWindowsHypervContainer
  | WithArchitecture Architecture
  | WithMinimumResources ResourceCapacity
  | WithResourceAllocation JobResourceAllocation
  | WithMinimumIsolation IsolationLevel
  | WithSandboxFeatures "CapabilityId list"
  | WithContainerFeatures "CapabilityId list"
  | WithFeatures "CapabilityId list"
  | WithEnvironmentProfile EnvironmentProfile

primrec build :: "RequirementsBuilder \<Rightarrow> RunnerRequirements \<Rightarrow> RunnerRequirements" where
  "build (WithLabels labels) self = self\<lparr>req_labels := fset_of_list labels\<rparr>"
| "build (WithEligibleGroups groups) self = self\<lparr>eligible_groups := fset_of_list groups\<rparr>"
| "build (WithOperatingSystem system) self = with_operating_system system self"
| "build WithWindowsHypervContainer self = with_windows_hyperv_container self"
| "build (WithArchitecture architecture) self = self\<lparr>req_architecture := Some architecture\<rparr>"
| "build (WithMinimumResources resources) self = with_minimum_resources resources self"
| "build (WithResourceAllocation allocation) self = with_resource_allocation allocation self"
| "build (WithMinimumIsolation isolation) self = with_minimum_isolation isolation self"
| "build (WithSandboxFeatures features) self = with_sandbox_features features self"
| "build (WithContainerFeatures features) self = self\<lparr>req_containers := fset_of_list features\<rparr>"
| "build (WithFeatures features) self = self\<lparr>req_features := fset_of_list features\<rparr>"
| "build (WithEnvironmentProfile profile) self = self\<lparr>environment_profile := Some profile\<rparr>"

section \<open>Matching\<close>

datatype ResourceKind = CpuMillis | MemoryBytes | EphemeralDiskBytes | GpuCount

datatype RequirementMismatch =
    CapabilitiesSchemaVersion u16 u16
  | RequirementsSchemaVersion u16 u16
  | MissingLabel utext
  | NoEligibleGroup "utext fset"
  | OperatingSystemMismatch OperatingSystem OperatingSystem
  | ArchitectureMismatch Architecture Architecture
  | NoJobSlots
  | InsufficientResource ResourceKind u64 u64
  | IsolationMismatch IsolationLevel IsolationLevel
  | MissingSandboxFeature CapabilityId
  | MissingContainerFeature CapabilityId
  | MissingRunnerFeature CapabilityId
  | EnvironmentProfileMismatch EnvironmentProfile "EnvironmentProfile fset"

definition has_all_labels :: "RunnerCapabilities \<Rightarrow> utext fset \<Rightarrow> bool" where
  "has_all_labels self required \<longleftrightarrow> required |\<subseteq>| cap_labels self"

definition compare_resource :: "ResourceKind \<Rightarrow> u64 \<Rightarrow> u64 \<Rightarrow> RequirementMismatch list" where
  "compare_resource resource required available =
     (if available < required then [InsufficientResource resource required available] else [])"

definition compare_environment_profile :: "RunnerCapabilities \<Rightarrow> RunnerRequirements \<Rightarrow> RequirementMismatch list" where
  "compare_environment_profile capabilities requirements =
     (case environment_profile requirements of
        Some required \<Rightarrow>
          if required |\<notin>| environment_profiles capabilities
          then [EnvironmentProfileMismatch required (environment_profiles capabilities)] else []
      | None \<Rightarrow> [])"

definition enforceable :: "RunnerRequirements \<Rightarrow> ResourceCapacity" where
  "enforceable requirements =
     (case resource_allocation requirements of
        None \<Rightarrow> minimum_resources requirements
      | Some allocation \<Rightarrow> allocation_limits allocation)"

definition mismatches :: "RunnerCapabilities \<Rightarrow> RunnerRequirements \<Rightarrow> RequirementMismatch list" where
  "mismatches self requirements =
     (if cap_schema_version self \<noteq> CORE_SCHEMA_VERSION
      then [CapabilitiesSchemaVersion CORE_SCHEMA_VERSION (cap_schema_version self)] else []) @
     (if req_schema_version requirements \<noteq> RUNNER_REQUIREMENTS_SCHEMA_VERSION
      then [RequirementsSchemaVersion RUNNER_REQUIREMENTS_SCHEMA_VERSION (req_schema_version requirements)]
      else []) @
     map MissingLabel (sorted_list_of_fset (req_labels requirements |-| cap_labels self)) @
     (if eligible_groups requirements \<noteq> {||} \<and> eligible_groups requirements |\<inter>| cap_groups self = {||}
      then [NoEligibleGroup (eligible_groups requirements)] else []) @
     (case req_system requirements of
        Some required \<Rightarrow>
          if required \<noteq> platform_system (cap_platform self)
          then [OperatingSystemMismatch required (platform_system (cap_platform self))] else []
      | None \<Rightarrow> []) @
     (case req_architecture requirements of
        Some required \<Rightarrow>
          if required \<noteq> platform_architecture (cap_platform self)
          then [ArchitectureMismatch required (platform_architecture (cap_platform self))] else []
      | None \<Rightarrow> []) @
     (if max_parallel_jobs self = 0 then [NoJobSlots] else []) @
     compare_resource CpuMillis (ucast (cpu_millis (enforceable requirements)))
       (ucast (cpu_millis (resources_per_job self))) @
     compare_resource MemoryBytes (memory_bytes (enforceable requirements))
       (memory_bytes (resources_per_job self)) @
     compare_resource EphemeralDiskBytes (ephemeral_disk_bytes (enforceable requirements))
       (ephemeral_disk_bytes (resources_per_job self)) @
     compare_resource GpuCount (ucast (gpu_count (enforceable requirements)))
       (ucast (gpu_count (resources_per_job self))) @
     (if maximum_isolation (cap_sandbox self) < minimum_isolation requirements
      then [IsolationMismatch (minimum_isolation requirements) (maximum_isolation (cap_sandbox self))] else []) @
     map MissingSandboxFeature
       (sorted_list_of_fset (req_sandbox requirements |-| sandbox_feature_set (cap_sandbox self))) @
     map MissingContainerFeature (sorted_list_of_fset (req_containers requirements |-| cap_containers self)) @
     map MissingRunnerFeature (sorted_list_of_fset (req_features requirements |-| cap_features self)) @
     compare_environment_profile self requirements"

definition satisfies :: "RunnerCapabilities \<Rightarrow> RunnerRequirements \<Rightarrow> (unit, RequirementMismatch list) result" where
  "satisfies self requirements =
     (if mismatches self requirements = [] then Ok () else Err (mismatches self requirements))"

end
