(* ===== verification/CapabilityMatch.thy ===== *)
theory CapabilityMatch
  imports Capability
begin

text \<open>
  What matching promises: the mismatches that are reported are exactly the unmet requirements, each once; a runner that
  offers more satisfies more; and every requirement that the builder produces is one that decoding accepts.
\<close>

section \<open>What a mismatch means\<close>

text \<open>The requirement behind each mismatch, as a condition on the two values.\<close>

fun unmet :: "RunnerCapabilities \<Rightarrow> RunnerRequirements \<Rightarrow> RequirementMismatch \<Rightarrow> bool" where
  "unmet c r (CapabilitiesSchemaVersion supported received) \<longleftrightarrow>
     supported = CORE_SCHEMA_VERSION \<and> received = cap_schema_version c \<and> received \<noteq> supported"
| "unmet c r (RequirementsSchemaVersion supported received) \<longleftrightarrow>
     supported = RUNNER_REQUIREMENTS_SCHEMA_VERSION \<and> received = req_schema_version r \<and> received \<noteq> supported"
| "unmet c r (MissingLabel label) \<longleftrightarrow> label |\<in>| req_labels r \<and> label |\<notin>| cap_labels c"
| "unmet c r (NoEligibleGroup groups) \<longleftrightarrow>
     groups = eligible_groups r \<and> groups \<noteq> {||} \<and> groups |\<inter>| cap_groups c = {||}"
| "unmet c r (OperatingSystemMismatch required available) \<longleftrightarrow>
     req_system r = Some required \<and> available = platform_system (cap_platform c) \<and> required \<noteq> available"
| "unmet c r (ArchitectureMismatch required available) \<longleftrightarrow>
     req_architecture r = Some required \<and> available = platform_architecture (cap_platform c) \<and> required \<noteq> available"
| "unmet c r NoJobSlots \<longleftrightarrow> max_parallel_jobs c = 0"
| "unmet c r (InsufficientResource kind required available) \<longleftrightarrow> available < required \<and>
     (case kind of
        CpuMillis \<Rightarrow> required = ucast (cpu_millis (enforceable r)) \<and> available = ucast (cpu_millis (resources_per_job c))
      | MemoryBytes \<Rightarrow> required = memory_bytes (enforceable r) \<and> available = memory_bytes (resources_per_job c)
      | EphemeralDiskBytes \<Rightarrow> required = ephemeral_disk_bytes (enforceable r) \<and>
          available = ephemeral_disk_bytes (resources_per_job c)
      | GpuCount \<Rightarrow> required = ucast (gpu_count (enforceable r)) \<and> available = ucast (gpu_count (resources_per_job c)))"
| "unmet c r (IsolationMismatch required available) \<longleftrightarrow>
     required = minimum_isolation r \<and> available = maximum_isolation (cap_sandbox c) \<and> available < required"
| "unmet c r (MissingSandboxFeature f) \<longleftrightarrow> f |\<in>| req_sandbox r \<and> f |\<notin>| sandbox_feature_set (cap_sandbox c)"
| "unmet c r (MissingContainerFeature f) \<longleftrightarrow> f |\<in>| req_containers r \<and> f |\<notin>| cap_containers c"
| "unmet c r (MissingRunnerFeature f) \<longleftrightarrow> f |\<in>| req_features r \<and> f |\<notin>| cap_features c"
| "unmet c r (EnvironmentProfileMismatch required available) \<longleftrightarrow>
     environment_profile r = Some required \<and> available = environment_profiles c \<and> required |\<notin>| available"

text \<open>The runner is able to do the job: every requirement is met.\<close>

definition capable :: "RunnerCapabilities \<Rightarrow> RunnerRequirements \<Rightarrow> bool" where
  "capable c r \<longleftrightarrow>
     cap_schema_version c = CORE_SCHEMA_VERSION \<and> req_schema_version r = RUNNER_REQUIREMENTS_SCHEMA_VERSION \<and>
     has_all_labels c (req_labels r) \<and>
     (eligible_groups r = {||} \<or> eligible_groups r |\<inter>| cap_groups c \<noteq> {||}) \<and>
     (\<forall>s. req_system r = Some s \<longrightarrow> s = platform_system (cap_platform c)) \<and>
     (\<forall>a. req_architecture r = Some a \<longrightarrow> a = platform_architecture (cap_platform c)) \<and>
     max_parallel_jobs c \<noteq> 0 \<and> fits_within (enforceable r) (resources_per_job c) \<and>
     minimum_isolation r \<le> maximum_isolation (cap_sandbox c) \<and>
     req_sandbox r |\<subseteq>| sandbox_feature_set (cap_sandbox c) \<and> req_containers r |\<subseteq>| cap_containers c \<and>
     req_features r |\<subseteq>| cap_features c \<and>
     (\<forall>p. environment_profile r = Some p \<longrightarrow> p |\<in>| environment_profiles c)"

lemma mem_mismatches: "m \<in> set (mismatches c r) \<longleftrightarrow> unmet c r m"
proof (cases m)
  case (InsufficientResource kind required available)
  then show ?thesis
    by (cases kind) (auto simp: mismatches_def compare_resource_def compare_environment_profile_def
        split: option.splits)
qed (auto simp: mismatches_def compare_resource_def compare_environment_profile_def split: option.splits)

lemma ucast_less:
  assumes "LENGTH('a) \<le> LENGTH('b)"
  shows "(ucast (x :: 'a::len word) :: 'b::len word) < ucast y \<longleftrightarrow> x < y"
proof -
  have "unat (ucast z :: 'b word) = unat z" for z :: "'a word"
  proof -
    have "unat z < 2 ^ LENGTH('a)" by (rule unsigned_less)
    also have "\<dots> \<le> 2 ^ LENGTH('b)" using assms by (simp add: power_increasing)
    finally show ?thesis by (simp add: unsigned_ucast_eq take_bit_nat_eq_self)
  qed
  then show ?thesis by (simp add: word_less_nat_alt)
qed

lemma compare_resource_Nil: "compare_resource k required available = [] \<longleftrightarrow> required \<le> available"
  by (auto simp: compare_resource_def)

lemma fits_within_compare:
  "fits_within a b \<longleftrightarrow>
     compare_resource CpuMillis (ucast (cpu_millis a)) (ucast (cpu_millis b)) = [] \<and>
     compare_resource MemoryBytes (memory_bytes a) (memory_bytes b) = [] \<and>
     compare_resource EphemeralDiskBytes (ephemeral_disk_bytes a) (ephemeral_disk_bytes b) = [] \<and>
     compare_resource GpuCount (ucast (gpu_count a)) (ucast (gpu_count b)) = []"
  using ucast_less[of "cpu_millis b" "cpu_millis a", where 'b = 64] ucast_less[of "gpu_count b" "gpu_count a", where 'b = 64]
  by (simp add: fits_within_def compare_resource_Nil flip: not_less)

lemma listed_difference: "sorted_list_of_fset (A |-| B) = [] \<longleftrightarrow> A |\<subseteq>| B"
proof -
  have "sorted_list_of_fset (A |-| B) = [] \<longleftrightarrow> fset (A |-| B) = {}"
    by (metis set_empty sorted_list_of_fset_simps(1))
  also have "\<dots> \<longleftrightarrow> A |\<subseteq>| B" by (auto simp: less_eq_fset.rep_eq)
  finally show ?thesis .
qed

lemma required_Nil:
  "(case required of Some x \<Rightarrow> if x \<noteq> y then [f x] else [] | None \<Rightarrow> []) = [] \<longleftrightarrow>
     (\<forall>x. required = Some x \<longrightarrow> x = y)"
  by (cases required) simp_all

lemma compare_environment_profile_Nil:
  "compare_environment_profile c r = [] \<longleftrightarrow> (\<forall>p. environment_profile r = Some p \<longrightarrow> p |\<in>| environment_profiles c)"
  by (cases "environment_profile r") (simp_all add: compare_environment_profile_def)

lemma capable_iff: "mismatches c r = [] \<longleftrightarrow> capable c r"
  unfolding capable_def fits_within_compare has_all_labels_def mismatches_def append_is_Nil_conv map_is_Nil_conv
    listed_difference required_Nil compare_environment_profile_Nil
  by (simp only: if_split_asm not_less split: if_split) (auto simp only: list.distinct not_less simp_thms)

lemma satisfies_eq_Ok: "satisfies c r = Ok u \<longleftrightarrow> capable c r"
  by (simp add: satisfies_def flip: capable_iff)

section \<open>Offering more\<close>

text \<open>The second advertisement offers everything that the first one does, on the same platform.\<close>

definition offers_at_most :: "RunnerCapabilities \<Rightarrow> RunnerCapabilities \<Rightarrow> bool" where
  "offers_at_most c c' \<longleftrightarrow>
     cap_schema_version c' = cap_schema_version c \<and> cap_platform c' = cap_platform c \<and>
     cap_labels c |\<subseteq>| cap_labels c' \<and> cap_groups c |\<subseteq>| cap_groups c' \<and>
     max_parallel_jobs c \<le> max_parallel_jobs c' \<and> fits_within (resources_per_job c) (resources_per_job c') \<and>
     maximum_isolation (cap_sandbox c) \<le> maximum_isolation (cap_sandbox c') \<and>
     sandbox_feature_set (cap_sandbox c) |\<subseteq>| sandbox_feature_set (cap_sandbox c') \<and>
     cap_containers c |\<subseteq>| cap_containers c' \<and> cap_features c |\<subseteq>| cap_features c' \<and>
     environment_profiles c |\<subseteq>| environment_profiles c'"

lemma capable_mono:
  assumes "capable c r" "offers_at_most c c'"
  shows "capable c' r"
proof -
  have groups: "eligible_groups r = {||} \<or> eligible_groups r |\<inter>| cap_groups c' \<noteq> {||}"
    using assms by (auto simp: capable_def offers_at_most_def less_eq_fset.rep_eq)
  have slots: "max_parallel_jobs c' \<noteq> 0"
    using assms by (auto simp: capable_def offers_at_most_def)
  have profile: "\<forall>p. environment_profile r = Some p \<longrightarrow> p |\<in>| environment_profiles c'"
    using assms by (auto simp: capable_def offers_at_most_def less_eq_fset.rep_eq)
  show ?thesis
    using assms groups slots profile unfolding capable_def offers_at_most_def has_all_labels_def
    by (simp add: fits_within_trans[of "enforceable r" "resources_per_job c"])
       (metis order_trans)
qed

section \<open>Properties\<close>

text \<open>C25. Matching is exact.  It succeeds for the runners that meet every requirement of the job and for no other,
  and when it fails it reports every unmet requirement, with the values that clash, and nothing else.\<close>

theorem mismatches_are_exact:
  "case satisfies c r of
     Inr _ \<Rightarrow> capable c r
   | Inl reported \<Rightarrow> \<not> capable c r \<and> reported \<noteq> [] \<and> set reported = {m. unmet c r m}"
  using capable_iff[of c r] by (auto simp: satisfies_def mem_mismatches)

text \<open>The requirements that decoding accepts, kept by every builder step.\<close>

definition requirements_ok :: "RunnerRequirements \<Rightarrow> bool" where
  "requirements_ok r \<longleftrightarrow> req_schema_version r = RUNNER_REQUIREMENTS_SCHEMA_VERSION \<and>
     (if req_system r = Some Windows
      then VirtualMachine \<le> minimum_isolation r \<and> WINDOWS_HYPERV_CONTAINER |\<in>| req_sandbox r
      else WINDOWS_HYPERV_CONTAINER |\<notin>| req_sandbox r)"

lemma requirements_decoded_iff: "RunnerRequirements_decoded r = Ok r \<longleftrightarrow> requirements_ok r"
proof -
  have "windows_hyperv_requirement_is_valid sys iso fs \<longleftrightarrow>
      (if sys = Some Windows then VirtualMachine \<le> iso \<and> WINDOWS_HYPERV_CONTAINER |\<in>| fs
       else WINDOWS_HYPERV_CONTAINER |\<notin>| fs)" for sys iso fs
    by (auto simp: windows_hyperv_requirement_is_valid_def Let_def split: option.splits OperatingSystem.splits)
  then show ?thesis by (simp add: RunnerRequirements_decoded_def requirements_ok_def)
qed

lemma build_ok: "requirements_ok r \<Longrightarrow> requirements_ok (build b r)"
  by (cases b)
     (simp_all add: requirements_ok_def with_operating_system_def with_windows_hyperv_container_def
       with_minimum_resources_def with_resource_allocation_def with_minimum_isolation_def with_sandbox_features_def
       Let_def split: if_splits)

text \<open>Whatever sequence of builder calls produces a requirement, decoding it again accepts it unchanged:
  in particular a Windows requirement always demands virtual-machine isolation and the Hyper-V container
  launch, and no other requirement demands that launch.\<close>

theorem built_requirements_decode:
  "RunnerRequirements_decoded (fold build steps RunnerRequirements_default) =
     Ok (fold build steps RunnerRequirements_default)"
proof -
  have "requirements_ok r \<Longrightarrow> requirements_ok (fold build steps r)" for r
    by (induction steps arbitrary: r) (simp_all add: build_ok)
  moreover have "requirements_ok RunnerRequirements_default"
    by (simp add: requirements_ok_def RunnerRequirements_default_def)
  ultimately show ?thesis by (simp add: requirements_decoded_iff)
qed

end
