(* ===== verification/Scheduling.thy ===== *)
theory Scheduling
  imports CapabilityMatch
begin

text \<open>
  Pure scheduling in the control plane: \<open>runner.rs\<close>, \<open>capabilities.rs\<close>, \<open>routing.rs\<close>, \<open>candidate.rs\<close>,
  \<open>input.rs\<close>, \<open>decision.rs\<close> and \<open>policy.rs\<close> in \<open>automata-ci-control/src/scheduling\<close>.  A reference
  borrowed from a slice of the snapshot is its position in that slice, so pointer membership is being in
  range.
\<close>

section \<open>Runner sessions and slots\<close>

record SessionGuard =
  guard_runner_id :: RunnerId
  guard_session_id :: RunnerSessionId

datatype RunnerSlot = RunnerSlot (slot_runner_id: RunnerId) (slot_number: u16)

instantiation RunnerSlot :: linorder
begin

definition less_eq_RunnerSlot :: "RunnerSlot \<Rightarrow> RunnerSlot \<Rightarrow> bool" where
  "a \<le> b \<longleftrightarrow> (slot_runner_id a, slot_number a) \<le> (slot_runner_id b, slot_number b)"

definition less_RunnerSlot :: "RunnerSlot \<Rightarrow> RunnerSlot \<Rightarrow> bool" where
  "a < b \<longleftrightarrow> (slot_runner_id a, slot_number a) < (slot_runner_id b, slot_number b)"

instance
proof
  fix a b c :: RunnerSlot
  show "a < b \<longleftrightarrow> a \<le> b \<and> \<not> b \<le> a" "a \<le> a" "a \<le> b \<or> b \<le> a"
    unfolding less_eq_RunnerSlot_def less_RunnerSlot_def
    by (rule less_le_not_le, rule order_refl, rule linear)
  show "a \<le> b \<Longrightarrow> b \<le> c \<Longrightarrow> a \<le> c"
    unfolding less_eq_RunnerSlot_def by (rule order_trans)
  show "a \<le> b \<Longrightarrow> b \<le> a \<Longrightarrow> a = b"
    unfolding less_eq_RunnerSlot_def by (drule (1) order_antisym) (cases a; cases b; simp)
qed

end

datatype RunnerSlotError = ZeroOrdinal

definition RunnerSlot_new :: "RunnerId \<Rightarrow> u16 \<Rightarrow> (RunnerSlot, RunnerSlotError) result" where
  "RunnerSlot_new runner number = (if number = 0 then Err ZeroOrdinal else Ok (RunnerSlot runner number))"

section \<open>Evidence and effective runners\<close>

record RunnerEvidence =
  evidence_session :: SessionGuard
  observed_capabilities :: RunnerCapabilities
  observed_at :: UnixMillis

datatype RunnerEvidenceError =
    EvidenceInvalidCapabilities CapabilityValidationError
  | EvidenceRunnerIdentityMismatch RunnerId RunnerId

definition RunnerEvidence_new ::
  "SessionGuard \<Rightarrow> RunnerCapabilities \<Rightarrow> UnixMillis \<Rightarrow> (RunnerEvidence, RunnerEvidenceError) result" where
  "RunnerEvidence_new session observed at =
     and_then (map_err EvidenceInvalidCapabilities (RunnerCapabilities_validate observed)) (\<lambda>_.
     if cap_runner_id observed \<noteq> guard_runner_id session
     then Err (EvidenceRunnerIdentityMismatch (guard_runner_id session) (cap_runner_id observed))
     else Ok \<lparr>evidence_session = session, observed_capabilities = observed, observed_at = at\<rparr>)"

record AuthorizedRunnerRouting =
  routing_labels :: "utext fset"
  routing_groups :: "utext fset"

record EffectiveRunner =
  effective_session :: SessionGuard
  effective_capabilities :: RunnerCapabilities
  available_slots :: "RunnerSlot fset"
  evidence_observed_at :: UnixMillis

datatype EffectiveRunnerError =
    InvalidEffectiveCapabilities CapabilityValidationError
  | EffectiveRunnerIdentityMismatch RunnerId RunnerId
  | SelectorsNotSeparated
  | PlatformMismatch
  | SlotLimitExceedsEvidence u16 u16
  | ResourceExceedsEvidence ResourceKind u64 u64
  | IsolationExceedsEvidence
  | UnobservedSandboxFeature CapabilityId
  | UnobservedContainerFeature CapabilityId
  | UnobservedRunnerFeature CapabilityId
  | UnobservedEnvironmentProfile EnvironmentProfile
  | SlotRunnerMismatch RunnerId RunnerId
  | SlotOutOfRange u16 u16
  | DuplicateSlot RunnerSlot

definition validate_resources :: "ResourceCapacity \<Rightarrow> ResourceCapacity \<Rightarrow> (unit, EffectiveRunnerError) result" where
  "validate_resources effective observed =
     (case find (\<lambda>(_, effective, observed). effective > observed)
        [(CpuMillis, ucast (cpu_millis effective), ucast (cpu_millis observed)),
         (MemoryBytes, memory_bytes effective, memory_bytes observed),
         (EphemeralDiskBytes, ephemeral_disk_bytes effective, ephemeral_disk_bytes observed),
         (GpuCount, ucast (gpu_count effective), ucast (gpu_count observed))] of
        Some (resource, effective, observed) \<Rightarrow> Err (ResourceExceedsEvidence resource observed effective)
      | None \<Rightarrow> Ok ())"

text \<open>\<open>a.difference(b).next()\<close>.\<close>

definition first_difference :: "'a::linorder fset \<Rightarrow> 'a fset \<Rightarrow> 'a option" where
  "first_difference a b = first_opt (sorted_list_of_fset (a |-| b))"

definition refuse_difference ::
  "('a::linorder \<Rightarrow> EffectiveRunnerError) \<Rightarrow> 'a fset \<Rightarrow> 'a fset \<Rightarrow> (unit, EffectiveRunnerError) result" where
  "refuse_difference error effective observed =
     (case first_difference effective observed of Some x \<Rightarrow> Err (error x) | None \<Rightarrow> Ok ())"

definition validate_slot ::
  "RunnerId \<Rightarrow> u16 \<Rightarrow> RunnerSlot \<Rightarrow> RunnerSlot fset \<Rightarrow> (RunnerSlot fset, EffectiveRunnerError) result" where
  "validate_slot runner limit slot validated =
     (if slot_runner_id slot \<noteq> runner then Err (SlotRunnerMismatch runner (slot_runner_id slot))
      else if slot_number slot > limit then Err (SlotOutOfRange (slot_number slot) limit)
      else if slot |\<in>| validated then Err (DuplicateSlot slot)
      else Ok (finsert slot validated))"

definition authorize ::
  "RunnerEvidence \<Rightarrow> AuthorizedRunnerRouting \<Rightarrow> RunnerCapabilities \<Rightarrow> RunnerSlot list \<Rightarrow>
   (EffectiveRunner, EffectiveRunnerError) result" where
  "authorize evidence routing capabilities slots =
     (let observed = observed_capabilities evidence; runner = guard_runner_id (evidence_session evidence) in
      and_then (map_err InvalidEffectiveCapabilities (RunnerCapabilities_validate capabilities)) (\<lambda>_.
      if cap_labels capabilities \<noteq> {||} \<or> cap_groups capabilities \<noteq> {||} then Err SelectorsNotSeparated
      else if cap_runner_id capabilities \<noteq> runner
      then Err (EffectiveRunnerIdentityMismatch runner (cap_runner_id capabilities))
      else if cap_platform capabilities \<noteq> cap_platform observed then Err PlatformMismatch
      else if max_parallel_jobs capabilities > max_parallel_jobs observed
      then Err (SlotLimitExceedsEvidence (max_parallel_jobs observed) (max_parallel_jobs capabilities))
      else and_then (validate_resources (resources_per_job capabilities) (resources_per_job observed)) (\<lambda>_.
      if maximum_isolation (cap_sandbox capabilities) > maximum_isolation (cap_sandbox observed)
      then Err IsolationExceedsEvidence
      else and_then (refuse_difference UnobservedSandboxFeature
          (sandbox_feature_set (cap_sandbox capabilities)) (sandbox_feature_set (cap_sandbox observed))) (\<lambda>_.
      and_then (refuse_difference UnobservedContainerFeature
          (cap_containers capabilities) (cap_containers observed)) (\<lambda>_.
      and_then (refuse_difference UnobservedRunnerFeature
          (cap_features capabilities) (cap_features observed)) (\<lambda>_.
      and_then (refuse_difference UnobservedEnvironmentProfile
          (environment_profiles capabilities) (environment_profiles observed)) (\<lambda>_.
      let capabilities = capabilities\<lparr>cap_labels := routing_labels routing, cap_groups := routing_groups routing\<rparr> in
      and_then (try_fold (validate_slot runner (max_parallel_jobs capabilities)) slots {||}) (\<lambda>validated.
      Ok \<lparr>effective_session = evidence_session evidence, effective_capabilities = capabilities,
          available_slots = validated, evidence_observed_at = observed_at evidence\<rparr>))))))))"

section \<open>Registered and observed capabilities\<close>

datatype RunnerCapabilityIntersectionError =
    InvalidRegistered CapabilityValidationError
  | InvalidObserved CapabilityValidationError
  | IntersectionRunnerIdentityMismatch RunnerId RunnerId
  | IntersectionPlatformMismatch

definition intersect_resources :: "ResourceCapacity \<Rightarrow> ResourceCapacity \<Rightarrow> ResourceCapacity" where
  "intersect_resources registered observed =
     \<lparr>cpu_millis = min (cpu_millis registered) (cpu_millis observed),
      memory_bytes = min (memory_bytes registered) (memory_bytes observed),
      ephemeral_disk_bytes = min (ephemeral_disk_bytes registered) (ephemeral_disk_bytes observed),
      gpu_count = min (gpu_count registered) (gpu_count observed)\<rparr>"

definition intersect_runner_capabilities ::
  "RunnerCapabilities \<Rightarrow> RunnerCapabilities \<Rightarrow> (RunnerCapabilities, RunnerCapabilityIntersectionError) result" where
  "intersect_runner_capabilities registered observed =
     and_then (map_err InvalidRegistered (RunnerCapabilities_validate registered)) (\<lambda>_.
     and_then (map_err InvalidObserved (RunnerCapabilities_validate observed)) (\<lambda>_.
     if cap_runner_id registered \<noteq> cap_runner_id observed
     then Err (IntersectionRunnerIdentityMismatch (cap_runner_id registered) (cap_runner_id observed))
     else if cap_platform registered \<noteq> cap_platform observed then Err IntersectionPlatformMismatch
     else and_then
       (map_err InvalidRegistered (with_max_parallel_jobs
         (min (max_parallel_jobs registered) (max_parallel_jobs observed))
         (RunnerCapabilities_new (cap_runner_id registered) (cap_platform registered)))) (\<lambda>capabilities.
     Ok (capabilities\<lparr>
       resources_per_job := intersect_resources (resources_per_job registered) (resources_per_job observed),
       cap_sandbox := \<lparr>
         maximum_isolation = min (maximum_isolation (cap_sandbox registered)) (maximum_isolation (cap_sandbox observed)),
         sandbox_feature_set = sandbox_feature_set (cap_sandbox registered) |\<inter>| sandbox_feature_set (cap_sandbox observed)\<rparr>,
       cap_containers := cap_containers registered |\<inter>| cap_containers observed,
       cap_features := cap_features registered |\<inter>| cap_features observed,
       environment_profiles := environment_profiles registered |\<inter>| environment_profiles observed\<rparr>))))"

section \<open>Candidates and snapshots\<close>

datatype RoutingRequirementsError = UnsupportedRoutingSchema u16 u16

definition RoutingRequirements_new :: "RunnerRequirements \<Rightarrow> (RunnerRequirements, RoutingRequirementsError) result" where
  "RoutingRequirements_new runner =
     (if req_schema_version runner \<noteq> RUNNER_REQUIREMENTS_SCHEMA_VERSION
      then Err (UnsupportedRoutingSchema RUNNER_REQUIREMENTS_SCHEMA_VERSION (req_schema_version runner))
      else Ok runner)"

record RunnableCandidate =
  candidate_attempt_id :: AttemptId
  candidate_job_id :: JobId
  queued_at :: UnixMillis
  candidate_routing :: RunnerRequirements

record SchedulingInput =
  input_candidates :: "RunnableCandidate list"
  input_runners :: "EffectiveRunner list"

datatype SchedulingInputError =
  DuplicateAttempt AttemptId | DuplicateRunner RunnerId | DuplicateSession RunnerSessionId

definition insert_candidate :: "RunnableCandidate \<Rightarrow> AttemptId set \<Rightarrow> (AttemptId set, SchedulingInputError) result" where
  "insert_candidate candidate attempts =
     (if candidate_attempt_id candidate \<in> attempts then Err (DuplicateAttempt (candidate_attempt_id candidate))
      else Ok (insert (candidate_attempt_id candidate) attempts))"

definition insert_runner ::
  "EffectiveRunner \<Rightarrow> RunnerId set \<times> RunnerSessionId set \<Rightarrow>
   (RunnerId set \<times> RunnerSessionId set, SchedulingInputError) result" where
  "insert_runner runner seen =
     (let session = effective_session runner in
      case seen of (runners, sessions) \<Rightarrow>
        if guard_runner_id session \<in> runners then Err (DuplicateRunner (guard_runner_id session))
        else if guard_session_id session \<in> sessions then Err (DuplicateSession (guard_session_id session))
        else Ok (insert (guard_runner_id session) runners, insert (guard_session_id session) sessions))"

definition SchedulingInput_new ::
  "RunnableCandidate list \<Rightarrow> EffectiveRunner list \<Rightarrow> (SchedulingInput, SchedulingInputError) result" where
  "SchedulingInput_new candidates runners =
     and_then (try_fold insert_candidate candidates {}) (\<lambda>_.
     and_then (try_fold insert_runner runners ({}, {})) (\<lambda>_.
     Ok \<lparr>input_candidates = candidates, input_runners = runners\<rparr>))"

section \<open>Decisions\<close>

record Placement =
  placement_attempt_id :: AttemptId
  placement_job_id :: JobId
  placement_session :: SessionGuard
  placement_slot :: RunnerSlot

record RunnerRequirementDecline =
  decline_runner_id :: RunnerId
  decline_mismatches :: "RequirementMismatch list"

datatype CandidateDeclineReason =
    CompatibleRunnersBusy "RunnerId list"
  | NoCompatibleRunner "RunnerRequirementDecline list"

record CandidateDecline =
  decline_attempt_id :: AttemptId
  decline_reason :: CandidateDeclineReason

datatype PlacementDecline =
    NoRunnableCandidates
  | NoEffectiveRunners
  | DeclinedCandidates "CandidateDecline list"

datatype PlacementDecision = Place Placement | Decline PlacementDecline

datatype PlacementFactoryError = ForeignCandidate | ForeignRunner | UnavailableSlot | IncompatibleRunner

definition place :: "SchedulingInput \<Rightarrow> nat \<Rightarrow> nat \<Rightarrow> RunnerSlot \<Rightarrow> (Placement, PlacementFactoryError) result" where
  "place self candidate runner slot =
     (if candidate \<ge> length (input_candidates self) then Err ForeignCandidate
      else if runner \<ge> length (input_runners self) then Err ForeignRunner
      else let c = input_candidates self ! candidate; r = input_runners self ! runner in
        if slot |\<notin>| available_slots r then Err UnavailableSlot
        else if \<not> is_ok (satisfies (effective_capabilities r) (candidate_routing c)) then Err IncompatibleRunner
        else Ok \<lparr>placement_attempt_id = candidate_attempt_id c, placement_job_id = candidate_job_id c,
                 placement_session = effective_session r, placement_slot = slot\<rparr>)"

datatype CandidateCapacityEvaluation =
    EvaluatedAvailable nat RunnerSlot
  | EvaluatedBusy "RunnerId list"
  | EvaluatedIncompatible "RunnerRequirementDecline list"

fun evaluate_candidate_capacity ::
  "RunnableCandidate \<Rightarrow> EffectiveRunner list \<Rightarrow> nat list \<Rightarrow> RunnerId list \<Rightarrow> RunnerRequirementDecline list \<Rightarrow>
   CandidateCapacityEvaluation" where
  "evaluate_candidate_capacity candidate runners [] busy incompatible =
     (if busy = [] then EvaluatedIncompatible incompatible else EvaluatedBusy busy)"
| "evaluate_candidate_capacity candidate runners (i # rest) busy incompatible =
     (let runner = runners ! i; runner_id = guard_runner_id (effective_session runner) in
      case satisfies (effective_capabilities runner) (candidate_routing candidate) of
        Inr _ \<Rightarrow>
          (case first_opt (sorted_list_of_fset (available_slots runner)) of
             Some slot \<Rightarrow> EvaluatedAvailable i slot
           | None \<Rightarrow> evaluate_candidate_capacity candidate runners rest (busy @ [runner_id]) incompatible)
      | Inl reported \<Rightarrow>
          evaluate_candidate_capacity candidate runners rest busy
            (incompatible @ [\<lparr>decline_runner_id = runner_id, decline_mismatches = reported\<rparr>]))"

fun decide_candidates ::
  "SchedulingInput \<Rightarrow> nat list \<Rightarrow> nat list \<Rightarrow> CandidateDecline list \<Rightarrow> PlacementDecision" where
  "decide_candidates input runners [] declines = Decline (DeclinedCandidates declines)"
| "decide_candidates input runners (i # rest) declines =
     (let candidate = input_candidates input ! i;
          continue = (\<lambda>reason. decide_candidates input runners rest
            (declines @ [\<lparr>decline_attempt_id = candidate_attempt_id candidate, decline_reason = reason\<rparr>])) in
      case evaluate_candidate_capacity candidate (input_runners input) runners [] [] of
        EvaluatedAvailable runner slot \<Rightarrow>
          (case place input i runner slot of
             Inr placement \<Rightarrow> Place placement
           | Inl _ \<Rightarrow> continue (CompatibleRunnersBusy
               [guard_runner_id (effective_session (input_runners input ! runner))]))
      | EvaluatedBusy busy \<Rightarrow> continue (CompatibleRunnersBusy busy)
      | EvaluatedIncompatible incompatible \<Rightarrow> continue (NoCompatibleRunner incompatible))"

definition candidate_key :: "RunnableCandidate \<Rightarrow> UnixMillis \<times> AttemptId" where
  "candidate_key candidate = (queued_at candidate, candidate_attempt_id candidate)"

definition runner_key :: "EffectiveRunner \<Rightarrow> RunnerId" where
  "runner_key runner = guard_runner_id (effective_session runner)"

definition decide :: "SchedulingInput \<Rightarrow> PlacementDecision" where
  "decide input =
     (if input_candidates input = [] then Decline NoRunnableCandidates
      else if input_runners input = [] then Decline NoEffectiveRunners
      else
        let candidates = sort_key (\<lambda>i. candidate_key (input_candidates input ! i)) [0..<length (input_candidates input)];
            runners = sort_key (\<lambda>i. runner_key (input_runners input ! i)) [0..<length (input_runners input)] in
        decide_candidates input runners candidates [])"

datatype CandidateCapacity = CapacityAvailable | CapacityBusy | CapacityNoCompatibleRunner

definition classify_candidate_capacity :: "RunnableCandidate \<Rightarrow> EffectiveRunner list \<Rightarrow> CandidateCapacity" where
  "classify_candidate_capacity candidate runners =
     (case evaluate_candidate_capacity candidate runners [0..<length runners] [] [] of
        EvaluatedAvailable _ _ \<Rightarrow> CapacityAvailable
      | EvaluatedBusy _ \<Rightarrow> CapacityBusy
      | EvaluatedIncompatible _ \<Rightarrow> CapacityNoCompatibleRunner)"

end
