(* ===== verification/SchedulingPolicy.thy ===== *)
theory SchedulingPolicy
  imports Scheduling "HOL-Library.Multiset"
begin

text \<open>
  What the scheduler promises.  The first section states the deterministic policy over values (sort, take the oldest
  candidate that some runner can take, on the first such runner and its first slot) and shows that the loop over
  references computes it.  The properties then follow: every placement is a first fit, the order of the snapshot
  is irrelevant, and no placement exceeds what both the registration and the observation of the runner allow.
\<close>

section \<open>The policy over values\<close>

definition compatible :: "RunnableCandidate \<Rightarrow> EffectiveRunner \<Rightarrow> bool" where
  "compatible c r \<longleftrightarrow> capable (effective_capabilities r) (candidate_routing c)"

definition fits :: "RunnableCandidate \<Rightarrow> EffectiveRunner \<Rightarrow> bool" where
  "fits c r \<longleftrightarrow> compatible c r \<and> available_slots r \<noteq> {||}"

definition least_slot :: "RunnerSlot fset \<Rightarrow> RunnerSlot" where
  "least_slot slots = Min (fset slots)"

definition placed :: "RunnableCandidate \<Rightarrow> EffectiveRunner \<Rightarrow> Placement" where
  "placed c r = \<lparr>placement_attempt_id = candidate_attempt_id c, placement_job_id = candidate_job_id c,
     placement_session = effective_session r, placement_slot = least_slot (available_slots r)\<rparr>"

definition runner_decline :: "RunnableCandidate \<Rightarrow> EffectiveRunner \<Rightarrow> RunnerRequirementDecline" where
  "runner_decline c r = \<lparr>decline_runner_id = runner_key r,
     decline_mismatches = mismatches (effective_capabilities r) (candidate_routing c)\<rparr>"

definition reason :: "EffectiveRunner list \<Rightarrow> RunnableCandidate \<Rightarrow> CandidateDeclineReason" where
  "reason rs c =
     (if list_ex (compatible c) rs then CompatibleRunnersBusy (map runner_key (filter (compatible c) rs))
      else NoCompatibleRunner (map (runner_decline c) rs))"

definition declined :: "EffectiveRunner list \<Rightarrow> RunnableCandidate \<Rightarrow> CandidateDecline" where
  "declined rs c = \<lparr>decline_attempt_id = candidate_attempt_id c, decline_reason = reason rs c\<rparr>"

definition first_fit :: "RunnableCandidate list \<Rightarrow> EffectiveRunner list \<Rightarrow> PlacementDecision" where
  "first_fit cs rs =
     (case find (\<lambda>c. list_ex (fits c) rs) cs of
        Some c \<Rightarrow> Place (placed c (the (find (fits c) rs)))
      | None \<Rightarrow> Decline (DeclinedCandidates (map (declined rs) cs)))"

definition policy :: "RunnableCandidate list \<Rightarrow> EffectiveRunner list \<Rightarrow> PlacementDecision" where
  "policy cs rs =
     (if cs = [] then Decline NoRunnableCandidates
      else if rs = [] then Decline NoEffectiveRunners
      else first_fit (sort_key candidate_key cs) (sort_key runner_key rs))"

lemma least_slot: "S \<noteq> {||} \<Longrightarrow> least_slot S |\<in>| S" "x |\<in>| S \<Longrightarrow> least_slot S \<le> x"
  unfolding least_slot_def by (metis Min_in bot_fset.rep_eq finite_fset fset_inject) (simp add: Min_le)

lemma first_slot: "first_opt (sorted_list_of_fset S) = (if S = {||} then None else Some (least_slot S))"
proof (cases "S = {||}")
  case False
  then have "fset S \<noteq> {}" by auto
  then have "sorted_list_of_set (fset S) = Min (fset S) # sorted_list_of_set (fset S - {Min (fset S)})"
    by (intro sorted_list_of_set_nonempty) simp_all
  with False show ?thesis by (simp add: sorted_list_of_fset.rep_eq least_slot_def)
qed (simp add: sorted_list_of_fset.rep_eq)

lemma satisfies_cases:
  "satisfies (effective_capabilities r) (candidate_routing c) =
     (if compatible c r then Ok () else Err (mismatches (effective_capabilities r) (candidate_routing c)))"
  by (simp add: compatible_def satisfies_def flip: capable_iff)

lemma evaluate_eq:
  "evaluate_candidate_capacity c runners refs busy incompatible =
     (let rs = map ((!) runners) refs in
      case find (\<lambda>i. fits c (runners ! i)) refs of
        Some i \<Rightarrow> EvaluatedAvailable i (least_slot (available_slots (runners ! i)))
      | None \<Rightarrow>
          if busy = [] \<and> \<not> list_ex (compatible c) rs
          then EvaluatedIncompatible (incompatible @ map (runner_decline c) rs)
          else EvaluatedBusy (busy @ map runner_key (filter (compatible c) rs)))"
proof (induction refs arbitrary: busy incompatible)
  case (Cons i refs)
  let ?r = "runners ! i"
  consider (fit) "fits c ?r" | (busy) "\<not> fits c ?r" "compatible c ?r" "available_slots ?r = {||}"
    | (no) "\<not> fits c ?r" "\<not> compatible c ?r"
    by (auto simp: fits_def)
  then show ?case
  proof cases
    case fit
    then show ?thesis by (simp add: satisfies_cases first_slot fits_def Let_def)
  next
    case busy
    then have "evaluate_candidate_capacity c runners (i # refs) busy incompatible =
        evaluate_candidate_capacity c runners refs (busy @ [runner_key ?r]) incompatible"
      by (simp add: satisfies_cases first_slot runner_key_def Let_def)
    with busy show ?thesis
      unfolding Cons.IH by (cases "find (\<lambda>i. fits c (runners ! i)) refs") (simp_all add: Let_def)
  next
    case no
    then have "evaluate_candidate_capacity c runners (i # refs) busy incompatible =
        evaluate_candidate_capacity c runners refs busy (incompatible @ [runner_decline c ?r])"
      by (simp add: satisfies_cases runner_decline_def runner_key_def Let_def)
    with no show ?thesis
      unfolding Cons.IH by (cases "find (\<lambda>i. fits c (runners ! i)) refs") (simp_all add: Let_def)
  qed
qed (simp add: Let_def)

lemma find_map: "find P (map g xs) = map_option g (find (\<lambda>x. P (g x)) xs)"
  by (induction xs) simp_all

lemma decide_candidates_eq:
  assumes "\<forall>i \<in> set cis. i < length (input_candidates input)" "\<forall>i \<in> set refs. i < length (input_runners input)"
  shows "decide_candidates input refs cis declines =
    (let rs = map ((!) (input_runners input)) refs; cs = map ((!) (input_candidates input)) cis in
     case find (\<lambda>c. list_ex (fits c) rs) cs of
       Some c \<Rightarrow> Place (placed c (the (find (fits c) rs)))
     | None \<Rightarrow> Decline (DeclinedCandidates (declines @ map (declined rs) cs)))"
  using assms(1)
proof (induction cis arbitrary: declines)
  case (Cons i cis)
  let ?c = "input_candidates input ! i" and ?rs = "map ((!) (input_runners input)) refs"
  show ?case
  proof (cases "find (\<lambda>j. fits ?c (input_runners input ! j)) refs")
    case (Some j)
    then have j: "j \<in> set refs" "fits ?c (input_runners input ! j)"
      by (auto simp: find_Some_iff in_set_conv_nth)
    then have "place input i j (least_slot (available_slots (input_runners input ! j))) =
        Ok (placed ?c (input_runners input ! j))"
      using Cons.prems assms(2)
      by (simp add: place_def placed_def satisfies_cases fits_def Let_def not_le least_slot)
    moreover have "list_ex (fits ?c) ?rs" using j by (auto simp: list_ex_iff)
    moreover have "find (fits ?c) ?rs = Some (input_runners input ! j)"
      using Some by (simp add: find_map)
    ultimately show ?thesis
      using Some by (simp add: evaluate_eq Let_def)
  next
    case None
    then have none: "\<not> list_ex (fits ?c) ?rs" by (auto simp: list_ex_iff find_None_iff)
    have step: "decide_candidates input refs (i # cis) declines =
        decide_candidates input refs cis (declines @ [declined ?rs ?c])"
      using None by (simp add: evaluate_eq declined_def reason_def Let_def)
    have "\<forall>i \<in> set cis. i < length (input_candidates input)" using Cons.prems by simp
    note IH = Cons.IH[OF this, of "declines @ [declined ?rs ?c]"]
    show ?thesis unfolding step IH using none by (simp add: Let_def split: option.split)
  qed
qed (simp add: Let_def)

lemma insort_key_map: "map g (insort_key (\<lambda>x. f (g x)) x xs) = insort_key f (g x) (map g xs)"
  by (induction xs) simp_all

lemma sort_key_map: "map g (sort_key (\<lambda>x. f (g x)) xs) = sort_key f (map g xs)"
  by (induction xs) (simp_all add: insort_key_map)

lemma sort_key_refs: "map ((!) xs) (sort_key (\<lambda>i. f (xs ! i)) [0..<length xs]) = sort_key f xs"
  using sort_key_map[of "(!) xs" f "[0..<length xs]"] by (simp add: map_nth)

lemma decide_eq: "decide \<lparr>input_candidates = cs, input_runners = rs\<rparr> = policy cs rs"
  by (simp add: decide_def policy_def first_fit_def decide_candidates_eq sort_key_refs Let_def split: option.split)

section \<open>Valid snapshots\<close>

lemma insert_candidates_eq_Ok:
  "try_fold insert_candidate cs seen = Ok seen' \<Longrightarrow>
     distinct (map candidate_attempt_id cs) \<and> candidate_attempt_id ` set cs \<inter> seen = {}"
  by (induction cs arbitrary: seen) (auto simp: insert_candidate_def result_simps split: if_splits)

lemma insert_runner_eq_Ok:
  "insert_runner r (runners, sessions) = Ok seen \<Longrightarrow>
     runner_key r \<notin> runners \<and> fst seen = insert (runner_key r) runners"
  by (auto simp: insert_runner_def runner_key_def Let_def split: if_splits)

lemma insert_runners_eq_Ok:
  "try_fold insert_runner rs seen = Ok seen' \<Longrightarrow>
     distinct (map runner_key rs) \<and> runner_key ` set rs \<inter> fst seen = {}"
proof (induction rs arbitrary: seen)
  case (Cons r rs)
  from Cons.prems obtain t where t: "insert_runner r seen = Ok t" "try_fold insert_runner rs t = Ok seen'"
    by (auto simp: result_simps)
  from t(1) have "runner_key r \<notin> fst seen" "fst t = insert (runner_key r) (fst seen)"
    using insert_runner_eq_Ok[of r "fst seen" "snd seen" t] by simp_all
  with Cons.IH[OF t(2)] show ?case by auto
qed simp

lemma valid_snapshot:
  assumes "SchedulingInput_new cs rs = Ok input"
  shows "input = \<lparr>input_candidates = cs, input_runners = rs\<rparr>" "inj_on candidate_key (set cs)"
    "inj_on runner_key (set rs)"
proof -
  from assms obtain a b where "try_fold insert_candidate cs {} = Ok a" "try_fold insert_runner rs ({}, {}) = Ok b"
    and "input = \<lparr>input_candidates = cs, input_runners = rs\<rparr>"
    by (auto simp: SchedulingInput_new_def result_simps)
  then show "input = \<lparr>input_candidates = cs, input_runners = rs\<rparr>" "inj_on candidate_key (set cs)"
    "inj_on runner_key (set rs)"
    using insert_candidates_eq_Ok[of cs "{}" a] insert_runners_eq_Ok[of rs "({}, {})" b]
    by (auto simp: distinct_map inj_on_def candidate_key_def)
qed

lemma find_sorted:
  assumes "find P (sort_key f xs) = Some x"
  shows "x \<in> set xs \<and> P x \<and> (\<forall>y \<in> set xs. P y \<longrightarrow> f x \<le> f y)"
proof -
  obtain i where i: "i < length xs" "x = sort_key f xs ! i" "P x" and before: "\<forall>j < i. \<not> P (sort_key f xs ! j)"
    using assms by (auto simp: find_Some_iff)
  have "f x \<le> f y" if y: "y \<in> set xs" "P y" for y
  proof -
    have "y \<in> set (sort_key f xs)" using y(1) by simp
    then obtain j where "j < length (sort_key f xs)" "sort_key f xs ! j = y" by (metis in_set_conv_nth)
    then have j: "j < length xs" "y = sort_key f xs ! j" by simp_all
    with before y(2) have "i \<le> j" by (meson not_le)
    then have "map f (sort_key f xs) ! i \<le> map f (sort_key f xs) ! j"
      using j by (intro sorted_nth_mono) simp_all
    with i j show ?thesis by simp
  qed
  moreover have "x \<in> set xs" using i by (metis length_sort nth_mem set_sort)
  ultimately show ?thesis using i(3) by blast
qed

section \<open>Properties\<close>

text \<open>C21. The scheduler computes the deterministic first-fit policy: the loops over references, with their early
  exits and accumulated declines, decide exactly what the policy over values says, declines included.\<close>

theorem decide_refines_policy:
  "decide \<lparr>input_candidates = cs, input_runners = rs\<rparr> = policy cs rs"
  by (rule decide_eq)

text \<open>C22. A placement joins a candidate and a runner of the snapshot that meets every requirement, on the first slot that is free
  there.  No candidate queued earlier could have been placed, and no such runner has a smaller id.  When nothing is placed, no
  candidate fits any runner, so no work is left waiting beside a runner that could take it.\<close>

theorem placement_is_first_fit:
  assumes "SchedulingInput_new cs rs = Ok input"
  shows "case decide input of
      Place p \<Rightarrow> \<exists>c \<in> set cs. \<exists>r \<in> set rs. p = placed c r \<and> fits c r \<and>
        placement_slot p |\<in>| available_slots r \<and>
        (\<forall>c' \<in> set cs. \<forall>r' \<in> set rs. fits c' r' \<longrightarrow> candidate_key c \<le> candidate_key c') \<and>
        (\<forall>r' \<in> set rs. fits c r' \<longrightarrow> runner_key r \<le> runner_key r')
    | Decline _ \<Rightarrow> \<forall>c \<in> set cs. \<forall>r \<in> set rs. \<not> fits c r"
proof -
  let ?cs = "sort_key candidate_key cs" and ?rs = "sort_key runner_key rs"
  have decision: "decide input = policy cs rs" using valid_snapshot(1)[OF assms] decide_eq by simp
  show ?thesis
  proof (cases "cs = [] \<or> rs = []")
    case True
    then show ?thesis unfolding decision policy_def by auto
  next
    case False
    show ?thesis
    proof (cases "find (\<lambda>c. list_ex (fits c) ?rs) ?cs")
      case None
      then have "\<forall>c \<in> set cs. \<forall>r \<in> set rs. \<not> fits c r" by (simp add: find_None_iff list_ex_iff)
      moreover have "decide input = Decline (DeclinedCandidates (map (declined ?rs) ?cs))"
        using False None unfolding decision policy_def first_fit_def by simp
      ultimately show ?thesis by simp
    next
      case (Some c)
      from find_sorted[OF Some] have c: "c \<in> set cs" "list_ex (fits c) ?rs"
        and oldest: "\<forall>c' \<in> set cs. list_ex (fits c') ?rs \<longrightarrow> candidate_key c \<le> candidate_key c'" by auto
      then obtain r where r: "find (fits c) ?rs = Some r"
        by (cases "find (fits c) ?rs") (auto simp: find_None_iff list_ex_iff)
      from find_sorted[OF r] have fit: "r \<in> set rs" "fits c r"
        and least: "\<forall>r' \<in> set rs. fits c r' \<longrightarrow> runner_key r \<le> runner_key r'" by simp_all
      have slot: "placement_slot (placed c r) |\<in>| available_slots r"
        using fit(2) by (simp add: placed_def fits_def least_slot)
      have dec: "decide input = Place (placed c r)"
        using False Some r unfolding decision policy_def first_fit_def by simp
      have oldest': "\<forall>c' \<in> set cs. \<forall>r' \<in> set rs. fits c' r' \<longrightarrow> candidate_key c \<le> candidate_key c'"
        using oldest by (simp add: list_ex_iff)
      show ?thesis
        unfolding dec PlacementDecision.case
        by (rule bexI[OF bexI[OF _ fit(1)] c(1)]) (intro conjI refl fit(2) slot oldest' least)
    qed
  qed
qed

text \<open>C23. The order in which a valid snapshot lists its candidates and runners does not matter.\<close>

theorem decision_ignores_order:
  assumes "SchedulingInput_new cs rs = Ok input" "SchedulingInput_new cs' rs' = Ok input'"
    and "mset cs' = mset cs" "mset rs' = mset rs"
  shows "decide input' = decide input"
proof -
  have "sort_key candidate_key cs' = sort_key candidate_key cs"
    using valid_snapshot(2)[OF assms(2)] assms(3) by (intro sort_key_inj_key_eq) simp_all
  moreover have "sort_key runner_key rs' = sort_key runner_key rs"
    using valid_snapshot(3)[OF assms(2)] assms(4) by (intro sort_key_inj_key_eq) simp_all
  moreover have "cs' = [] \<longleftrightarrow> cs = []" "rs' = [] \<longleftrightarrow> rs = []"
    using assms(3,4) by auto
  ultimately show ?thesis
    using valid_snapshot(1)[OF assms(1)] valid_snapshot(1)[OF assms(2)] by (simp add: decide_eq policy_def)
qed

section \<open>Least authority\<close>

definition routed :: "AuthorizedRunnerRouting \<Rightarrow> RunnerCapabilities \<Rightarrow> RunnerCapabilities" where
  "routed routing c = c\<lparr>cap_labels := routing_labels routing, cap_groups := routing_groups routing\<rparr>"

lemma capabilities_validate_eq_Ok:
  "RunnerCapabilities_validate c = Ok u \<longleftrightarrow> cap_schema_version c = CORE_SCHEMA_VERSION \<and> max_parallel_jobs c \<noteq> 0"
  by (simp add: RunnerCapabilities_validate_def)

lemma intersection:
  assumes "intersect_runner_capabilities registered observed = Ok c"
  shows "RunnerCapabilities_validate c = Ok ()" "cap_runner_id c = cap_runner_id observed"
    "cap_labels c = {||}" "cap_groups c = {||}"
    "offers_at_most (routed routing c) (routed routing registered)" "offers_at_most (routed routing c) (routed routing observed)"
proof -
  have valid: "cap_schema_version registered = CORE_SCHEMA_VERSION" "cap_schema_version observed = CORE_SCHEMA_VERSION"
    "cap_runner_id registered = cap_runner_id observed" "cap_platform registered = cap_platform observed"
    "min (max_parallel_jobs registered) (max_parallel_jobs observed) \<noteq> 0"
    using assms
    by (auto simp: intersect_runner_capabilities_def with_max_parallel_jobs_def capabilities_validate_eq_Ok result_simps)
  have c: "c = (RunnerCapabilities_new (cap_runner_id registered) (cap_platform registered))\<lparr>
      max_parallel_jobs := min (max_parallel_jobs registered) (max_parallel_jobs observed),
      resources_per_job := intersect_resources (resources_per_job registered) (resources_per_job observed),
      cap_sandbox := \<lparr>
         maximum_isolation = min (maximum_isolation (cap_sandbox registered)) (maximum_isolation (cap_sandbox observed)),
         sandbox_feature_set = sandbox_feature_set (cap_sandbox registered) |\<inter>| sandbox_feature_set (cap_sandbox observed)\<rparr>,
      cap_containers := cap_containers registered |\<inter>| cap_containers observed,
      cap_features := cap_features registered |\<inter>| cap_features observed,
      environment_profiles := environment_profiles registered |\<inter>| environment_profiles observed\<rparr>"
    using assms by (auto simp: intersect_runner_capabilities_def with_max_parallel_jobs_def result_simps split: if_splits)
  show "RunnerCapabilities_validate c = Ok ()" "cap_runner_id c = cap_runner_id observed"
    "cap_labels c = {||}" "cap_groups c = {||}"
    using valid by (simp_all add: c RunnerCapabilities_new_def capabilities_validate_eq_Ok)
  show "offers_at_most (routed routing c) (routed routing registered)"
    "offers_at_most (routed routing c) (routed routing observed)"
    using valid by (simp_all add: c offers_at_most_def routed_def RunnerCapabilities_new_def fits_within_def
        intersect_resources_def)
qed

lemma validate_resources_fits: "fits_within a b \<Longrightarrow> validate_resources a b = Ok ()"
  using ucast_less[of "cpu_millis b" "cpu_millis a", where 'b = 64] ucast_less[of "gpu_count b" "gpu_count a", where 'b = 64]
  by (simp add: validate_resources_def fits_within_def not_less[symmetric])

lemma refuse_difference_subset: "a |\<subseteq>| b \<Longrightarrow> refuse_difference e a b = Ok ()"
  using listed_difference[of a b] by (simp add: refuse_difference_def first_difference_def)

lemma validate_slots_iff:
  "try_fold (validate_slot runner limit) ss seen = Ok v \<longleftrightarrow>
     distinct ss \<and> (\<forall>s \<in> set ss. slot_runner_id s = runner \<and> slot_number s \<le> limit \<and> s |\<notin>| seen) \<and>
     v = seen |\<union>| fset_of_list ss"
  by (induction ss arbitrary: seen)
     (auto simp: validate_slot_def result_simps not_less split: if_splits)

lemma authorize_intersection:
  assumes "offers_at_most (routed routing c) (routed routing (observed_capabilities ev))"
    and "RunnerCapabilities_validate c = Ok ()" "cap_labels c = {||}" "cap_groups c = {||}"
    and "cap_runner_id c = guard_runner_id (evidence_session ev)"
  shows "authorize ev routing c ss =
    and_then (try_fold (validate_slot (cap_runner_id c) (max_parallel_jobs c)) ss {||}) (\<lambda>validated.
      Ok \<lparr>effective_session = evidence_session ev, effective_capabilities = routed routing c,
          available_slots = validated, evidence_observed_at = observed_at ev\<rparr>)"
proof -
  have "\<not> max_parallel_jobs (observed_capabilities ev) < max_parallel_jobs c"
    "\<not> maximum_isolation (cap_sandbox (observed_capabilities ev)) < maximum_isolation (cap_sandbox c)"
    using assms(1) by (simp_all add: offers_at_most_def routed_def not_less)
  with assms show ?thesis
    by (simp add: authorize_def offers_at_most_def routed_def validate_resources_fits refuse_difference_subset Let_def)
qed


section \<open>A concrete snapshot\<close>

definition sample_platform :: RunnerPlatform where
  "sample_platform = \<lparr>platform_system = Linux, platform_architecture = X86_64\<rparr>"

definition sample_runner :: EffectiveRunner where
  "sample_runner = \<lparr>effective_session = \<lparr>guard_runner_id = 3, guard_session_id = 4\<rparr>,
     effective_capabilities = RunnerCapabilities_new 3 sample_platform,
     available_slots = {|RunnerSlot 3 1|}, evidence_observed_at = 0\<rparr>"

definition sample_candidate :: "AttemptId \<Rightarrow> RunnableCandidate" where
  "sample_candidate a = \<lparr>candidate_attempt_id = a, candidate_job_id = 7, queued_at = 10,
     candidate_routing = RunnerRequirements_default\<rparr>"

lemma sample_input:
  "SchedulingInput_new [sample_candidate 2, sample_candidate 1] [sample_runner] =
     Ok \<lparr>input_candidates = [sample_candidate 2, sample_candidate 1], input_runners = [sample_runner]\<rparr>"
  "SchedulingInput_new [sample_candidate 1, sample_candidate 2] [sample_runner] =
     Ok \<lparr>input_candidates = [sample_candidate 1, sample_candidate 2], input_runners = [sample_runner]\<rparr>"
  by (simp_all add: SchedulingInput_new_def insert_candidate_def insert_runner_def sample_candidate_def Let_def)

lemma sample_fits: "fits (sample_candidate a) sample_runner"
  by (simp add: fits_def compatible_def capable_def sample_candidate_def sample_runner_def RunnerRequirements_default_def
      RunnerCapabilities_new_def has_all_labels_def enforceable_def fits_within_refl)

theorem placement_is_first_fit_witness:
  "\<exists>p. decide \<lparr>input_candidates = [sample_candidate 2, sample_candidate 1], input_runners = [sample_runner]\<rparr> = Place p \<and>
     placement_attempt_id p = 1 \<and> placement_slot p = RunnerSlot 3 1"
proof -
  let ?d = "decide \<lparr>input_candidates = [sample_candidate 2, sample_candidate 1], input_runners = [sample_runner]\<rparr>"
  obtain p where p: "?d = Place p"
    using placement_is_first_fit[OF sample_input(1)] sample_fits by (cases ?d) auto
  with placement_is_first_fit[OF sample_input(1)] obtain c
    where "c \<in> {sample_candidate 2, sample_candidate 1}" "p = placed c sample_runner"
      "candidate_key c \<le> candidate_key (sample_candidate 1)"
    using sample_fits by auto
  then have "p = placed (sample_candidate 1) sample_runner"
    by (auto simp: candidate_key_def sample_candidate_def word_le_nat_alt)
  with p show ?thesis by (simp add: placed_def sample_candidate_def sample_runner_def least_slot_def)
qed

theorem decision_ignores_order_witness:
  "decide \<lparr>input_candidates = [sample_candidate 1, sample_candidate 2], input_runners = [sample_runner]\<rparr> =
   decide \<lparr>input_candidates = [sample_candidate 2, sample_candidate 1], input_runners = [sample_runner]\<rparr>"
  by (rule decision_ignores_order[OF sample_input]) simp_all


end
