(* ===== verification/Cron.thy ===== *)
theory Cron
  imports Text
begin

text \<open>
  Bounded cron expressions and their evaluation, \<open>automata-ci-schedule/src/lib.rs\<close>.  A field is the bit set of
  the source.  The loop over the values of an item is a partial function, because nothing in it bounds the
  number of rounds when the step is zero.

  The calendar and the time-zone database are those of the \<open>jiff\<close> crate, which is a parameter of the evaluation: a date is the number
  of its day, a timestamp the number of nanoseconds since the epoch.
\<close>

section \<open>Limits and errors\<close>

definition MAX_CRON_EXPRESSION_BYTES :: nat where "MAX_CRON_EXPRESSION_BYTES = 256"
definition MAX_IANA_TIMEZONE_BYTES :: nat where "MAX_IANA_TIMEZONE_BYTES = 255"
definition MINIMUM_CRON_INTERVAL_MINUTES :: u16 where "MINIMUM_CRON_INTERVAL_MINUTES = 5"
definition MAXIMUM_CALENDAR_SEARCH_DAYS :: nat where "MAXIMUM_CALENDAR_SEARCH_DAYS = 3660"

datatype ScheduleLimitRejection = ExpressionBytes | TimezoneBytes | IntervalMinutes

definition cron_expression_byte_rejection :: "nat \<Rightarrow> ScheduleLimitRejection option" where
  "cron_expression_byte_rejection observed =
     (if observed > MAX_CRON_EXPRESSION_BYTES then Some ExpressionBytes else None)"

definition timezone_byte_rejection :: "nat \<Rightarrow> ScheduleLimitRejection option" where
  "timezone_byte_rejection observed =
     (if observed > MAX_IANA_TIMEZONE_BYTES then Some TimezoneBytes else None)"

definition cron_interval_rejection :: "u16 \<Rightarrow> ScheduleLimitRejection option" where
  "cron_interval_rejection observed =
     (if observed < MINIMUM_CRON_INTERVAL_MINUTES then Some IntervalMinutes else None)"

datatype ScheduleError =
  InvalidExpression | IntervalTooShort | InvalidTimezone | TimestampOutOfRange | NoFutureMatch

section \<open>Fields\<close>

record Field =
  bits :: u64
  field_minimum :: u16
  field_maximum :: u16

definition Field_contains :: "Field \<Rightarrow> u16 \<Rightarrow> bool" where
  "Field_contains self value \<longleftrightarrow>
     value \<ge> field_minimum self \<and> value \<le> field_maximum self \<and>
     and (bits self) (push_bit (unat (value - field_minimum self)) 1) \<noteq> 0"

definition is_unrestricted :: "Field \<Rightarrow> bool" where
  "is_unrestricted self =
     (let width = field_maximum self - field_minimum self + 1;
          every = (if width = 64 then - 1 else push_bit (unat width) 1 - 1) in
      bits self = every)"

datatype FieldKind = Minute | Hour | DayOfMonth | Month | DayOfWeek

fun bounds :: "FieldKind \<Rightarrow> u16 \<times> u16" where
  "bounds Minute = (0, 59)"
| "bounds Hour = (0, 23)"
| "bounds DayOfMonth = (1, 31)"
| "bounds Month = (1, 12)"
| "bounds DayOfWeek = (0, 6)"

section \<open>Parsing\<close>

definition is_alphanumeric :: "nat \<Rightarrow> bool" where
  "is_alphanumeric c \<longleftrightarrow> is_digit c \<or> 65 \<le> c \<and> c \<le> 90 \<or> 97 \<le> c \<and> c \<le> 122"

definition lower_case :: "nat \<Rightarrow> nat" where
  "lower_case c = (if 65 \<le> c \<and> c \<le> 90 then c + 32 else c)"

fun ascii_words :: "utext \<Rightarrow> utext list" where
  "ascii_words [] = [[]]"
| "ascii_words (c # cs) =
     (if c \<in> {9, 10, 12, 13, 32} then [] # ascii_words cs
      else case ascii_words cs of [] \<Rightarrow> [[c]] | word # words \<Rightarrow> (c # word) # words)"

definition split_ascii_whitespace :: "utext \<Rightarrow> utext list" where
  "split_ascii_whitespace s = filter (\<lambda>word. word \<noteq> []) (ascii_words s)"

definition validate_expression_text :: "utext \<Rightarrow> (unit, ScheduleError) result" where
  "validate_expression_text expression =
     (if expression = [] \<or> cron_expression_byte_rejection (utf8_length expression) \<noteq> None \<or>
         trim expression \<noteq> expression \<or> \<not> is_ascii expression \<or> first_opt expression = Some 64 \<or>
         list_ex (\<lambda>c. \<not> (is_alphanumeric c \<or> c \<in> set (chars ''*,-/ ''))) expression
      then Err InvalidExpression else Ok ())"

fun position :: "(utext \<Rightarrow> bool) \<Rightarrow> utext list \<Rightarrow> nat option" where
  "position P [] = None"
| "position P (x # xs) = (if P x then Some 0 else map_option Suc (position P xs))"

definition named_value :: "utext \<Rightarrow> string list \<Rightarrow> u16 option" where
  "named_value source names =
     map_option of_nat (position (\<lambda>name. map lower_case source = map lower_case name) (map chars names))"

definition MONTH_NAMES :: "string list" where
  "MONTH_NAMES = [''JAN'', ''FEB'', ''MAR'', ''APR'', ''MAY'', ''JUN'', ''JUL'', ''AUG'', ''SEP'', ''OCT'', ''NOV'', ''DEC'']"

definition WEEKDAY_NAMES :: "string list" where
  "WEEKDAY_NAMES = [''SUN'', ''MON'', ''TUE'', ''WED'', ''THU'', ''FRI'', ''SAT'']"

definition parse_value :: "utext \<Rightarrow> FieldKind \<Rightarrow> (u16, ScheduleError) result" where
  "parse_value source kind =
     (case parse_word source of
        Some v \<Rightarrow> Ok v
      | None \<Rightarrow> ok_or InvalidExpression
          (case kind of
             Month \<Rightarrow> map_option (\<lambda>v. v + 1) (named_value source MONTH_NAMES)
           | DayOfWeek \<Rightarrow> named_value source WEEKDAY_NAMES
           | _ \<Rightarrow> None))"

definition normalize_value :: "u16 \<Rightarrow> FieldKind \<Rightarrow> (u16, ScheduleError) result" where
  "normalize_value v kind =
     (if kind = DayOfWeek \<and> v = 7 then Ok 0
      else if fst (bounds kind) \<le> v \<and> v \<le> snd (bounds kind) then Ok v else Err InvalidExpression)"

definition split_step :: "utext \<Rightarrow> u16 \<Rightarrow> (utext \<times> u16 \<times> bool, ScheduleError) result" where
  "split_step source limit =
     (case split_once 47 source of
        None \<Rightarrow> Ok (source, 1, False)
      | Some (base, step) \<Rightarrow>
          if base = [] \<or> step = [] \<or> 47 \<in> set step then Err InvalidExpression
          else case parse_word step of
            Some n \<Rightarrow> if n > 0 \<and> n \<le> limit then Ok (base, n, True) else Err InvalidExpression
          | None \<Rightarrow> Err InvalidExpression)"

definition parse_base :: "utext \<Rightarrow> FieldKind \<Rightarrow> bool \<Rightarrow> (u16 \<times> u16, ScheduleError) result" where
  "parse_base source kind stepped =
     (let minimum = fst (bounds kind); maximum = snd (bounds kind) in
      if source = chars ''*'' then Ok (minimum, maximum)
      else case split_once 45 source of
        Some (start, stop) \<Rightarrow>
          if start = [] \<or> stop = [] \<or> 45 \<in> set stop then Err InvalidExpression
          else and_then (parse_value start kind) (\<lambda>start.
               and_then (parse_value stop kind) (\<lambda>stop.
               let syntax_maximum = (if kind = DayOfWeek then 7 else maximum) in
               if start > stop \<or> start < minimum \<or> stop > syntax_maximum then Err InvalidExpression
               else Ok (start, stop)))
      | None \<Rightarrow>
          and_then (parse_value source kind) (\<lambda>v.
          and_then (normalize_value v kind) (\<lambda>start.
          if start < minimum \<or> start > maximum then Err InvalidExpression
          else Ok (start, if stepped then maximum else start))))"

partial_function (option) mark_values ::
  "FieldKind \<Rightarrow> u16 \<Rightarrow> u16 \<Rightarrow> u16 \<Rightarrow> u64 \<Rightarrow> (u64, ScheduleError) result option" where
  "mark_values kind v stop step marked =
     (if v \<le> stop then
        (case normalize_value v kind of
           Inl error \<Rightarrow> Some (Err error)
         | Inr n \<Rightarrow>
             (let marked = or marked (push_bit (unat (n - fst (bounds kind))) 1) in
              case checked_add v step of
                None \<Rightarrow> Some (Ok marked)
              | Some after \<Rightarrow> mark_values kind after stop step marked))
      else Some (Ok marked))"

declare mark_values.simps [code]

fun parse_items :: "FieldKind \<Rightarrow> utext list \<Rightarrow> u64 \<Rightarrow> (u64, ScheduleError) result option" where
  "parse_items kind [] marked = Some (Ok marked)"
| "parse_items kind (item # items) marked =
     (if item = [] then Some (Err InvalidExpression)
      else case split_step item (snd (bounds kind) - fst (bounds kind) + 1) of
        Inl error \<Rightarrow> Some (Err error)
      | Inr (base, step, stepped) \<Rightarrow>
          (case parse_base base kind stepped of
             Inl error \<Rightarrow> Some (Err error)
           | Inr (start, stop) \<Rightarrow>
               (case mark_values kind start stop step marked of
                  None \<Rightarrow> None
                | Some (Inl error) \<Rightarrow> Some (Err error)
                | Some (Inr marked) \<Rightarrow> parse_items kind items marked)))"

definition parse_field :: "utext \<Rightarrow> FieldKind \<Rightarrow> (Field, ScheduleError) result option" where
  "parse_field source kind =
     (if source = [] then Some (Err InvalidExpression)
      else case parse_items kind (split_char 44 source) 0 of
        None \<Rightarrow> None
      | Some (Inl error) \<Rightarrow> Some (Err error)
      | Some (Inr marked) \<Rightarrow>
          if marked = 0 then Some (Err InvalidExpression)
          else Some (Ok \<lparr>bits = marked, field_minimum = fst (bounds kind), field_maximum = snd (bounds kind)\<rparr>))"

section \<open>Expressions\<close>

record CronExpression =
  exact :: utext
  minutes :: Field
  hours :: Field
  days_of_month :: Field
  months :: Field
  days_of_week :: Field

definition daily_times :: "CronExpression \<Rightarrow> u16 list" where
  "daily_times self =
     concat (map (\<lambda>hour. if \<not> Field_contains (hours self) hour then []
        else map (\<lambda>minute. hour * 60 + minute) (filter (Field_contains (minutes self)) (map of_nat [0..<60])))
       (map of_nat [0..<24]))"

fun window_minimum :: "u16 list \<Rightarrow> u16 \<Rightarrow> u16" where
  "window_minimum (a # b # rest) smallest = window_minimum (b # rest) (min smallest (b - a))"
| "window_minimum _ smallest = smallest"

definition minimum_daily_interval :: "CronExpression \<Rightarrow> u16" where
  "minimum_daily_interval self =
     (let times = daily_times self; smallest = window_minimum times (24 * 60) in
      case (first_opt times, last_opt times) of
        (Some initial, Some final) \<Rightarrow> min smallest (24 * 60 - final + initial)
      | _ \<Rightarrow> smallest)"

definition CronExpression_parse :: "utext \<Rightarrow> (CronExpression, ScheduleError) result option" where
  "CronExpression_parse source =
     and_then_opt (Some (validate_expression_text source)) (\<lambda>_.
     case split_ascii_whitespace source of
       [minute, hour, calendar_day, month, weekday] \<Rightarrow>
         and_then_opt (parse_field minute Minute) (\<lambda>minutes.
         and_then_opt (parse_field hour Hour) (\<lambda>hours.
         and_then_opt (parse_field calendar_day DayOfMonth) (\<lambda>days_of_month.
         and_then_opt (parse_field month Month) (\<lambda>months.
         and_then_opt (parse_field weekday DayOfWeek) (\<lambda>days_of_week.
         let expression = \<lparr>exact = source, minutes = minutes, hours = hours, days_of_month = days_of_month,
               months = months, days_of_week = days_of_week\<rparr> in
         if cron_interval_rejection (minimum_daily_interval expression) \<noteq> None
         then Some (Err IntervalTooShort) else Some (Ok expression))))))
     | _ \<Rightarrow> Some (Err InvalidExpression))"

section \<open>Evaluation\<close>

type_synonym Date = int
type_synonym Timestamp = int

record LocalTime =
  local_date :: Date
  local_hour :: int
  local_minute :: int
  local_second :: int
  local_nanosecond :: int

datatype AmbiguousOffset = Gap | Unambiguous | Fold

record 'z Jiff =
  tz_get :: "utext \<Rightarrow> 'z option"
  from_millisecond :: "int \<Rightarrow> Timestamp option"
  as_millisecond :: "Timestamp \<Rightarrow> int"
  to_zoned :: "'z \<Rightarrow> Timestamp \<Rightarrow> LocalTime"
  date_day :: "Date \<Rightarrow> int"
  date_month :: "Date \<Rightarrow> int"
  date_weekday :: "Date \<Rightarrow> int"
  tomorrow :: "Date \<Rightarrow> Date option"
  ambiguous_offset :: "'z \<Rightarrow> LocalTime \<Rightarrow> AmbiguousOffset"
  unambiguous :: "'z \<Rightarrow> LocalTime \<Rightarrow> Timestamp option"
  earlier :: "'z \<Rightarrow> LocalTime \<Rightarrow> Timestamp option"
  later :: "'z \<Rightarrow> LocalTime \<Rightarrow> Timestamp option"

definition parse_timezone :: "'z Jiff \<Rightarrow> utext \<Rightarrow> ('z, ScheduleError) result" where
  "parse_timezone jiff source =
     (if source = [] \<or> timezone_byte_rejection (utf8_length source) \<noteq> None \<or> trim source \<noteq> source \<or>
         \<not> is_ascii source \<or> list_ex (\<lambda>c. c < 32 \<or> c = 127) source
      then Err InvalidTimezone
      else ok_or InvalidTimezone (tz_get jiff source))"

definition matches_date_components :: "CronExpression \<Rightarrow> int \<Rightarrow> int \<Rightarrow> int \<Rightarrow> bool" where
  "matches_date_components self day month weekday =
     (if day < 0 \<or> month < 0 \<or> weekday < 0 then False
      else if \<not> Field_contains (months self) (of_int month) then False
      else
        let day_matches = Field_contains (days_of_month self) (of_int day);
            weekday_matches = Field_contains (days_of_week self) (of_int weekday) in
        case (is_unrestricted (days_of_month self), is_unrestricted (days_of_week self)) of
          (True, True) \<Rightarrow> True
        | (True, False) \<Rightarrow> weekday_matches
        | (False, True) \<Rightarrow> day_matches
        | (False, False) \<Rightarrow> day_matches \<or> weekday_matches)"

definition matches_date :: "'z Jiff \<Rightarrow> CronExpression \<Rightarrow> Date \<Rightarrow> bool" where
  "matches_date jiff self date =
     matches_date_components self (date_day jiff date) (date_month jiff date) (date_weekday jiff date)"

definition matches_components :: "CronExpression \<Rightarrow> int \<Rightarrow> int \<Rightarrow> int \<Rightarrow> int \<Rightarrow> int \<Rightarrow> bool" where
  "matches_components self minute hour day month weekday =
     (if minute < 0 \<or> hour < 0 then False
      else Field_contains (minutes self) (of_int minute) \<and> Field_contains (hours self) (of_int hour) \<and>
           matches_date_components self day month weekday)"

definition matches_at :: "'z Jiff \<Rightarrow> CronExpression \<Rightarrow> int \<Rightarrow> utext \<Rightarrow> (bool, ScheduleError) result" where
  "matches_at jiff self instant timezone =
     and_then (parse_timezone jiff timezone) (\<lambda>zone.
     and_then (ok_or TimestampOutOfRange (from_millisecond jiff instant)) (\<lambda>timestamp.
     let zoned = to_zoned jiff zone timestamp in
     Ok (local_second zoned = 0 \<and> local_nanosecond zoned = 0 \<and>
         matches_components self (local_minute zoned) (local_hour zoned) (date_day jiff (local_date zoned))
           (date_month jiff (local_date zoned)) (date_weekday jiff (local_date zoned)))))"

definition retain_candidate :: "Timestamp \<Rightarrow> Timestamp \<Rightarrow> Timestamp option \<Rightarrow> Timestamp option" where
  "retain_candidate candidate after best =
     (if candidate > after \<and> (case best of None \<Rightarrow> True | Some current \<Rightarrow> candidate < current)
      then Some candidate else best)"

definition local_minute_of :: "Date \<Rightarrow> nat \<Rightarrow> nat \<Rightarrow> LocalTime" where
  "local_minute_of date hour minute =
     \<lparr>local_date = date, local_hour = int hour, local_minute = int minute, local_second = 0, local_nanosecond = 0\<rparr>"

definition retain_minute ::
  "'z Jiff \<Rightarrow> 'z \<Rightarrow> Date \<Rightarrow> Timestamp \<Rightarrow> nat \<times> nat \<Rightarrow> Timestamp option \<Rightarrow> (Timestamp option, ScheduleError) result" where
  "retain_minute jiff zone date after time best =
     (case time of (hour, minute) \<Rightarrow>
        let clock = local_minute_of date hour minute in
        case ambiguous_offset jiff zone clock of
          Gap \<Rightarrow> Ok best
        | Unambiguous \<Rightarrow>
            and_then (ok_or TimestampOutOfRange (unambiguous jiff zone clock)) (\<lambda>candidate.
            Ok (retain_candidate candidate after best))
        | Fold \<Rightarrow>
            and_then (ok_or TimestampOutOfRange (earlier jiff zone clock)) (\<lambda>first.
            and_then (ok_or TimestampOutOfRange (later jiff zone clock)) (\<lambda>second.
            Ok (retain_candidate second after (retain_candidate first after best)))))"

definition selected_times :: "CronExpression \<Rightarrow> (nat \<times> nat) list" where
  "selected_times self =
     concat (map (\<lambda>hour. if \<not> Field_contains (hours self) (of_nat hour) then []
        else map (Pair hour) (filter (\<lambda>minute. Field_contains (minutes self) (of_nat minute)) [0..<60])) [0..<24])"

definition first_candidate_on ::
  "'z Jiff \<Rightarrow> CronExpression \<Rightarrow> Date \<Rightarrow> 'z \<Rightarrow> Timestamp \<Rightarrow> (Timestamp option, ScheduleError) result" where
  "first_candidate_on jiff self date zone after =
     try_fold (retain_minute jiff zone date after) (selected_times self) None"

fun search_days ::
  "'z Jiff \<Rightarrow> CronExpression \<Rightarrow> 'z \<Rightarrow> Timestamp \<Rightarrow> nat \<Rightarrow> Date \<Rightarrow> (int, ScheduleError) result" where
  "search_days jiff self zone after 0 date = Err NoFutureMatch"
| "search_days jiff self zone after (Suc days) date =
     and_then (if matches_date jiff self date then first_candidate_on jiff self date zone after else Ok None) (\<lambda>found.
     case found of
       Some candidate \<Rightarrow> Ok (as_millisecond jiff candidate)
     | None \<Rightarrow>
         and_then (ok_or TimestampOutOfRange (tomorrow jiff date)) (\<lambda>date.
         search_days jiff self zone after days date))"

definition next_after :: "'z Jiff \<Rightarrow> CronExpression \<Rightarrow> int \<Rightarrow> utext \<Rightarrow> (int, ScheduleError) result" where
  "next_after jiff self instant timezone =
     and_then (parse_timezone jiff timezone) (\<lambda>zone.
     and_then (ok_or TimestampOutOfRange (from_millisecond jiff instant)) (\<lambda>timestamp.
     search_days jiff self zone timestamp MAXIMUM_CALENDAR_SEARCH_DAYS (local_date (to_zoned jiff zone timestamp))))"

end
