(* ===== verification/CronParse.thy ===== *)
theory CronParse
  imports Cron
begin

text \<open>
  Cron expressions as the parser of \<open>Cron\<close> accepts them: parsing always returns, the fields of an accepted
  expression are within the bounds of their kinds, a field selects exactly the values that one of its items denotes, and
  the selected minutes of a day keep the minimum distance.
\<close>

section \<open>Values of an item\<close>

text \<open>The values that the loop over an item visits.\<close>

definition visited :: "u16 \<Rightarrow> u16 \<Rightarrow> u16 \<Rightarrow> nat set" where
  "visited v stop step = {n. \<exists>j. n = unat v + j * unat step \<and> n \<le> unat stop}"

definition selects :: "FieldKind \<Rightarrow> nat \<Rightarrow> u16 \<Rightarrow> bool" where
  "selects kind n x \<longleftrightarrow> normalize_value (of_nat n) kind = Ok x"

lemma visited_above: "\<not> v \<le> stop \<Longrightarrow> visited v stop step = {}"
  by (auto simp: visited_def word_le_nat_alt)

lemma visited_last:
  assumes "v \<le> stop" "checked_add v step = None"
  shows "visited v stop step = {unat v}"
proof -
  have "65536 \<le> unat v + unat step" using assms(2) by (simp add: checked_simps)
  moreover have "unat stop < 65536" using unsigned_less[of stop, where 'a = nat] by simp
  ultimately have far: "unat stop < unat v + unat step" by simp
  have "j = 0" if "unat v + j * unat step \<le> unat stop" for j
    using that far by (cases j) auto
  then show ?thesis using assms(1) by (auto simp: visited_def word_le_nat_alt)
qed

lemma visited_step:
  assumes "v \<le> stop" "checked_add v step = Some after"
  shows "visited v stop step = insert (unat v) (visited after stop step)"
proof -
  have after: "unat after = unat v + unat step" using assms(2) by (simp add: checked_simps)
  have "n = unat v \<or> n \<in> visited after stop step" if visit: "n \<in> visited v stop step" for n
  proof -
    from visit obtain j where j: "n = unat v + j * unat step" "n \<le> unat stop" by (auto simp: visited_def)
    show ?thesis
    proof (cases j)
      case (Suc i)
      then have "n = unat after + i * unat step" using j after by simp
      then show ?thesis using j by (auto simp: visited_def)
    qed (use j in simp)
  qed
  moreover have "n \<in> visited v stop step" if "n \<in> visited after stop step" for n
  proof -
    from that obtain j where "n = unat after + j * unat step" "n \<le> unat stop" by (auto simp: visited_def)
    then have "n = unat v + Suc j * unat step" "n \<le> unat stop" using after by simp_all
    then show ?thesis unfolding visited_def by blast
  qed
  moreover have "unat v \<in> visited v stop step"
    using assms(1) by (auto simp: visited_def word_le_nat_alt intro!: exI[of _ 0])
  ultimately show ?thesis by blast
qed

lemma normalize_bounds:
  assumes "normalize_value v kind = Ok x"
  shows "fst (bounds kind) \<le> x" "x \<le> snd (bounds kind)"
  using assms by (cases kind; auto simp: normalize_value_def split: if_splits)+

lemma bounds_narrow: "snd (bounds kind) < 60"
  by (cases kind) simp_all

lemma offset_narrow:
  assumes "fst (bounds kind) \<le> x" "x \<le> snd (bounds kind)"
  shows "unat (x - fst (bounds kind)) < 64"
proof -
  have "unat (x - fst (bounds kind)) \<le> unat x" using assms(1) by (simp add: unat_sub)
  moreover have "x < 60" using assms(2) bounds_narrow[of kind] by simp
  then have "unat x < 60" by (simp add: word_less_nat_alt)
  ultimately show ?thesis by simp
qed

section \<open>The loop over an item\<close>

lemma mark_stop: "\<not> v \<le> stop \<Longrightarrow> mark_values kind v stop step marked = Some (Ok marked)"
  by (subst mark_values.simps) simp

lemma mark_error:
  "v \<le> stop \<Longrightarrow> normalize_value v kind = Err e \<Longrightarrow> mark_values kind v stop step marked = Some (Err e)"
  by (subst mark_values.simps) simp

lemma mark_last:
  "v \<le> stop \<Longrightarrow> normalize_value v kind = Ok n \<Longrightarrow> checked_add v step = None \<Longrightarrow>
   mark_values kind v stop step marked = Some (Ok (or marked (push_bit (unat (n - fst (bounds kind))) 1)))"
  by (subst mark_values.simps) simp

lemma mark_next:
  "v \<le> stop \<Longrightarrow> normalize_value v kind = Ok n \<Longrightarrow> checked_add v step = Some after \<Longrightarrow>
   mark_values kind v stop step marked =
     mark_values kind after stop step (or marked (push_bit (unat (n - fst (bounds kind))) 1))"
  by (subst mark_values.simps) simp

lemma mark_induct [consumes 1, case_names above error last step]:
  assumes "0 < (step :: u16)"
    and "\<And>v m. \<not> v \<le> stop \<Longrightarrow> P v m"
    and "\<And>v m e. v \<le> stop \<Longrightarrow> normalize_value v kind = Err e \<Longrightarrow> P v m"
    and "\<And>v m n. v \<le> stop \<Longrightarrow> normalize_value v kind = Ok n \<Longrightarrow> checked_add v step = None \<Longrightarrow> P v m"
    and "\<And>v m n after. v \<le> stop \<Longrightarrow> normalize_value v kind = Ok n \<Longrightarrow> checked_add v step = Some after \<Longrightarrow>
      P after (or m (push_bit (unat (n - fst (bounds kind))) 1)) \<Longrightarrow> P v m"
  shows "P v (m :: u64)"
proof (induction "Suc (unat stop) - unat v" arbitrary: v m rule: less_induct)
  case less
  show ?case
  proof (cases "v \<le> stop")
    case below: True
    show ?thesis
    proof (cases "normalize_value v kind")
      case (Inr n)
      show ?thesis
      proof (cases "checked_add v step")
        case (Some after)
        have "0 < unat step" using assms(1) by (simp add: word_less_nat_alt)
        moreover have "unat after = unat v + unat step" using Some by (simp add: checked_simps)
        ultimately have "Suc (unat stop) - unat after < Suc (unat stop) - unat v"
          using below by (simp add: word_le_nat_alt)
        then show ?thesis by (intro assms(5)[OF below Inr Some] less)
      qed (rule assms(4)[OF below Inr])
    qed (rule assms(3)[OF below])
  qed (rule assms(2))
qed

lemma mark_returns: "0 < step \<Longrightarrow> \<exists>r. mark_values kind v stop step marked = Some r"
  by (induction v marked rule: mark_induct[where kind = kind and stop = stop])
     (simp_all add: mark_stop mark_error mark_last mark_next)

lemma bit_mark:
  assumes "normalize_value v kind = Ok n"
  shows "bit (or m (2 ^ unat (n - fst (bounds kind))) :: u64) i \<longleftrightarrow>
    bit m i \<or> i = unat (n - fst (bounds kind))"
  using offset_narrow[OF normalize_bounds[OF assms]]
  by (auto simp: bit_or_iff bit_exp_iff)

lemma mark_bits:
  assumes "0 < step"
  shows "mark_values kind v stop step marked = Some (Ok m) \<Longrightarrow>
    bit m i \<longleftrightarrow> bit marked i \<or>
      (\<exists>n \<in> visited v stop step. \<exists>x. selects kind n x \<and> i = unat (x - fst (bounds kind)))"
  using assms
proof (induction v marked rule: mark_induct[where kind = kind and stop = stop])
  case (above v marked)
  then show ?case by (simp add: mark_stop visited_above)
next
  case (last v marked n)
  then have "m = or marked (2 ^ unat (n - fst (bounds kind)))" by (simp add: mark_last)
  with last show ?case by (simp add: bit_mark visited_last selects_def)
next
  case (step v marked n after)
  then show ?case by (auto simp: mark_next bit_mark visited_step selects_def)
qed (simp add: mark_error)

section \<open>Fields\<close>

text \<open>What one item of a field denotes.\<close>

definition item_selects :: "FieldKind \<Rightarrow> utext \<Rightarrow> u16 \<Rightarrow> bool" where
  "item_selects kind item x \<longleftrightarrow>
     (\<exists>base step stepped start stop.
        split_step item (snd (bounds kind) - fst (bounds kind) + 1) = Ok (base, step, stepped) \<and>
        parse_base base kind stepped = Ok (start, stop) \<and> (\<exists>n \<in> visited start stop step. selects kind n x))"

lemma split_step_pos: "split_step item limit = Ok (base, step, stepped) \<Longrightarrow> 0 < step"
  by (auto simp: split_step_def split: option.splits if_splits)

lemma items_return: "\<exists>r. parse_items kind items marked = Some r"
proof (induction items arbitrary: marked)
  case (Cons item items)
  show ?case
  proof (cases "split_step item (snd (bounds kind) - fst (bounds kind) + 1)")
    case (Inr split)
    obtain base step stepped where split: "split = (base, step, stepped)" by (cases split)
    from Inr have "0 < step" unfolding split by (rule split_step_pos)
    then show ?thesis
      using mark_returns[of step kind] Cons Inr split
      by (auto split: sum.splits option.splits) (metis not_None_eq old.sum.exhaust)
  qed simp
qed simp

lemma items_bits:
  "parse_items kind items marked = Some (Ok m) \<Longrightarrow>
   bit m i \<longleftrightarrow> bit marked i \<or> (\<exists>item \<in> set items. \<exists>x. item_selects kind item x \<and> i = unat (x - fst (bounds kind)))"
proof (induction items arbitrary: marked)
  case (Cons item items)
  from Cons.prems obtain base step stepped start stop m' where
    item: "split_step item (snd (bounds kind) - fst (bounds kind) + 1) = Ok (base, step, stepped)"
      "parse_base base kind stepped = Ok (start, stop)"
    and mark: "mark_values kind start stop step marked = Some (Ok m')"
    and rest: "parse_items kind items m' = Some (Ok m)"
    by (auto split: if_splits sum.splits option.splits prod.splits)
  have "item_selects kind item x \<longleftrightarrow> (\<exists>n \<in> visited start stop step. selects kind n x)" for x
    using item by (auto simp: item_selects_def)
  then show ?case
    using Cons.IH[OF rest] mark_bits[OF split_step_pos[OF item(1)] mark, of i] by auto
qed simp

lemma field_returns: "\<exists>r. parse_field source kind = Some r"
  using items_return[of kind "split_char 44 source" 0]
  by (auto simp: parse_field_def split: sum.splits)

lemma and_shift: "k < 64 \<Longrightarrow> and b (push_bit k 1) \<noteq> (0 :: u64) \<longleftrightarrow> bit b k"
  unfolding bit_eq_iff[of "and b (push_bit k 1)" 0] by (auto simp: bit_and_iff bit_exp_iff)

lemma item_bounds: "item_selects kind item x \<Longrightarrow> fst (bounds kind) \<le> x \<and> x \<le> snd (bounds kind)"
  by (auto simp: item_selects_def selects_def dest: normalize_bounds)

lemma offset_inj: "unat (x - a) = unat (y - a) \<Longrightarrow> x = (y :: u16)"
  by (metis diff_add_cancel word_unat_eq_iff)

lemma field_cases:
  assumes "parse_field source kind = Some (Ok f)"
  obtains m where "parse_items kind (split_char 44 source) 0 = Some (Ok m)" "m \<noteq> 0"
    "f = \<lparr>bits = m, field_minimum = fst (bounds kind), field_maximum = snd (bounds kind)\<rparr>"
  using assms by (auto simp: parse_field_def split: if_splits option.splits sum.splits)

lemma field_contains:
  assumes "parse_field source kind = Some (Ok f)"
  shows "Field_contains f x \<longleftrightarrow> (\<exists>item \<in> set (split_char 44 source). item_selects kind item x)"
proof -
  from assms obtain m where m: "parse_items kind (split_char 44 source) 0 = Some (Ok m)"
    and f: "f = \<lparr>bits = m, field_minimum = fst (bounds kind), field_maximum = snd (bounds kind)\<rparr>"
    by (rule field_cases)
  have "Field_contains f x \<longleftrightarrow> fst (bounds kind) \<le> x \<and> x \<le> snd (bounds kind) \<and> bit m (unat (x - fst (bounds kind)))"
    using offset_narrow[of kind x] and_shift by (auto simp: Field_contains_def f)
  then show ?thesis using items_bits[OF m] item_bounds by (auto dest!: offset_inj)
qed

text \<open>A field of its kind: its bounds are those of the kind, it selects something, and it has no other bits.\<close>

definition field_ok :: "FieldKind \<Rightarrow> Field \<Rightarrow> bool" where
  "field_ok kind f \<longleftrightarrow> (field_minimum f, field_maximum f) = bounds kind \<and> (\<exists>x. Field_contains f x) \<and>
     (\<forall>i. bit (bits f) i \<longleftrightarrow> (\<exists>x. Field_contains f x \<and> i = unat (x - field_minimum f)))"

lemma field_kind:
  assumes "parse_field source kind = Some (Ok f)"
  shows "field_ok kind f"
proof -
  from assms obtain m where m: "parse_items kind (split_char 44 source) 0 = Some (Ok m)" "m \<noteq> 0"
    and f: "f = \<lparr>bits = m, field_minimum = fst (bounds kind), field_maximum = snd (bounds kind)\<rparr>"
    by (rule field_cases)
  have bits: "bit m i \<longleftrightarrow> (\<exists>x. Field_contains f x \<and> i = unat (x - fst (bounds kind)))" for i
    using items_bits[OF m(1), of i] field_contains[OF assms] by auto
  from m(2) obtain i where "bit m i" by (auto simp: bit_eq_iff)
  with bits show ?thesis by (auto simp: field_ok_def f)
qed

section \<open>Minutes of a day\<close>

definition selected_minute :: "CronExpression \<Rightarrow> nat \<Rightarrow> bool" where
  "selected_minute e t \<longleftrightarrow> t < 1440 \<and> Field_contains (hours e) (of_nat (t div 60)) \<and>
     Field_contains (minutes e) (of_nat (t mod 60))"

lemma upt_hours: "[0..<k * 60] = concat (map (\<lambda>h. map (\<lambda>m. h * 60 + m) [0..<60]) [0..<k])"
proof (induction k)
  case (Suc k)
  have "[0..<Suc k * 60] = [0..<k * 60] @ [k * 60..<k * 60 + 60]"
    using upt_add_eq_append[of 0 "k * 60" 60] by (simp add: add.commute)
  moreover have "[k * 60..<k * 60 + 60] = map (\<lambda>m. k * 60 + m) [0..<60]"
    using map_add_upt[of "k * 60" 60] by (simp add: add.commute)
  ultimately show ?case using Suc by simp
qed simp

lemma daily_times_eq: "daily_times e = map of_nat (filter (selected_minute e) [0..<1440])"
proof -
  have row: "filter (\<lambda>m. selected_minute e (h * 60 + m)) [0..<60] =
      (if Field_contains (hours e) (of_nat h) then filter (\<lambda>m. Field_contains (minutes e) (of_nat m)) [0..<60] else [])"
    if "h < 24" for h
    using that by (auto simp: selected_minute_def filter_empty_conv intro!: filter_cong)
  have "[0..<1440] = concat (map (\<lambda>h. map (\<lambda>m. h * 60 + m) [0..<60]) [0..<24])"
    using upt_hours[of 24] by simp
  then show ?thesis
    by (simp only: daily_times_def filter_concat map_concat map_map o_def)
       (auto simp: row filter_map o_def intro!: arg_cong[where f = concat])
qed

lemma window_apart:
  assumes "5 \<le> window_minimum (map of_nat ts) limit" "sorted_wrt (<) ts" "list_all (\<lambda>t. t < 1440) ts"
  shows "sorted_wrt (\<lambda>a b. a + 5 \<le> b) ts \<and> 5 \<le> limit"
  using assms
proof (induction ts arbitrary: limit rule: induct_list012)
  case (3 a b rest)
  have "sorted_wrt (<) (b # rest)" "list_all (\<lambda>t. t < 1440) (b # rest)" "a < b" "b < 1440"
    using "3.prems"(2,3) by simp_all
  moreover have "5 \<le> window_minimum (map of_nat (b # rest)) (min limit (of_nat b - of_nat a))"
    using "3.prems"(1) by (simp only: list.map window_minimum.simps)
  ultimately have IH: "sorted_wrt (\<lambda>a b. a + 5 \<le> b) (b # rest)" "5 \<le> min limit (of_nat b - of_nat a :: u16)"
    using "3.IH"(2) by blast+
  have "(of_nat b - of_nat a :: u16) = of_nat (b - a)" using \<open>a < b\<close> by (simp only: of_nat_diff less_imp_le)
  then have "5 \<le> (of_nat (b - a) :: u16)" using IH(2) by (simp only: min.bounded_iff)
  then have "5 \<le> unat (of_nat (b - a) :: u16)" unfolding word_le_nat_alt by simp
  moreover have "unat (of_nat (b - a) :: u16) = b - a" using \<open>b < 1440\<close> by (intro unat_of_nat_small) simp
  ultimately have "a + 5 \<le> b" using \<open>a < b\<close> by linarith
  moreover from this IH(1) have "a + 5 \<le> c" if "c \<in> set rest" for c
    using that by auto
  ultimately show ?case using IH by simp
qed auto

lemma interval_accepted: "cron_interval_rejection n = None \<longleftrightarrow> 5 \<le> n"
  by (auto simp: cron_interval_rejection_def MINIMUM_CRON_INTERVAL_MINUTES_def)

lemma apart_between:
  assumes "sorted_wrt (\<lambda>a b. a + 5 \<le> (b :: nat)) ts" "t \<in> set ts" "u \<in> set ts" "t < u"
  shows "t + 5 \<le> u" "hd ts \<le> t" "u \<le> last ts"
proof -
  show "t + 5 \<le> u" using assms by (induction ts) auto
  show "hd ts \<le> t" using assms(1,2) by (cases ts) auto
  show "u \<le> last ts" using assms(1,3) by (cases ts rule: rev_cases) (auto simp: sorted_wrt_append)
qed

lemma wrapped_interval:
  assumes "a \<le> b" "b < 1440" "5 \<le> 1440 - of_nat b + (of_nat a :: u16)"
  shows "b - a \<le> 1435"
proof -
  define n where "n = 1440 - b + a"
  have "1440 - of_nat b + (of_nat a :: u16) = of_nat n" using assms by (simp add: n_def)
  then have "5 \<le> unat (of_nat n :: u16)" using assms(3) by (simp add: word_le_nat_alt)
  moreover have "n < 65536" using assms(1,2) by (simp add: n_def)
  then have "unat (of_nat n :: u16) = n" by (intro unat_of_nat_small) simp
  ultimately have "5 \<le> n" by simp
  then show ?thesis using assms(1,2) by (simp add: n_def)
qed

lemma interval_apart:
  assumes "5 \<le> minimum_daily_interval e" "selected_minute e t" "selected_minute e u" "t < u"
  shows "5 \<le> u - t \<and> u - t \<le> 1435"
proof -
  define ts where "ts = filter (selected_minute e) [0..<1440]"
  have mem: "t \<in> set ts" "u \<in> set ts" using assms(2,3) by (auto simp: ts_def selected_minute_def)
  then have ends: "first_opt (daily_times e) = Some (of_nat (hd ts))" "last_opt (daily_times e) = Some (of_nat (last ts))"
    by (cases ts; simp add: daily_times_eq ts_def[symmetric] last_opt_def last_map)+
  have interval: "5 \<le> window_minimum (map of_nat ts) 1440" "5 \<le> 1440 - of_nat (last ts) + (of_nat (hd ts) :: u16)"
    using assms(1) ends by (simp_all add: minimum_daily_interval_def daily_times_eq ts_def[symmetric])
  have "sorted_wrt (<) ts" "list_all (\<lambda>t. t < 1440) ts"
    by (simp_all add: ts_def sorted_wrt_filter list_all_iff)
  then have "sorted_wrt (\<lambda>a b. a + 5 \<le> b) ts" using window_apart[OF interval(1)] by simp
  note between = apart_between[OF this mem assms(4)]
  have "last ts \<in> set ts" using mem(1) by (intro last_in_set) auto
  then have "last ts < 1440" by (simp add: ts_def)
  then have "last ts - hd ts \<le> 1435" using between by (intro wrapped_interval interval(2)) auto
  with between show ?thesis by linarith
qed

section \<open>Expressions\<close>

lemma parse_fields:
  assumes "CronExpression_parse source = Some (Ok e)"
  obtains minute hour calendar_day month weekday where
    "split_ascii_whitespace source = [minute, hour, calendar_day, month, weekday]"
    "parse_field minute Minute = Some (Ok (minutes e))" "parse_field hour Hour = Some (Ok (hours e))"
    "parse_field calendar_day DayOfMonth = Some (Ok (days_of_month e))" "parse_field month Month = Some (Ok (months e))"
    "parse_field weekday DayOfWeek = Some (Ok (days_of_week e))" "exact e = source" "5 \<le> minimum_daily_interval e"
proof -
  from assms obtain minute hour calendar_day month weekday where
    words: "split_ascii_whitespace source = [minute, hour, calendar_day, month, weekday]"
    unfolding CronExpression_parse_def and_then_opt_eq_Ok by (auto split: list.splits)
  from assms obtain ms hs ds mos ws where fields:
      "parse_field minute Minute = Some (Ok ms)" "parse_field hour Hour = Some (Ok hs)"
      "parse_field calendar_day DayOfMonth = Some (Ok ds)" "parse_field month Month = Some (Ok mos)"
      "parse_field weekday DayOfWeek = Some (Ok ws)"
    and built: "(let x = \<lparr>exact = source, minutes = ms, hours = hs, days_of_month = ds, months = mos, days_of_week = ws\<rparr>
       in if cron_interval_rejection (minimum_daily_interval x) \<noteq> None
          then Some (Err IntervalTooShort) else Some (Ok x)) = Some (Ok e)"
    unfolding CronExpression_parse_def and_then_opt_eq_Ok words list.case by blast
  define x where "x = \<lparr>exact = source, minutes = ms, hours = hs, days_of_month = ds, months = mos, days_of_week = ws\<rparr>"
  from built have "e = x \<and> cron_interval_rejection (minimum_daily_interval x) = None"
    unfolding Let_def x_def[symmetric] by (cases "cron_interval_rejection (minimum_daily_interval x)") simp_all
  then have interval: "5 \<le> minimum_daily_interval e" and "e = x" by (simp_all add: interval_accepted)
  then have e: "minutes e = ms" "hours e = hs" "days_of_month e = ds" "months e = mos" "days_of_week e = ws" "exact e = source"
    by (simp_all add: x_def)
  show thesis by (rule that[OF words]) (simp_all only: e fields interval)
qed

text \<open>C20. Parsing a cron expression always returns, whatever the text: the loop over the values of an item ends because
  an accepted step is positive.\<close>

theorem cron_parse_returns: "\<exists>r. CronExpression_parse source = Some r"
proof -
  have "\<exists>r. and_then_opt (parse_field word kind) f = Some r" if "\<And>x. \<exists>r. f x = Some r" for f :: "Field \<Rightarrow> (CronExpression, ScheduleError) result option" and word kind
    using field_returns[of word kind] and_then_opt_returns[of f] that by auto
  then show ?thesis
    unfolding CronExpression_parse_def Let_def
    by (intro and_then_opt_returns) (auto split: list.splits)
qed

text \<open>A sample expression: six o'clock on the first of January and on Sundays of January.\<close>

definition sample_expression :: CronExpression where
  "sample_expression = \<lparr>exact = chars ''0 6 1 1 7'', minutes = \<lparr>bits = 1, field_minimum = 0, field_maximum = 59\<rparr>,
     hours = \<lparr>bits = 64, field_minimum = 0, field_maximum = 23\<rparr>,
     days_of_month = \<lparr>bits = 1, field_minimum = 1, field_maximum = 31\<rparr>,
     months = \<lparr>bits = 1, field_minimum = 1, field_maximum = 12\<rparr>,
     days_of_week = \<lparr>bits = 1, field_minimum = 0, field_maximum = 6\<rparr>\<rparr>"

lemmas parse_eval = parse_field_def split_step_def parse_base_def parse_value_def parse_word_def is_digit_def decimal_def
  normalize_value_def checked_add_def chars_def

lemma two_above_one: "\<not> 2 \<le> (1 :: u16)"
  by (simp add: word_le_nat_alt)

lemma sample_fields:
  "parse_field [48] Minute = Some (Ok (minutes sample_expression))"
  "parse_field [54] Hour = Some (Ok (hours sample_expression))"
  "parse_field [49] DayOfMonth = Some (Ok (days_of_month sample_expression))"
  "parse_field [49] Month = Some (Ok (months sample_expression))"
  "parse_field [55] DayOfWeek = Some (Ok (days_of_week sample_expression))"
  by (simp_all add: parse_eval sample_expression_def two_above_one mark_values.simps[of _ 0] mark_values.simps[of _ 1]
      mark_values.simps[of _ 2] mark_values.simps[of _ 6] mark_values.simps[of _ 7])

lemma filter_upt_single: "filter (\<lambda>t. t = x) [0..<n] = (if x < n then [x] else [])"
  by (induction n) auto

lemma sample_contains:
  "m < 60 \<Longrightarrow> Field_contains (minutes sample_expression) (of_nat m) \<longleftrightarrow> m = 0"
  "h < 24 \<Longrightarrow> Field_contains (hours sample_expression) (of_nat h) \<longleftrightarrow> h = 6"
proof -
  assume "m < 60"
  then have "m \<le> 59" "unat (of_nat m :: u16) = m" by (simp_all add: unat_of_nat_small)
  then show "Field_contains (minutes sample_expression) (of_nat m) \<longleftrightarrow> m = 0"
    using and_shift[of m 1] by (simp add: Field_contains_def sample_expression_def word_le_nat_alt bit_1_iff)
next
  assume "h < 24"
  then have "h \<le> 23" "unat (of_nat h :: u16) = h" by (simp_all add: unat_of_nat_small)
  moreover have "bit (64 :: u64) h \<longleftrightarrow> h = 6" using bit_exp_iff[of 6 h, where 'a = u64] \<open>h < 24\<close> by auto
  ultimately show "Field_contains (hours sample_expression) (of_nat h) \<longleftrightarrow> h = 6"
    using and_shift[of h 64] by (simp add: Field_contains_def sample_expression_def word_le_nat_alt)
qed

lemma sample_minute: "selected_minute sample_expression t \<longleftrightarrow> t = 360"
proof (cases "t < 1440")
  case True
  then have "selected_minute sample_expression t \<longleftrightarrow> t mod 60 = 0 \<and> t div 60 = 6"
    by (simp add: selected_minute_def sample_contains) auto
  then show ?thesis using div_mult_mod_eq[of t 60] by auto
qed (auto simp: selected_minute_def)

lemma sample_interval: "minimum_daily_interval sample_expression = 1440"
proof -
  have "selected_minute sample_expression = (\<lambda>t. t = 360)" by (simp add: fun_eq_iff sample_minute)
  then have "daily_times sample_expression = [360]" by (simp add: daily_times_eq filter_upt_single)
  then show ?thesis by (simp add: minimum_daily_interval_def last_opt_def)
qed

lemma sample_text:
  "validate_expression_text (chars ''0 6 1 1 7'') = Ok ()"
  "split_ascii_whitespace (chars ''0 6 1 1 7'') = [[48], [54], [49], [49], [55]]"
  by (simp_all add: validate_expression_text_def cron_expression_byte_rejection_def MAX_CRON_EXPRESSION_BYTES_def
      utf8_length_def is_ascii_def is_alphanumeric_def is_digit_def trim_def is_whitespace_def split_ascii_whitespace_def chars_def)

lemma sample_parse: "CronExpression_parse (chars ''0 6 1 1 7'') = Some (Ok sample_expression)"
proof -
  have built: "\<lparr>exact = chars ''0 6 1 1 7'', minutes = minutes sample_expression, hours = hours sample_expression,
      days_of_month = days_of_month sample_expression, months = months sample_expression,
      days_of_week = days_of_week sample_expression\<rparr> = sample_expression"
    by (simp add: sample_expression_def)
  have accepted: "cron_interval_rejection (minimum_daily_interval sample_expression) = None"
    by (simp only: interval_accepted sample_interval) simp
  show ?thesis
    unfolding CronExpression_parse_def sample_text list.case sample_fields and_then_opt_def option.case sum.case Let_def built
      accepted by (simp only: simp_thms if_False)
qed



text \<open>C19. The minutes that an accepted expression selects keep their distance: any two of them on the clock are at
  least five minutes apart, around midnight included, and the expression selects at least one.\<close>

theorem accepted_minutes_are_apart:
  assumes "CronExpression_parse source = Some (Ok e)"
  shows "(\<exists>t. selected_minute e t) \<and>
    (\<forall>t u. selected_minute e t \<and> selected_minute e u \<and> t < u \<longrightarrow>
       unat MINIMUM_CRON_INTERVAL_MINUTES \<le> u - t \<and> u - t \<le> 1440 - unat MINIMUM_CRON_INTERVAL_MINUTES)"
proof -
  from assms have fields: "field_ok Minute (minutes e)" "field_ok Hour (hours e)" and interval: "5 \<le> minimum_daily_interval e"
    by (auto elim!: parse_fields dest: field_kind)
  from fields obtain m h where selected: "Field_contains (minutes e) m" "Field_contains (hours e) h"
    by (auto simp: field_ok_def)
  then have "unat m < 60" "unat h < 24"
    using fields by (auto simp: Field_contains_def field_ok_def word_le_nat_alt)
  then have "selected_minute e (unat h * 60 + unat m)"
    using selected by (simp add: selected_minute_def)
  then show ?thesis using interval_apart[OF interval] by (auto simp: MINIMUM_CRON_INTERVAL_MINUTES_def)
qed

theorem accepted_minutes_are_apart_witness:
  "CronExpression_parse (chars ''0 6 1 1 7'') = Some (Ok sample_expression) \<and> (\<exists>t. selected_minute sample_expression t)"
  using accepted_minutes_are_apart[OF sample_parse] sample_parse by simp

end
