(* ===== verification/CronNext.thy ===== *)
theory CronNext
  imports CronParse
begin

text \<open>
  The next occurrence of a cron expression, \<open>CronExpression::next_after\<close>: under the documented behaviour of the
  calendar library it is the least matching instant strictly after the given one.
\<close>

section \<open>What the calendar library promises\<close>

text \<open>A timestamp that denotes a whole number of milliseconds.\<close>

definition instant :: "'z Jiff \<Rightarrow> Timestamp \<Rightarrow> bool" where
  "instant jiff u \<longleftrightarrow> (\<exists>i. from_millisecond jiff i = Some u)"

text \<open>A local minute in a gap is never shown, an unambiguous one at exactly one instant, a repeated one at exactly two.
  Milliseconds convert exactly, the clock has 24 hours and 60 minutes, \<open>tomorrow\<close> is the next day, and the local
  date never goes backwards.\<close>

definition local_laws :: "'z Jiff \<Rightarrow> 'z \<Rightarrow> LocalTime \<Rightarrow> bool" where
  "local_laws jiff zone c \<longleftrightarrow>
     (case ambiguous_offset jiff zone c of
        Gap \<Rightarrow> \<forall>u. instant jiff u \<longrightarrow> to_zoned jiff zone u \<noteq> c
      | Unambiguous \<Rightarrow> \<forall>t. unambiguous jiff zone c = Some t \<longrightarrow>
          instant jiff t \<and> (\<forall>u. instant jiff u \<longrightarrow> to_zoned jiff zone u = c \<longleftrightarrow> u = t)
      | Fold \<Rightarrow> \<forall>s t. earlier jiff zone c = Some s \<and> later jiff zone c = Some t \<longrightarrow>
          instant jiff s \<and> instant jiff t \<and> (\<forall>u. instant jiff u \<longrightarrow> to_zoned jiff zone u = c \<longleftrightarrow> u = s \<or> u = t))"

definition calendar_laws :: "'z Jiff \<Rightarrow> 'z \<Rightarrow> bool" where
  "calendar_laws jiff zone \<longleftrightarrow>
     (\<forall>date hour minute. local_laws jiff zone (local_minute_of date hour minute)) \<and>
     (\<forall>i u. from_millisecond jiff i = Some u \<longrightarrow> u = i * 1000000 \<and> as_millisecond jiff u = i) \<and>
     (\<forall>u. instant jiff u \<longrightarrow> 0 \<le> local_hour (to_zoned jiff zone u) \<and> local_hour (to_zoned jiff zone u) < 24 \<and>
        0 \<le> local_minute (to_zoned jiff zone u) \<and> local_minute (to_zoned jiff zone u) < 60) \<and>
     (\<forall>u v. instant jiff u \<and> instant jiff v \<and> u \<le> v \<longrightarrow>
        local_date (to_zoned jiff zone u) \<le> local_date (to_zoned jiff zone v)) \<and>
     (\<forall>date date'. tomorrow jiff date = Some date' \<longrightarrow> date' = date + 1)"

lemma calendar_lawsD:
  assumes "calendar_laws jiff zone"
  shows "local_laws jiff zone (local_minute_of date hour minute)"
    and "from_millisecond jiff i = Some u \<Longrightarrow> u = i * 1000000 \<and> as_millisecond jiff u = i"
    and "instant jiff u \<Longrightarrow> 0 \<le> local_hour (to_zoned jiff zone u) \<and> local_hour (to_zoned jiff zone u) < 24 \<and>
        0 \<le> local_minute (to_zoned jiff zone u) \<and> local_minute (to_zoned jiff zone u) < 60"
    and "instant jiff u \<Longrightarrow> instant jiff v \<Longrightarrow> u \<le> v \<Longrightarrow>
        local_date (to_zoned jiff zone u) \<le> local_date (to_zoned jiff zone v)"
    and "tomorrow jiff date = Some date' \<Longrightarrow> date' = date + 1"
  using assms unfolding calendar_laws_def by blast+

section \<open>The least candidate of a day\<close>

definition least_of :: "Timestamp set \<Rightarrow> Timestamp option \<Rightarrow> bool" where
  "least_of S best = (case best of None \<Rightarrow> S = {} | Some b \<Rightarrow> b \<in> S \<and> (\<forall>u \<in> S. b \<le> u))"

lemma least_retain:
  "least_of S best \<Longrightarrow> least_of (S \<union> {u. u = c \<and> after < u}) (retain_candidate c after best)"
  by (auto simp: least_of_def retain_candidate_def split: option.splits)

text \<open>The instants after a given one at which the local clock shows a minute.\<close>

definition shown :: "'z Jiff \<Rightarrow> 'z \<Rightarrow> Timestamp \<Rightarrow> LocalTime \<Rightarrow> Timestamp set" where
  "shown jiff zone after c = {u. instant jiff u \<and> to_zoned jiff zone u = c \<and> after < u}"

lemma retain_minute_least:
  assumes laws: "calendar_laws jiff zone" and best: "least_of S best"
    and step: "retain_minute jiff zone date after (hour, minute) best = Ok best'"
  shows "least_of (S \<union> shown jiff zone after (local_minute_of date hour minute)) best'"
proof (cases "ambiguous_offset jiff zone (local_minute_of date hour minute)")
  case Gap
  then have "shown jiff zone after (local_minute_of date hour minute) = {}"
    using calendar_lawsD(1)[OF laws, of date hour minute] by (auto simp: local_laws_def shown_def)
  with Gap step best show ?thesis by (simp add: retain_minute_def Let_def)
next
  case Unambiguous
  with step obtain t where t: "unambiguous jiff zone (local_minute_of date hour minute) = Some t"
      "best' = retain_candidate t after best"
    by (auto simp: retain_minute_def Let_def result_simps)
  then have "shown jiff zone after (local_minute_of date hour minute) = {u. u = t \<and> after < u}"
    using calendar_lawsD(1)[OF laws, of date hour minute] Unambiguous by (auto simp: local_laws_def shown_def)
  with best t show ?thesis by (simp add: least_retain)
next
  case Fold
  with step obtain s t where st: "earlier jiff zone (local_minute_of date hour minute) = Some s"
      "later jiff zone (local_minute_of date hour minute) = Some t"
      "best' = retain_candidate t after (retain_candidate s after best)"
    by (auto simp: retain_minute_def Let_def result_simps)
  then have "shown jiff zone after (local_minute_of date hour minute) =
      {u. u = s \<and> after < u} \<union> {u. u = t \<and> after < u}"
    using calendar_lawsD(1)[OF laws, of date hour minute] Fold by (auto simp: local_laws_def shown_def)
  with best st show ?thesis by (simp add: least_retain Un_assoc[symmetric])
qed

lemma retain_minutes_least:
  assumes laws: "calendar_laws jiff zone"
  shows "least_of S best \<Longrightarrow> try_fold (retain_minute jiff zone date after) ts best = Ok best' \<Longrightarrow>
    least_of (S \<union> (\<Union>(hour, minute) \<in> set ts. shown jiff zone after (local_minute_of date hour minute))) best'"
proof (induction ts arbitrary: S best)
  case (Cons time ts)
  obtain hour minute where time: "time = (hour, minute)" by (cases time)
  from Cons.prems(2) obtain b where b: "retain_minute jiff zone date after (hour, minute) best = Ok b"
      "try_fold (retain_minute jiff zone date after) ts b = Ok best'"
    by (auto simp: time result_simps)
  from Cons.IH[OF retain_minute_least[OF laws Cons.prems(1) b(1)] b(2)]
  show ?case by (simp add: time Un_assoc)
qed simp

lemma retain_minutes_error:
  "try_fold (retain_minute jiff zone date after) ts best = Err e \<Longrightarrow> e = TimestampOutOfRange"
proof (induction ts arbitrary: best)
  case (Cons time ts)
  have "retain_minute jiff zone date after time best = Err e \<Longrightarrow> e = TimestampOutOfRange"
    by (cases time) (auto simp: retain_minute_def Let_def and_then_eq_Inl split: AmbiguousOffset.splits elim!: ok_or.elims)
  with Cons show ?case by (auto simp: and_then_eq_Inl)
qed simp

text \<open>The matching instants of a day after a given one.\<close>

definition hits :: "'z Jiff \<Rightarrow> 'z \<Rightarrow> CronExpression \<Rightarrow> Timestamp \<Rightarrow> bool" where
  "hits jiff zone self u \<longleftrightarrow> instant jiff u \<and>
     local_second (to_zoned jiff zone u) = 0 \<and> local_nanosecond (to_zoned jiff zone u) = 0 \<and>
     Field_contains (minutes self) (of_int (local_minute (to_zoned jiff zone u))) \<and>
     Field_contains (hours self) (of_int (local_hour (to_zoned jiff zone u))) \<and>
     matches_date jiff self (local_date (to_zoned jiff zone u))"

lemma selected_times_set:
  "(hour, minute) \<in> set (selected_times self) \<longleftrightarrow> hour < 24 \<and> minute < 60 \<and>
     Field_contains (hours self) (of_nat hour) \<and> Field_contains (minutes self) (of_nat minute)"
  by (auto simp: selected_times_def)

lemma hits_shown:
  assumes laws: "calendar_laws jiff zone" and date: "matches_date jiff self date"
  shows "(\<Union>(hour, minute) \<in> set (selected_times self). shown jiff zone after (local_minute_of date hour minute)) =
    {u. hits jiff zone self u \<and> local_date (to_zoned jiff zone u) = date \<and> after < u}"
proof -
  have "\<exists>hour minute. (hour, minute) \<in> set (selected_times self) \<and> to_zoned jiff zone u = local_minute_of date hour minute"
    if hit: "hits jiff zone self u" "local_date (to_zoned jiff zone u) = date" for u
  proof -
    let ?z = "to_zoned jiff zone u"
    have range: "0 \<le> local_hour ?z" "local_hour ?z < 24" "0 \<le> local_minute ?z" "local_minute ?z < 60"
      using calendar_lawsD(3)[OF laws, of u] hit(1) by (simp_all add: hits_def)
    then have "(nat (local_hour ?z), nat (local_minute ?z)) \<in> set (selected_times self)"
      using hit(1) by (simp add: selected_times_set hits_def nat_less_iff)
    moreover have "?z = local_minute_of date (nat (local_hour ?z)) (nat (local_minute ?z))"
      using hit range by (simp add: local_minute_of_def hits_def)
    ultimately show ?thesis by blast
  qed
  then show ?thesis
    using date by (fastforce simp: shown_def hits_def local_minute_of_def selected_times_set)
qed

lemma first_candidate_least:
  assumes laws: "calendar_laws jiff zone" and date: "matches_date jiff self date"
    and found: "first_candidate_on jiff self date zone after = Ok best"
  shows "least_of {u. hits jiff zone self u \<and> local_date (to_zoned jiff zone u) = date \<and> after < u} best"
  using retain_minutes_least[OF laws _ found[unfolded first_candidate_on_def], of "{}"] hits_shown[OF laws date, of after]
  by (simp add: least_of_def)

section \<open>The search over days\<close>

text \<open>No hit after an instant on the days from one date up to another.\<close>

definition quiet :: "'z Jiff \<Rightarrow> 'z \<Rightarrow> CronExpression \<Rightarrow> Timestamp \<Rightarrow> Date \<Rightarrow> Date \<Rightarrow> bool" where
  "quiet jiff zone self after a b \<longleftrightarrow>
     (\<forall>u. hits jiff zone self u \<and> after < u \<longrightarrow> \<not> (a \<le> local_date (to_zoned jiff zone u) \<and> local_date (to_zoned jiff zone u) < b))"

lemma quiet_day:
  assumes laws: "calendar_laws jiff zone"
    and none: "(if matches_date jiff self date then first_candidate_on jiff self date zone after else Ok None) = Ok None"
  shows "quiet jiff zone self after date (date + 1)"
proof -
  have "\<not> (hits jiff zone self u \<and> local_date (to_zoned jiff zone u) = date \<and> after < u)" for u
  proof (cases "matches_date jiff self date")
    case True
    then show ?thesis using first_candidate_least[OF laws True, of after None] none by (auto simp: least_of_def)
  qed (auto simp: hits_def)
  moreover have "a = date" if "date \<le> a" "a < date + 1" for a :: Date using that by simp
  ultimately show ?thesis unfolding quiet_def by blast
qed

lemma quiet_trans: "quiet jiff zone self after a b \<Longrightarrow> quiet jiff zone self after b c \<Longrightarrow> quiet jiff zone self after a c"
  unfolding quiet_def by (meson not_less)

lemma search_days_least:
  assumes laws: "calendar_laws jiff zone"
  shows "case search_days jiff self zone after days date of
      Inr m \<Rightarrow> \<exists>u date'. m = as_millisecond jiff u \<and> quiet jiff zone self after date date' \<and>
        least_of {v. hits jiff zone self v \<and> local_date (to_zoned jiff zone v) = date' \<and> after < v} (Some u)
    | Inl e \<Rightarrow> e = NoFutureMatch \<longrightarrow> quiet jiff zone self after date (date + int days)"
proof (induction days arbitrary: date)
  case (Suc days)
  let ?found = "if matches_date jiff self date then first_candidate_on jiff self date zone after else Ok None"
  show ?case
  proof (cases ?found)
    case (Inl e)
    then have "e = TimestampOutOfRange"
      by (auto simp: first_candidate_on_def dest: retain_minutes_error split: if_splits)
    then show ?thesis using Inl by simp
  next
    case (Inr found)
    show ?thesis
    proof (cases found)
      case (Some u)
      then have "matches_date jiff self date" "first_candidate_on jiff self date zone after = Ok (Some u)"
        using Inr by (simp_all split: if_splits)
      then have "least_of {v. hits jiff zone self v \<and> local_date (to_zoned jiff zone v) = date \<and> after < v} (Some u)"
        by (rule first_candidate_least[OF laws])
      moreover have "quiet jiff zone self after date date" by (auto simp: quiet_def)
      ultimately show ?thesis using Inr Some by (auto simp: search_days.simps)
    next
      case None
      have today: "quiet jiff zone self after date (date + 1)"
        using Inr None by (intro quiet_day[OF laws]) simp
      show ?thesis
      proof (cases "tomorrow jiff date")
        case (Some date')
        then have "date' = date + 1" by (rule calendar_lawsD(5)[OF laws])
        with Suc[of date'] today Inr None Some show ?thesis
          by (auto split: sum.splits dest: quiet_trans simp: add.assoc)
      qed (use Inr None in simp)
    qed
  qed
qed (simp add: quiet_def)

section \<open>The next occurrence\<close>

lemma matches_at_hits:
  assumes laws: "calendar_laws jiff zone" and zone: "parse_timezone jiff timezone = Ok zone"
  shows "matches_at jiff self k timezone = Ok True \<longleftrightarrow> (\<exists>u. from_millisecond jiff k = Some u \<and> hits jiff zone self u)"
proof (cases "from_millisecond jiff k")
  case (Some u)
  then have "instant jiff u" by (auto simp: instant_def)
  with calendar_lawsD(3)[OF laws this] Some zone show ?thesis
    by (auto simp: matches_at_def hits_def matches_components_def matches_date_def Let_def)
qed (simp add: matches_at_def zone)

lemma zone_parsed:
  "parse_timezone jiff timezone = Ok zone \<Longrightarrow> tz_get jiff timezone = Some zone"
  by (simp add: parse_timezone_def result_simps)

lemma next_after_cases:
  assumes "parse_timezone jiff timezone = Ok zone" "from_millisecond jiff i = Some t"
  shows "next_after jiff self i timezone =
    search_days jiff self zone t MAXIMUM_CALENDAR_SEARCH_DAYS (local_date (to_zoned jiff zone t))"
  using assms by (simp add: next_after_def)

lemma next_after_found:
  assumes laws: "calendar_laws jiff zone" and zone: "parse_timezone jiff timezone = Ok zone"
    and t: "from_millisecond jiff i = Some t" and found: "next_after jiff self i timezone = Ok m"
  shows "i < m" "matches_at jiff self m timezone = Ok True" "i < k \<Longrightarrow> k < m \<Longrightarrow> matches_at jiff self k timezone \<noteq> Ok True"
proof -
  let ?date = "\<lambda>u. local_date (to_zoned jiff zone u)"
  from found search_days_least[OF laws, of self t "?date t" MAXIMUM_CALENDAR_SEARCH_DAYS] obtain u date where
    m: "m = as_millisecond jiff u" and before: "quiet jiff zone self t (?date t) date"
    and least: "least_of {v. hits jiff zone self v \<and> ?date v = date \<and> t < v} (Some u)"
    by (auto simp: next_after_cases[OF zone t])
  from least have u: "hits jiff zone self u" "?date u = date" "t < u" by (simp_all add: least_of_def)
  then obtain j where j: "from_millisecond jiff j = Some u" by (auto simp: hits_def instant_def)
  have millis: "t = i * 1000000" "u = m * 1000000" "j = m"
    using calendar_lawsD(2)[OF laws t] calendar_lawsD(2)[OF laws j] m by auto
  then show "i < m" using u(3) by simp
  show "matches_at jiff self m timezone = Ok True"
    using u(1) j millis(3) by (auto simp: matches_at_hits[OF laws zone])
  show "matches_at jiff self k timezone \<noteq> Ok True" if k: "i < k" "k < m"
  proof
    assume "matches_at jiff self k timezone = Ok True"
    then obtain v where v: "from_millisecond jiff k = Some v" "hits jiff zone self v"
      by (auto simp: matches_at_hits[OF laws zone])
    then have order: "t < v" "v < u" using calendar_lawsD(2)[OF laws v(1)] millis k by auto
    have "instant jiff t" "instant jiff v" "instant jiff u" using t v(1) j by (auto simp: instant_def)
    then have dates: "?date t \<le> ?date v" "?date v \<le> ?date u" using order by (auto intro: calendar_lawsD(4)[OF laws])
    show False
    proof (cases "?date v = date")
      case True
      then have "u \<le> v" using least v(2) order by (auto simp: least_of_def)
      with order show False by simp
    next
      case False
      then show False using before dates v(2) order u(2) by (auto simp: quiet_def)
    qed
  qed
qed

lemma next_after_none:
  assumes laws: "calendar_laws jiff zone" and zone: "parse_timezone jiff timezone = Ok zone"
    and t: "from_millisecond jiff i = Some t" and none: "next_after jiff self i timezone = Err NoFutureMatch"
    and u: "from_millisecond jiff k = Some u" "i < k" "local_date (to_zoned jiff zone u) < local_date (to_zoned jiff zone t) + 3660"
  shows "matches_at jiff self k timezone \<noteq> Ok True"
proof -
  have "quiet jiff zone self t (local_date (to_zoned jiff zone t)) (local_date (to_zoned jiff zone t) + 3660)"
    using none search_days_least[OF laws, of self t "local_date (to_zoned jiff zone t)" MAXIMUM_CALENDAR_SEARCH_DAYS]
    by (simp add: next_after_cases[OF zone t] MAXIMUM_CALENDAR_SEARCH_DAYS_def)
  moreover have "t < u" using calendar_lawsD(2)[OF laws t] calendar_lawsD(2)[OF laws u(1)] u(2) by simp
  moreover have "local_date (to_zoned jiff zone t) \<le> local_date (to_zoned jiff zone u)"
    using t u(1) \<open>t < u\<close> by (intro calendar_lawsD(4)[OF laws]) (auto simp: instant_def)
  ultimately show ?thesis
    using u by (auto simp: matches_at_hits[OF laws zone] quiet_def)
qed

section \<open>Coordinated universal time\<close>

text \<open>A calendar in which the laws hold: a single zone without offset, from 1938 to 2001, with the civil calendar counted from
  the epoch.\<close>

definition utc_clock :: "Timestamp \<Rightarrow> LocalTime" where
  "utc_clock u = \<lparr>local_date = u div 86400000000000, local_hour = u div 3600000000000 mod 24,
     local_minute = u div 60000000000 mod 60, local_second = u div 1000000000 mod 60,
     local_nanosecond = u mod 1000000000\<rparr>"

definition utc_instant :: "LocalTime \<Rightarrow> Timestamp" where
  "utc_instant c = ((local_date c * 24 + local_hour c) * 60 + local_minute c) * 60000000000"

definition day_of_era :: "Date \<Rightarrow> int" where "day_of_era d = (d + 719468) mod 146097"

definition day_of_year :: "Date \<Rightarrow> int" where
  "day_of_year d = (let e = day_of_era d; y = (e - e div 1460 + e div 36524 - e div 146096) div 365 in
     e - (365 * y + y div 4 - y div 100))"

definition utc :: "unit Jiff" where
  "utc = \<lparr>tz_get = (\<lambda>name. if name = chars ''UTC'' then Some () else None),
     from_millisecond = (\<lambda>i. if \<bar>i\<bar> \<le> 1000000000000 then Some (i * 1000000) else None),
     as_millisecond = (\<lambda>u. u div 1000000), to_zoned = (\<lambda>_. utc_clock),
     date_day = (\<lambda>d. let m = (5 * day_of_year d + 2) div 153 in day_of_year d - (153 * m + 2) div 5 + 1),
     date_month = (\<lambda>d. let m = (5 * day_of_year d + 2) div 153 in if m < 10 then m + 3 else m - 9),
     date_weekday = (\<lambda>d. (d + 4) mod 7), tomorrow = (\<lambda>d. Some (d + 1)),
     ambiguous_offset = (\<lambda>_ c. if local_hour c < 24 \<and> local_minute c < 60 \<and>
       \<bar>utc_instant c\<bar> \<le> 1000000000000000000 then Unambiguous else Gap),
     unambiguous = (\<lambda>_ c. Some (utc_instant c)), earlier = (\<lambda>_ _. None), later = (\<lambda>_ _. None)\<rparr>"

lemma utc_instants: "instant utc u \<longleftrightarrow> u mod 1000000 = 0 \<and> \<bar>u\<bar> \<le> 1000000000000000000"
proof
  assume "u mod 1000000 = 0 \<and> \<bar>u\<bar> \<le> 1000000000000000000"
  then have "u = u div 1000000 * 1000000" "\<bar>u div 1000000\<bar> \<le> 1000000000000" by (auto simp: abs_le_iff)
  then show "instant utc u" by (auto simp: instant_def utc_def intro!: exI[of _ "u div 1000000"])
qed (auto simp: instant_def utc_def split: if_splits)

lemma utc_clock_shows:
  assumes "hour < 24" "minute < 60"
  shows "utc_clock u = local_minute_of date hour minute \<longleftrightarrow> u = utc_instant (local_minute_of date hour minute)"
proof
  assume "utc_clock u = local_minute_of date hour minute"
  then have parts: "u div 86400000000000 = date" "u div 3600000000000 mod 24 = int hour" "u div 60000000000 mod 60 = int minute"
    "u div 1000000000 mod 60 = 0" "u mod 1000000000 = 0"
    by (simp_all add: utc_clock_def local_minute_of_def)
  define a b c where abc: "a = u div 1000000000" "b = u div 60000000000" "c = u div 3600000000000"
  have quotients: "b = a div 60" "c = b div 60" "u div 86400000000000 = c div 24"
    unfolding abc by (simp_all add: zdiv_zmult2_eq[symmetric])
  have remainders: "a mod 60 = 0" "b mod 60 = int minute" "c mod 24 = int hour"
    using parts by (simp_all only: abc)
  have u: "u = a * 1000000000" using div_mult_mod_eq[of u 1000000000] parts(5) by (simp only: abc add_0_right)
  have "a = b * 60" using div_mult_mod_eq[of a 60] remainders(1) quotients(1) by linarith
  moreover have "b = c * 60 + int minute" using div_mult_mod_eq[of b 60] remainders(2) quotients(2) by linarith
  moreover have "c = date * 24 + int hour" using div_mult_mod_eq[of c 24] remainders(3) quotients(3) parts(1) by linarith
  ultimately show "u = utc_instant (local_minute_of date hour minute)"
    by (simp only: u utc_instant_def local_minute_of_def LocalTime.simps)
next
  assume clock: "u = utc_instant (local_minute_of date hour minute)"
  define n k where nk: "n = date * 24 + int hour" "k = n * 60 + int minute"
  have u: "u = k * 60000000000" using clock by (simp only: nk utc_instant_def local_minute_of_def LocalTime.simps)
  have minutes: "u div 60000000000 = k" "u div 1000000000 = k * 60" "u mod 1000000000 = 0" by (simp_all add: u)
  have parts: "k div 60 = n" "k mod 60 = int minute" "n div 24 = date" "n mod 24 = int hour"
    using assms by (simp_all add: nk(2), simp_all add: nk(1))
  have hours: "u div 3600000000000 = n" "u div 86400000000000 = date"
    using minutes(1) parts(1,3) zdiv_zmult2_eq[of 60 u 60000000000] zdiv_zmult2_eq[of 1440 u 60000000000]
      zdiv_zmult2_eq[of 24 k 60]
    by simp_all
  show "utc_clock u = local_minute_of date hour minute"
    unfolding utc_clock_def local_minute_of_def minutes hours parts by simp
qed

lemma utc_local_laws: "local_laws utc () (local_minute_of date hour minute)"
proof (cases "hour < 24 \<and> minute < 60")
  case True
  let ?c = "local_minute_of date hour minute"
  have clock: "to_zoned utc () u = ?c \<longleftrightarrow> u = utc_instant ?c" for u
    using utc_clock_shows[of hour minute u date] True by (simp add: utc_def)
  have whole: "utc_instant ?c mod 1000000 = 0"
  proof -
    have "utc_instant ?c = ((date * 24 + int hour) * 60 + int minute) * 60000 * 1000000"
      by (simp add: utc_instant_def local_minute_of_def)
    then show ?thesis by (metis mod_mult_self2_is_0)
  qed
  have "ambiguous_offset utc () ?c = (if \<bar>utc_instant ?c\<bar> \<le> 1000000000000000000 then Unambiguous else Gap)"
    using True by (simp add: utc_def local_minute_of_def)
  moreover have "unambiguous utc () ?c = Some (utc_instant ?c)" by (simp add: utc_def)
  ultimately show ?thesis using whole unfolding local_laws_def clock utc_instants by auto
next
  case False
  have "utc_clock u \<noteq> local_minute_of date hour minute" for u
  proof
    assume "utc_clock u = local_minute_of date hour minute"
    then have "u div 3600000000000 mod 24 = int hour" "u div 60000000000 mod 60 = int minute"
      by (simp_all add: utc_clock_def local_minute_of_def)
    moreover have "u div 3600000000000 mod 24 < 24" "u div 60000000000 mod 60 < 60" by simp_all
    ultimately show False using False by linarith
  qed
  moreover have "ambiguous_offset utc () (local_minute_of date hour minute) = Gap"
    using False by (auto simp: utc_def local_minute_of_def)
  ultimately show ?thesis by (simp add: local_laws_def utc_def)
qed

lemma utc_laws: "calendar_laws utc ()"
proof -
  have "local_date (to_zoned utc () u) \<le> local_date (to_zoned utc () v)" if "u \<le> v" for u v
    using that by (simp add: utc_def utc_clock_def zdiv_mono1)
  moreover have "0 \<le> local_hour (to_zoned utc () u) \<and> local_hour (to_zoned utc () u) < 24 \<and>
      0 \<le> local_minute (to_zoned utc () u) \<and> local_minute (to_zoned utc () u) < 60" for u
    by (simp add: utc_def utc_clock_def)
  moreover have "from_millisecond utc i = Some u \<Longrightarrow> u = i * 1000000 \<and> as_millisecond utc u = i" for i u
    by (auto simp: utc_def split: if_splits)
  moreover have "tomorrow utc d = Some d' \<Longrightarrow> d' = d + 1" for d d' by (simp add: utc_def)
  ultimately show ?thesis unfolding calendar_laws_def using utc_local_laws by blast
qed

section \<open>Properties\<close>


lemma sample_times: "selected_times sample_expression = [(6, 0)]"
proof -
  have minutes: "filter (\<lambda>minute. Field_contains (minutes sample_expression) (of_nat minute)) [0..<60] =
      filter (\<lambda>minute. minute = 0) [0..<60]"
    by (rule filter_cong) (simp_all add: sample_contains)
  have "selected_times sample_expression =
      concat (map (\<lambda>hour. if hour = 6 then map (Pair hour) (filter (\<lambda>minute. minute = 0) [0..<60]) else []) [0..<24])"
    unfolding selected_times_def minutes by (intro arg_cong[where f = concat] map_cong) (auto simp: sample_contains)
  also have "\<dots> = [(6, 0)]" by code_simp
  finally show ?thesis .
qed


end
