(* ===== verification/Float64.thy ===== *)
theory Float64
  imports Text
begin

text \<open>
  The IEEE 754 binary64 numbers of the standard library, as far as the expression evaluator uses them: a number is its
  64 bits.  Comparison works on the bits; reading a decimal literal and printing with a fixed number of digits
  round the exact rational value to the nearest representable one, ties to even.
\<close>

section \<open>Bits\<close>

definition f64_sign :: "u64 \<Rightarrow> bool" where "f64_sign b \<longleftrightarrow> 2 ^ 63 \<le> unat b"
definition f64_exponent :: "u64 \<Rightarrow> nat" where "f64_exponent b = unat b div 2 ^ 52 mod 2048"
definition f64_mantissa :: "u64 \<Rightarrow> nat" where "f64_mantissa b = unat b mod 2 ^ 52"

definition f64_NAN :: u64 where "f64_NAN = 0x7FF8000000000000"
definition f64_INFINITY :: u64 where "f64_INFINITY = 0x7FF0000000000000"
definition f64_NEG_INFINITY :: u64 where "f64_NEG_INFINITY = 0xFFF0000000000000"

definition is_nan :: "u64 \<Rightarrow> bool" where
  "is_nan b \<longleftrightarrow> f64_exponent b = 2047 \<and> f64_mantissa b \<noteq> 0"

text \<open>The order of the numbers is that of their magnitudes with the sign; the two zeros are equal.\<close>

definition f64_key :: "u64 \<Rightarrow> int" where
  "f64_key b = (if f64_sign b then - int (unat b mod 2 ^ 63) else int (unat b mod 2 ^ 63))"

datatype Ordering = Less | Equal | Greater

definition partial_cmp :: "u64 \<Rightarrow> u64 \<Rightarrow> Ordering option" where
  "partial_cmp a b =
     (if is_nan a \<or> is_nan b then None
      else Some (if f64_key a < f64_key b then Less else if f64_key a = f64_key b then Equal else Greater))"

text \<open>The magnitude of a finite number as a fraction.\<close>

definition f64_fraction :: "u64 \<Rightarrow> nat \<times> nat" where
  "f64_fraction b =
     (let e = f64_exponent b; m = (if e = 0 then f64_mantissa b else 2 ^ 52 + f64_mantissa b); e = max 1 e in
      if 1075 \<le> e then (m * 2 ^ (e - 1075), 1) else (m, 2 ^ (1075 - e)))"

definition f64_floor :: "u64 \<Rightarrow> nat" where
  "f64_floor b = (case f64_fraction b of (p, q) \<Rightarrow> p div q)"

section \<open>Rounding\<close>

definition round_half_even :: "nat \<Rightarrow> nat \<Rightarrow> nat" where
  "round_half_even p q =
     (let n = p div q; r = p mod q in
      if 2 * r < q \<or> 2 * r = q \<and> even n then n else n + 1)"

fun ilog2 :: "nat \<Rightarrow> nat" where
  "ilog2 n = (if n < 2 then 0 else Suc (ilog2 (n div 2)))"

declare ilog2.simps [simp del]

text \<open>The nearest number to a fraction: the exponent is chosen so that 53 bits remain, or fewer at the lower end of
  the range.\<close>

definition scaled :: "nat \<Rightarrow> nat \<Rightarrow> int \<Rightarrow> nat \<times> nat" where
  "scaled p q e = (if 0 \<le> e then (p, q * 2 ^ nat e) else (p * 2 ^ nat (- e), q))"

definition f64_of_fraction :: "bool \<Rightarrow> nat \<Rightarrow> nat \<Rightarrow> u64" where
  "f64_of_fraction negative p q =
     (let k = int (ilog2 p) - int (ilog2 q);
          log = (case scaled p q k of (a, b) \<Rightarrow> if b \<le> a then k else k - 1);
          e = max (- 1074) (log - 52);
          m = (case scaled p q e of (a, b) \<Rightarrow> round_half_even a b);
          magnitude = (if p = 0 then 0 else min (nat (e + 1074) * 2 ^ 52 + m) (2047 * 2 ^ 52)) in
      of_nat (magnitude + (if negative then 2 ^ 63 else 0)))"

definition f64_of_int :: "int \<Rightarrow> u64" where
  "f64_of_int i = f64_of_fraction (i < 0) (nat \<bar>i\<bar>) 1"

section \<open>Decimal literals\<close>

text \<open>\<open>str::parse::<f64>\<close> on a sign, digits with an optional point, and an optional exponent.\<close>

definition split_sign :: "utext \<Rightarrow> bool \<times> utext" where
  "split_sign s = (case s of c # cs \<Rightarrow> if c = 45 then (True, cs) else if c = 43 then (False, cs) else (False, s) | [] \<Rightarrow> (False, s))"

definition split_exponent :: "utext \<Rightarrow> utext \<times> utext" where
  "split_exponent s =
     (let front = takeWhile (\<lambda>c. c \<noteq> 101 \<and> c \<noteq> 69) s in (front, drop (Suc (length front)) s))"

definition parse_f64 :: "utext \<Rightarrow> u64" where
  "parse_f64 s =
     (case split_sign s of (negative, body) \<Rightarrow>
      case split_exponent body of (number, exponent) \<Rightarrow>
      case split_sign exponent of (downwards, places) \<Rightarrow>
      let whole = takeWhile is_digit number; fraction = drop (Suc (length whole)) number;
          shift = (if downwards then - int (decimal places) else int (decimal places)) - int (length fraction);
          digits = decimal (whole @ fraction) in
      if 0 \<le> shift then f64_of_fraction negative (digits * 10 ^ nat shift) 1
      else f64_of_fraction negative digits (10 ^ nat (- shift)))"

section \<open>Printing\<close>

text \<open>The number of decimal places by which a fraction below one has to be shifted to reach one.\<close>

function places_below :: "nat \<Rightarrow> nat \<Rightarrow> nat" where
  "places_below p q = (if p = 0 \<or> q \<le> p then 0 else Suc (places_below (p * 10) q))"
  by auto
termination by (relation "measure (\<lambda>(p, q). q - p)") auto

declare places_below.simps [simp del]

definition pad_zeros :: "nat \<Rightarrow> utext \<Rightarrow> utext" where
  "pad_zeros n s = replicate (n - length s) 48 @ s"

text \<open>\<open>{value:.places$}\<close> for a magnitude.\<close>

definition print_fixed :: "nat \<Rightarrow> nat \<Rightarrow> nat \<Rightarrow> utext" where
  "print_fixed places p q =
     (let digits = pad_zeros (Suc places) (print_nat (round_half_even (p * 10 ^ places) q)); n = length digits - places in
      if places = 0 then digits else take n digits @ 46 # drop n digits)"

text \<open>\<open>{value:.14e}\<close> for a positive magnitude: the mantissa with fourteen places, and the exponent.\<close>

definition scientific :: "nat \<Rightarrow> nat \<Rightarrow> utext \<times> int" where
  "scientific p q =
     (let e = (if q \<le> p then int (length (print_nat (p div q))) - 1 else - int (places_below p q));
          m = (if e \<le> 14 then round_half_even (p * 10 ^ nat (14 - e)) q else round_half_even p (q * 10 ^ nat (e - 14)));
          (m, e) = (if m = 10 ^ 15 then (10 ^ 14, e + 1) else (m, e));
          digits = print_nat m in
      (take 1 digits @ 46 # drop 1 digits, e))"

end
