(* ===== verification/ExprProgram.thy ===== *)
theory ExprProgram
  imports Float64
begin

text \<open>
  Durable expression programs, \<open>automata-ci-core/src/job/expression.rs\<close>: a postfix encoding of an
  expression tree, and its validation, which runs the encoding on a stack of subtree summaries.  A stack is a list with its top
  at the head; sizes in bytes are natural numbers, and their sums are checked against the width of \<open>usize\<close>.
\<close>

section \<open>Limits and errors\<close>

definition EXPRESSION_PROGRAM_SCHEMA_VERSION :: u16 where "EXPRESSION_PROGRAM_SCHEMA_VERSION = 1"
definition MAX_EXPRESSION_SOURCE_BYTES :: nat where "MAX_EXPRESSION_SOURCE_BYTES = 84000"
definition MAX_EXPRESSION_INSTRUCTIONS :: nat where "MAX_EXPRESSION_INSTRUCTIONS = 4096"
definition MAX_EXPRESSION_DEPTH :: nat where "MAX_EXPRESSION_DEPTH = 50"
definition MAX_EXPRESSION_TEXT_BYTES :: nat where "MAX_EXPRESSION_TEXT_BYTES = 84000"
definition MAX_EXPRESSION_DIALECT_LENGTH :: nat where "MAX_EXPRESSION_DIALECT_LENGTH = 64"

datatype ExpressionProgramError =
    UnsupportedSchema u16 u16
  | EmptyDialect
  | DialectTooLong nat
  | InvalidDialect
  | ZeroDialectVersion
  | EmptySource
  | SourceTooLong nat
  | InvalidSourceControl
  | EmptyProgram
  | TooManyInstructions nat
  | TextTooLong nat
  | InvalidIdentifier
  | NonCanonicalNan
  | StackUnderflow
  | InvalidFinalStack nat
  | WildcardOutsideIndex
  | InvalidLogicalOperandCount
  | NonCanonicalLogicalNesting
  | TooDeep nat

section \<open>Identifiers and dialects\<close>

definition canonical_identifier_segment :: "utext \<Rightarrow> bool" where
  "canonical_identifier_segment s =
     (case s of
        [] \<Rightarrow> False
      | first # rest \<Rightarrow>
          (97 \<le> first \<and> first \<le> 122 \<or> first = 95) \<and>
          list_all (\<lambda>c. 97 \<le> c \<and> c \<le> 122 \<or> is_digit c \<or> c = 95 \<or> c = 45) rest)"

definition canonical_identifier :: "utext \<Rightarrow> bool \<Rightarrow> bool" where
  "canonical_identifier s allow_dot =
     (if allow_dot then list_all canonical_identifier_segment (split_char 46 s) else canonical_identifier_segment s)"

record ExpressionDialect =
  dialect_name :: utext
  dialect_version :: u16

definition ExpressionDialect_new :: "utext \<Rightarrow> u16 \<Rightarrow> (ExpressionDialect, ExpressionProgramError) result" where
  "ExpressionDialect_new name version =
     (if name = [] then Err EmptyDialect
      else if utf8_length name > MAX_EXPRESSION_DIALECT_LENGTH then Err (DialectTooLong MAX_EXPRESSION_DIALECT_LENGTH)
      else if \<not> canonical_identifier name True then Err InvalidDialect
      else if version = 0 then Err ZeroDialectVersion
      else Ok \<lparr>dialect_name = name, dialect_version = version\<rparr>)"

section \<open>Instructions\<close>

datatype ExpressionLiteral = LitNull | LitBoolean bool | LitNumber u64 | LitString utext

definition ExpressionLiteral_number :: "u64 \<Rightarrow> ExpressionLiteral" where
  "ExpressionLiteral_number b = LitNumber (if is_nan b then f64_NAN else b)"

datatype ExpressionComparison = CmpEqual | NotEqual | GreaterThan | GreaterThanOrEqual | LessThan | LessThanOrEqual

datatype ExpressionLogical = LogicalAnd | LogicalOr

datatype ExpressionInstruction =
    InsLiteral ExpressionLiteral
  | InsNamedValue utext
  | InsWildcard
  | InsIndex
  | InsNot
  | InsCompare ExpressionComparison
  | InsLogical ExpressionLogical u16
  | InsCall utext u16

record ExpressionProgram =
  schema_version :: u16
  dialect :: ExpressionDialect
  source :: utext
  instructions :: "ExpressionInstruction list"

section \<open>Validation\<close>

record StackValue =
  sv_depth :: nat
  sv_wildcard :: bool
  sv_logical :: "ExpressionLogical option"

type_synonym 'a expr_result = "('a, ExpressionProgramError) result"

definition charge_text :: "utext \<Rightarrow> nat \<Rightarrow> nat expr_result" where
  "charge_text s charged =
     and_then (ok_or (TextTooLong MAX_EXPRESSION_TEXT_BYTES) (usize_checked_add charged (utf8_length s))) (\<lambda>charged.
     if charged > MAX_EXPRESSION_TEXT_BYTES then Err (TextTooLong MAX_EXPRESSION_TEXT_BYTES) else Ok charged)"

definition validate_program_identifier :: "utext \<Rightarrow> unit expr_result" where
  "validate_program_identifier s = ensure (canonical_identifier s False) InvalidIdentifier"

definition pop_value :: "StackValue list \<Rightarrow> (StackValue \<times> StackValue list) expr_result" where
  "pop_value stack = (case stack of [] \<Rightarrow> Err StackUnderflow | v # rest \<Rightarrow> Ok (v, rest))"

definition pop_non_wildcard :: "StackValue list \<Rightarrow> (StackValue \<times> StackValue list) expr_result" where
  "pop_non_wildcard stack =
     and_then (pop_value stack) (\<lambda>(v, rest). if sv_wildcard v then Err WildcardOutsideIndex else Ok (v, rest))"

definition pop_values :: "StackValue list \<Rightarrow> nat \<Rightarrow> (StackValue list \<times> StackValue list) expr_result" where
  "pop_values stack count =
     (if length stack < count then Err StackUnderflow
      else let values = rev (take count stack) in
        if list_ex sv_wildcard values then Err WildcardOutsideIndex else Ok (values, drop count stack))"

definition push_value ::
  "nat \<Rightarrow> bool \<Rightarrow> ExpressionLogical option \<Rightarrow> StackValue list \<Rightarrow> StackValue list expr_result" where
  "push_value depth wildcard logical stack =
     (if depth > MAX_EXPRESSION_DEPTH then Err (TooDeep MAX_EXPRESSION_DEPTH)
      else Ok (\<lparr>sv_depth = depth, sv_wildcard = wildcard, sv_logical = logical\<rparr> # stack))"

definition deepest :: "StackValue list \<Rightarrow> nat" where
  "deepest values = fold (\<lambda>v. max (sv_depth v)) values 0"

fun validate_instruction ::
  "ExpressionInstruction \<Rightarrow> nat \<times> StackValue list \<Rightarrow> (nat \<times> StackValue list) expr_result" where
  "validate_instruction (InsLiteral l) (text, stack) =
     and_then (case l of LitString s \<Rightarrow> charge_text s text | _ \<Rightarrow> Ok text) (\<lambda>text.
     and_then (case l of LitNumber b \<Rightarrow> ensure (\<not> (is_nan b \<and> b \<noteq> f64_NAN)) NonCanonicalNan | _ \<Rightarrow> Ok ()) (\<lambda>_.
     and_then (push_value 1 False None stack) (\<lambda>stack. Ok (text, stack))))"
| "validate_instruction (InsNamedValue name) (text, stack) =
     and_then (validate_program_identifier name) (\<lambda>_.
     and_then (charge_text name text) (\<lambda>text.
     and_then (push_value 1 False None stack) (\<lambda>stack. Ok (text, stack))))"
| "validate_instruction InsWildcard (text, stack) =
     and_then (push_value 1 True None stack) (\<lambda>stack. Ok (text, stack))"
| "validate_instruction InsIndex (text, stack) =
     and_then (pop_value stack) (\<lambda>(index, stack).
     and_then (pop_non_wildcard stack) (\<lambda>(target, stack).
     and_then (push_value (max (sv_depth target) (sv_depth index) + 1) False None stack) (\<lambda>stack. Ok (text, stack))))"
| "validate_instruction InsNot (text, stack) =
     and_then (pop_non_wildcard stack) (\<lambda>(operand, stack).
     and_then (push_value (sv_depth operand + 1) False None stack) (\<lambda>stack. Ok (text, stack)))"
| "validate_instruction (InsCompare operator) (text, stack) =
     and_then (pop_non_wildcard stack) (\<lambda>(right, stack).
     and_then (pop_non_wildcard stack) (\<lambda>(left, stack).
     and_then (push_value (max (sv_depth left) (sv_depth right) + 1) False None stack) (\<lambda>stack. Ok (text, stack))))"
| "validate_instruction (InsLogical operator count) (text, stack) =
     (if count < 2 then Err InvalidLogicalOperandCount
      else and_then (pop_values stack (unat count)) (\<lambda>(operands, stack).
        if list_ex (\<lambda>v. sv_logical v = Some operator) operands then Err NonCanonicalLogicalNesting
        else and_then (push_value (deepest operands + 1) False (Some operator) stack) (\<lambda>stack. Ok (text, stack))))"
| "validate_instruction (InsCall name count) (text, stack) =
     and_then (validate_program_identifier name) (\<lambda>_.
     and_then (charge_text name text) (\<lambda>text.
     and_then (pop_values stack (unat count)) (\<lambda>(arguments, stack).
     and_then (push_value (deepest arguments + 1) False None stack) (\<lambda>stack. Ok (text, stack)))))"

definition ExpressionProgram_validate :: "ExpressionProgram \<Rightarrow> unit expr_result" where
  "ExpressionProgram_validate self =
     (if schema_version self \<noteq> EXPRESSION_PROGRAM_SCHEMA_VERSION
      then Err (UnsupportedSchema EXPRESSION_PROGRAM_SCHEMA_VERSION (schema_version self))
      else if source self = [] then Err EmptySource
      else if utf8_length (source self) > MAX_EXPRESSION_SOURCE_BYTES then Err (SourceTooLong MAX_EXPRESSION_SOURCE_BYTES)
      else if list_ex (\<lambda>c. is_control c \<and> c \<notin> {9, 10, 13}) (source self) then Err InvalidSourceControl
      else if instructions self = [] then Err EmptyProgram
      else if length (instructions self) > MAX_EXPRESSION_INSTRUCTIONS
      then Err (TooManyInstructions MAX_EXPRESSION_INSTRUCTIONS)
      else and_then (try_fold validate_instruction (instructions self) (0, [])) (\<lambda>(text, stack).
        case stack of
          [result] \<Rightarrow> if sv_wildcard result then Err WildcardOutsideIndex else Ok ()
        | _ \<Rightarrow> Err (InvalidFinalStack (length stack))))"

definition ExpressionProgram_new ::
  "ExpressionDialect \<Rightarrow> utext \<Rightarrow> ExpressionInstruction list \<Rightarrow> ExpressionProgram expr_result" where
  "ExpressionProgram_new d s code =
     (let program = \<lparr>schema_version = EXPRESSION_PROGRAM_SCHEMA_VERSION, dialect = d, source = s, instructions = code\<rparr> in
      and_then (ExpressionProgram_validate program) (\<lambda>_. Ok program))"

end
