(* ===== verification/ExprValue.thy ===== *)
theory ExprValue
  imports ExprProgram
begin

text \<open>
  Expression values and their coercions, \<open>value.rs\<close> and \<open>coercion.rs\<close> of
  \<open>automata-ci-expression-actions\<close>.  Arrays and objects are compared by the identity of their shared allocation:
  the model gives every collection the identity under which it was allocated, by the host or by a node of the
  evaluated program.  An object is its entries in insertion order; the lookup table of the source is determined by them.

  The upper-case table of the Unicode standard is a parameter, \<open>upper\<close>.
\<close>

section \<open>Values\<close>

datatype Identity = Host nat | Allocated nat nat

datatype GithubValue =
    Null
  | Boolean bool
  | Number u64
  | String utext
  | Array Identity "GithubValue list"
  | Object Identity "(utext \<times> GithubValue) list"
  | Sensitive GithubValue

datatype GithubValueError = InvalidKey | DuplicateKey | TooManyItems

definition MAX_CONSTRUCTION_ITEMS :: nat where "MAX_CONSTRUCTION_ITEMS = 65536"
definition MAX_KEY_BYTES :: nat where "MAX_KEY_BYTES = 1048576"

text \<open>\<open>char::to_uppercase\<close> yields one or more characters.\<close>

type_synonym Uppercase = "nat \<Rightarrow> nat list"

definition ordinal_fold_character :: "Uppercase \<Rightarrow> nat \<Rightarrow> nat" where
  "ordinal_fold_character upper c =
     (if c = 0x131 \<or> c = 0x17F then c else case upper c of [] \<Rightarrow> c | [first] \<Rightarrow> first | _ \<Rightarrow> c)"

definition ordinal_key :: "Uppercase \<Rightarrow> utext \<Rightarrow> utext" where
  "ordinal_key upper s = map (ordinal_fold_character upper) s"

fun object_keys :: "Uppercase \<Rightarrow> utext set \<Rightarrow> utext list \<Rightarrow> (unit, GithubValueError) result" where
  "object_keys upper seen [] = Ok ()"
| "object_keys upper seen (key # keys) =
     (if utf8_length key > MAX_KEY_BYTES then Err InvalidKey
      else if ordinal_key upper key \<in> seen then Err DuplicateKey
      else object_keys upper (insert (ordinal_key upper key) seen) keys)"

definition GithubObject_new ::
  "Uppercase \<Rightarrow> Identity \<Rightarrow> (utext \<times> GithubValue) list \<Rightarrow> (GithubValue, GithubValueError) result" where
  "GithubObject_new upper i entries =
     (if length entries > MAX_CONSTRUCTION_ITEMS then Err TooManyItems
      else and_then (object_keys upper {} (map fst entries)) (\<lambda>_. Ok (Object i entries)))"

definition object_get :: "Uppercase \<Rightarrow> (utext \<times> GithubValue) list \<Rightarrow> utext \<Rightarrow> GithubValue option" where
  "object_get upper entries key =
     map_of (map (\<lambda>(k, v). (ordinal_key upper k, v)) entries) (ordinal_key upper key)"

definition GithubValue_array :: "Identity \<Rightarrow> GithubValue list \<Rightarrow> (GithubValue, GithubValueError) result" where
  "GithubValue_array i values = (if length values > MAX_CONSTRUCTION_ITEMS then Err TooManyItems else Ok (Array i values))"

definition GithubValue_number :: "u64 \<Rightarrow> GithubValue" where
  "GithubValue_number b = Number (if is_nan b then f64_NAN else b)"

section \<open>Sensitivity\<close>

fun is_explicitly_sensitive :: "GithubValue \<Rightarrow> bool" where
  "is_explicitly_sensitive (Sensitive v) = True"
| "is_explicitly_sensitive _ = False"

definition mark_sensitive :: "GithubValue \<Rightarrow> GithubValue" where
  "mark_sensitive v = (if is_explicitly_sensitive v then v else Sensitive v)"

definition inherit_sensitivity :: "bool \<Rightarrow> GithubValue \<Rightarrow> GithubValue" where
  "inherit_sensitivity sensitive v = (if sensitive then mark_sensitive v else v)"

fun is_sensitive :: "GithubValue \<Rightarrow> bool" where
  "is_sensitive (Sensitive v) = True"
| "is_sensitive (Array i values) = list_ex is_sensitive values"
| "is_sensitive (Object i entries) = list_ex (\<lambda>(k, v). is_sensitive v) entries"
| "is_sensitive _ = False"

fun without_sensitivity :: "GithubValue \<Rightarrow> GithubValue" where
  "without_sensitivity (Sensitive v) = without_sensitivity v"
| "without_sensitivity v = v"

fun as_bool :: "GithubValue \<Rightarrow> bool option" where
  "as_bool (Boolean b) = Some b"
| "as_bool _ = None"

definition is_primitive :: "GithubValue \<Rightarrow> bool" where
  "is_primitive v = (case without_sensitivity v of Array _ _ \<Rightarrow> False | Object _ _ \<Rightarrow> False | _ \<Rightarrow> True)"

fun is_truthy :: "GithubValue \<Rightarrow> bool" where
  "is_truthy Null = False"
| "is_truthy (Boolean b) = b"
| "is_truthy (Number b) = (f64_key b \<noteq> 0 \<and> \<not> is_nan b)"
| "is_truthy (String s) = (s \<noteq> [])"
| "is_truthy (Array _ _) = True"
| "is_truthy (Object _ _) = True"
| "is_truthy (Sensitive v) = is_truthy v"

section \<open>Numbers from text\<close>

definition hex_digit_value :: "nat \<Rightarrow> nat option" where
  "hex_digit_value c =
     (if is_digit c then Some (c - 48) else if 97 \<le> c \<and> c \<le> 102 then Some (c - 87)
      else if 65 \<le> c \<and> c \<le> 70 then Some (c - 55) else None)"

text \<open>A 32-bit number in a radix, its bits read as a signed integer.\<close>

definition from_str_radix :: "nat \<Rightarrow> utext \<Rightarrow> u32 option" where
  "from_str_radix radix s =
     (let n = foldl (\<lambda>n c. n * radix + the (hex_digit_value c)) 0 s in if n < 2 ^ 32 then Some (of_nat n) else None)"

definition parse_radix_i32 :: "nat \<Rightarrow> utext \<Rightarrow> u64" where
  "parse_radix_i32 radix s =
     (if s = [] \<or> \<not> list_all (\<lambda>c. case hex_digit_value c of None \<Rightarrow> False | Some d \<Rightarrow> d < radix) s then f64_NAN
      else case from_str_radix radix s of None \<Rightarrow> f64_NAN | Some n \<Rightarrow> f64_of_int (sint n))"

text \<open>The scan of \<open>valid_decimal\<close>: an optional sign, digits with an optional point, and an optional exponent.\<close>

definition drop_digits :: "utext \<Rightarrow> nat \<times> utext" where
  "drop_digits s = (length (takeWhile is_digit s), dropWhile is_digit s)"

definition drop_sign :: "utext \<Rightarrow> utext" where
  "drop_sign s = (case s of c # cs \<Rightarrow> if c = 43 \<or> c = 45 then cs else s | [] \<Rightarrow> s)"

definition valid_exponent :: "utext \<Rightarrow> bool" where
  "valid_exponent s =
     (case s of
        [] \<Rightarrow> True
      | c # cs \<Rightarrow> (c = 101 \<or> c = 69) \<and> (case drop_digits (drop_sign cs) of (n, rest) \<Rightarrow> 0 < n \<and> rest = []))"

definition valid_decimal :: "utext \<Rightarrow> bool" where
  "valid_decimal s =
     (case drop_digits (drop_sign s) of (whole, rest) \<Rightarrow>
      case (case rest of c # cs \<Rightarrow> if c = 46 then drop_digits cs else (0, rest) | [] \<Rightarrow> (0, rest)) of (fraction, rest) \<Rightarrow>
      0 < whole + fraction \<and> valid_exponent rest)"

definition strip_prefix :: "utext \<Rightarrow> utext \<Rightarrow> utext option" where
  "strip_prefix prefix s = (if take (length prefix) s = prefix then Some (drop (length prefix) s) else None)"

definition parse_number :: "utext \<Rightarrow> u64" where
  "parse_number text =
     (let s = trim text in
      if s = [] then 0
      else if s = chars ''Infinity'' then f64_INFINITY
      else if s = chars ''-Infinity'' then f64_NEG_INFINITY
      else case strip_prefix (chars ''0x'') s of
        Some hex \<Rightarrow> parse_radix_i32 16 hex
      | None \<Rightarrow>
          (case strip_prefix (chars ''0o'') s of
             Some octal \<Rightarrow> parse_radix_i32 8 octal
           | None \<Rightarrow> if valid_decimal s then parse_f64 s else f64_NAN))"

section \<open>Numbers as text\<close>

definition trim_decimal :: "utext \<Rightarrow> utext" where
  "trim_decimal s =
     (if 46 \<notin> set s then s
      else let kept = rev (dropWhile (\<lambda>c. c = 48) (rev s)) in if last kept = 46 then butlast kept else kept)"

definition print_exponent :: "int \<Rightarrow> utext" where
  "print_exponent e = (if e < 0 then 45 else 43) # pad_zeros 2 (print_nat (nat \<bar>e\<bar>))"

definition format_number :: "u64 \<Rightarrow> utext" where
  "format_number b =
     (if is_nan b then chars ''NaN''
      else if b = f64_INFINITY then chars ''Infinity''
      else if b = f64_NEG_INFINITY then chars ''-Infinity''
      else if f64_key b = 0 then chars ''0''
      else case f64_fraction b of (p, q) \<Rightarrow>
        case scientific p q of (mantissa, exponent) \<Rightarrow>
        let sign = (if f64_sign b then chars ''-'' else []) in
        if - 4 \<le> exponent \<and> exponent < 15 then trim_decimal (sign @ print_fixed (nat (14 - exponent)) p q)
        else trim_decimal (sign @ mantissa) @ chars ''E'' @ print_exponent exponent)"

section \<open>Coercions and comparison\<close>

definition to_number :: "GithubValue \<Rightarrow> u64" where
  "to_number v =
     (case without_sensitivity v of
        Null \<Rightarrow> 0
      | Boolean b \<Rightarrow> if b then 0x3FF0000000000000 else 0
      | Number b \<Rightarrow> b
      | String s \<Rightarrow> parse_number s
      | _ \<Rightarrow> f64_NAN)"

definition to_string :: "GithubValue \<Rightarrow> utext" where
  "to_string v =
     (case without_sensitivity v of
        Null \<Rightarrow> []
      | Boolean b \<Rightarrow> if b then chars ''true'' else chars ''false''
      | Number b \<Rightarrow> format_number b
      | String s \<Rightarrow> s
      | Array _ _ \<Rightarrow> chars ''Array''
      | Object _ _ \<Rightarrow> chars ''Object''
      | Sensitive _ \<Rightarrow> [])"

definition to_ascii_lowercase :: "utext \<Rightarrow> utext" where
  "to_ascii_lowercase s = map (\<lambda>c. if 65 \<le> c \<and> c \<le> 90 then c + 32 else c) s"

definition ordinal_ignore_case :: "Uppercase \<Rightarrow> utext \<Rightarrow> utext \<Rightarrow> bool" where
  "ordinal_ignore_case upper l r \<longleftrightarrow>
     to_ascii_lowercase l = to_ascii_lowercase r \<or> ordinal_key upper l = ordinal_key upper r"

text \<open>UTF-16 code units, compared in lexicographic order.\<close>

definition encode_utf16 :: "utext \<Rightarrow> nat list" where
  "encode_utf16 s = concat (map (\<lambda>c. if c < 65536 then [c]
     else [0xD800 + (c - 65536) div 1024, 0xDC00 + (c - 65536) mod 1024]) s)"

fun lexicographic :: "nat list \<Rightarrow> nat list \<Rightarrow> Ordering" where
  "lexicographic [] [] = Equal"
| "lexicographic [] (_ # _) = Less"
| "lexicographic (_ # _) [] = Greater"
| "lexicographic (a # as) (b # bs) = (if a < b then Less else if b < a then Greater else lexicographic as bs)"

definition ordinal_compare :: "Uppercase \<Rightarrow> utext \<Rightarrow> utext \<Rightarrow> Ordering" where
  "ordinal_compare upper l r = lexicographic (encode_utf16 (ordinal_key upper l)) (encode_utf16 (ordinal_key upper r))"

definition abstract_equal :: "Uppercase \<Rightarrow> GithubValue \<Rightarrow> GithubValue \<Rightarrow> bool" where
  "abstract_equal upper l r =
     (let left = without_sensitivity l; right = without_sensitivity r;
          numeric = partial_cmp (to_number left) (to_number right) = Some Equal in
      case (left, right) of
        (Null, Null) \<Rightarrow> True
      | (Boolean a, Boolean b) \<Rightarrow> a = b
      | (Number a, Number b) \<Rightarrow> partial_cmp a b = Some Equal
      | (String a, String b) \<Rightarrow> ordinal_ignore_case upper a b
      | (Array i _, Array j _) \<Rightarrow> i = j
      | (Object i _, Object j _) \<Rightarrow> i = j
      | (Boolean _, _) \<Rightarrow> numeric
      | (Null, _) \<Rightarrow> numeric
      | (_, Boolean _) \<Rightarrow> numeric
      | (_, Null) \<Rightarrow> numeric
      | (Number _, String _) \<Rightarrow> numeric
      | (String _, Number _) \<Rightarrow> numeric
      | _ \<Rightarrow> False)"

definition bool_cmp :: "bool \<Rightarrow> bool \<Rightarrow> Ordering" where
  "bool_cmp a b = (if a = b then Equal else if b then Less else Greater)"

definition abstract_compare :: "Uppercase \<Rightarrow> GithubValue \<Rightarrow> GithubValue \<Rightarrow> Ordering option" where
  "abstract_compare upper l r =
     (let left = without_sensitivity l; right = without_sensitivity r;
          numeric = partial_cmp (to_number left) (to_number right) in
      case (left, right) of
        (String a, String b) \<Rightarrow> Some (ordinal_compare upper a b)
      | (Boolean a, Boolean b) \<Rightarrow> Some (bool_cmp a b)
      | (Number a, Number b) \<Rightarrow> partial_cmp a b
      | (Boolean _, _) \<Rightarrow> numeric
      | (Null, _) \<Rightarrow> numeric
      | (_, Boolean _) \<Rightarrow> numeric
      | (_, Null) \<Rightarrow> numeric
      | (Number _, String _) \<Rightarrow> numeric
      | (String _, Number _) \<Rightarrow> numeric
      | _ \<Rightarrow> None)"

end
