(* ===== verification/ExprEval.thy ===== *)
theory ExprEval
  imports ExprValue
begin

text \<open>
  The expression evaluator, \<open>evaluator.rs\<close>, \<open>functions.rs\<close> and \<open>context.rs\<close> of
  \<open>automata-ci-expression-actions\<close>.  The recursion of \<open>Tree::evaluate\<close> over the indices of a node table
  has no structural bound, so the model counts down fuel; running out of it is \<open>None\<close>.  The number of instructions of a
  program is enough fuel for it.

  The JSON library is a parameter: how it splits a text into values, and how it quotes a string.  So are the context
  of an evaluation and its extension functions.
\<close>

section \<open>Errors, limits and parameters\<close>

datatype EvalError = UnsupportedProgram | UnavailableContext | InvalidOperation | ResourceLimit | Extension | Internal

record EvalLimits =
  result_bytes :: nat
  collection_items :: nat
  value_depth :: nat

definition EvalLimits_new :: "nat \<Rightarrow> nat \<Rightarrow> nat \<Rightarrow> (EvalLimits, EvalError) result" where
  "EvalLimits_new bytes items depth =
     (if bytes = 0 \<or> bytes > 16 * 1024 * 1024 \<or> items = 0 \<or> items > 65536 \<or> depth = 0 \<or> depth > 50
      then Err ResourceLimit
      else Ok \<lparr>result_bytes = bytes, collection_items = items, value_depth = depth\<rparr>)"

definition EvalLimits_default :: EvalLimits where
  "EvalLimits_default = \<lparr>result_bytes = 1048576, collection_items = 65536, value_depth = 50\<rparr>"

datatype GithubStatus = StatusSuccess | StatusFailure | StatusCancelled | StatusSkipped

record EvalContext =
  named_value :: "utext \<Rightarrow> GithubValue option"
  context_status :: GithubStatus
  extension :: "utext \<Rightarrow> GithubValue list \<Rightarrow> (GithubValue, EvalError) result option"

text \<open>A JSON text as the deserializer presents it: values up to the first syntax error, and whether each collection was
  closed.\<close>

datatype JsonDocument =
    JsonNull
  | JsonBool bool
  | JsonInteger int
  | JsonFloat u64
  | JsonString utext
  | JsonSeq "JsonDocument list" bool
  | JsonMap "(utext \<times> JsonDocument) list" bool
  | JsonSyntaxError

record Library =
  upper :: Uppercase
  json_document :: "utext \<Rightarrow> JsonDocument \<times> bool"
  json_string :: "utext \<Rightarrow> utext"

type_synonym 'a ev_result = "('a, EvalError) result"

section \<open>Limits of a value\<close>

fun value_size :: "GithubValue \<Rightarrow> nat" where
  "value_size (Sensitive v) = value_size v"
| "value_size (Array i values) = Suc (sum_list (map value_size values))"
| "value_size (Object i entries) = Suc (sum_list (map (\<lambda>(k, v). value_size v) entries))"
| "value_size _ = 1"

lemma value_size_without: "value_size (without_sensitivity v) = value_size v"
  by (induction v rule: without_sensitivity.induct) simp_all

lemma value_size_pos: "0 < value_size v"
  by (induction v rule: value_size.induct) simp_all

text \<open>The children of a value that the loop pushes, and the bytes that it charges for the value itself.\<close>

definition limit_children :: "GithubValue \<Rightarrow> GithubValue list" where
  "limit_children v = (case without_sensitivity v of Array _ values \<Rightarrow> values | Object _ entries \<Rightarrow> map snd entries | _ \<Rightarrow> [])"

definition limit_texts :: "GithubValue \<Rightarrow> utext list" where
  "limit_texts v = (case without_sensitivity v of String s \<Rightarrow> [s] | Object _ entries \<Rightarrow> map fst entries | _ \<Rightarrow> [])"

fun charge_bytes :: "utext list \<Rightarrow> nat \<Rightarrow> nat ev_result" where
  "charge_bytes [] aggregate = Ok aggregate"
| "charge_bytes (s # ss) aggregate =
     and_then (ok_or ResourceLimit (usize_checked_add aggregate (utf8_length s))) (charge_bytes ss)"

lemma children_smaller:
  "sum_list (map value_size (limit_children v)) < value_size v"
proof -
  have "sum_list (map value_size (limit_children v)) < value_size (without_sensitivity v)"
    by (cases "without_sensitivity v") (simp_all add: limit_children_def o_def case_prod_unfold value_size_pos)
  then show ?thesis by (simp add: value_size_without)
qed

function limit_loop :: "EvalLimits \<Rightarrow> nat \<Rightarrow> nat \<Rightarrow> (GithubValue \<times> nat) list \<Rightarrow> unit ev_result" where
  "limit_loop limits aggregate items [] = Ok ()"
| "limit_loop limits aggregate items ((v, depth) # stack) =
     (if depth > value_depth limits then Err ResourceLimit
      else and_then (ok_or ResourceLimit (usize_checked_add items 1)) (\<lambda>items.
        if items > collection_items limits then Err ResourceLimit
        else and_then (charge_bytes (limit_texts v) aggregate) (\<lambda>aggregate.
          if aggregate > result_bytes limits then Err ResourceLimit
          else limit_loop limits aggregate items (rev (map (\<lambda>child. (child, depth + 1)) (limit_children v)) @ stack))))"
  by pat_completeness auto
termination
  by (relation "measure (\<lambda>(limits, aggregate, items, stack). sum_list (map (value_size \<circ> fst) stack))")
     (simp_all add: o_def rev_map[symmetric] children_smaller)

definition enforce_value_limits :: "GithubValue \<Rightarrow> EvalLimits \<Rightarrow> unit ev_result" where
  "enforce_value_limits v limits = limit_loop limits 0 0 [(v, 1)]"

section \<open>Functions\<close>

definition arity_range :: "'a list \<Rightarrow> nat \<Rightarrow> nat \<Rightarrow> unit ev_result" where
  "arity_range arguments least most = ensure (least \<le> length arguments \<and> length arguments \<le> most) InvalidOperation"

definition any_sensitive :: "GithubValue list \<Rightarrow> bool" where
  "any_sensitive arguments = list_ex is_sensitive arguments"

fun contains_text :: "utext \<Rightarrow> utext \<Rightarrow> bool" where
  "contains_text s pattern =
     (take (length pattern) s = pattern \<or> (case s of [] \<Rightarrow> False | _ # rest \<Rightarrow> contains_text rest pattern))"

declare contains_text.simps [simp del]

definition folded :: "Library \<Rightarrow> GithubValue \<Rightarrow> utext" where
  "folded lib v = ordinal_key (upper lib) (to_string v)"

definition contains :: "Library \<Rightarrow> GithubValue list \<Rightarrow> GithubValue ev_result" where
  "contains lib arguments =
     and_then (arity_range arguments 2 2) (\<lambda>_.
     let found = (case without_sensitivity (arguments ! 0) of
            Array _ values \<Rightarrow> list_ex (abstract_equal (upper lib) (arguments ! 1)) values
          | v \<Rightarrow> is_primitive v \<and> is_primitive (arguments ! 1) \<and> contains_text (folded lib v) (folded lib (arguments ! 1))) in
     Ok (inherit_sensitivity (any_sensitive arguments) (Boolean found)))"

definition string_predicate ::
  "Library \<Rightarrow> (utext \<Rightarrow> utext \<Rightarrow> bool) \<Rightarrow> GithubValue list \<Rightarrow> GithubValue ev_result" where
  "string_predicate lib predicate arguments =
     and_then (arity_range arguments 2 2) (\<lambda>_.
     let found = is_primitive (arguments ! 0) \<and> is_primitive (arguments ! 1) \<and>
           predicate (folded lib (arguments ! 0)) (folded lib (arguments ! 1)) in
     Ok (inherit_sensitivity (any_sensitive arguments) (Boolean found)))"

definition starts_with :: "Library \<Rightarrow> GithubValue list \<Rightarrow> GithubValue ev_result" where
  "starts_with lib = string_predicate lib (\<lambda>s prefix. take (length prefix) s = prefix)"

definition ends_with :: "Library \<Rightarrow> GithubValue list \<Rightarrow> GithubValue ev_result" where
  "ends_with lib = string_predicate lib (\<lambda>s suffix. strip_suffix suffix s \<noteq> None)"

definition append_bounded :: "utext \<Rightarrow> utext \<Rightarrow> nat \<Rightarrow> utext ev_result" where
  "append_bounded written s maximum =
     and_then (ok_or ResourceLimit (usize_checked_add (utf8_length written) (utf8_length s))) (\<lambda>bytes.
     if bytes > maximum then Err ResourceLimit else Ok (written @ s))"

fun join_loop :: "utext \<Rightarrow> nat \<Rightarrow> bool \<Rightarrow> GithubValue list \<Rightarrow> utext \<Rightarrow> utext ev_result" where
  "join_loop separator maximum initial [] written = Ok written"
| "join_loop separator maximum initial (v # vs) written =
     and_then (if initial then Ok written else append_bounded written separator maximum) (\<lambda>written.
     and_then (append_bounded written (to_string v) maximum) (\<lambda>written.
     join_loop separator maximum False vs written))"

definition join_separator :: "GithubValue list \<Rightarrow> utext" where
  "join_separator arguments =
     (case arguments of _ # v # _ \<Rightarrow> if is_primitive v then to_string v else chars '','' | _ \<Rightarrow> chars '','')"

definition join :: "GithubValue list \<Rightarrow> nat \<Rightarrow> GithubValue ev_result" where
  "join arguments maximum =
     and_then (arity_range arguments 1 2) (\<lambda>_.
     and_then
       (case without_sensitivity (arguments ! 0) of
          Array _ values \<Rightarrow> join_loop (join_separator arguments) maximum True values []
        | v \<Rightarrow> if \<not> is_primitive v then Ok []
               else if utf8_length (to_string v) > maximum then Err ResourceLimit else Ok (to_string v)) (\<lambda>s.
     Ok (inherit_sensitivity (any_sensitive arguments) (String s))))"

section \<open>Templates\<close>

text \<open>The text between the braces of a placeholder.\<close>

definition placeholder_index :: "utext \<Rightarrow> nat \<Rightarrow> nat ev_result" where
  "placeholder_index inside count =
     (let placeholder = (case strip_suffix [58] inside of Some s \<Rightarrow> s | None \<Rightarrow> inside) in
      if placeholder = [] \<or> 58 \<in> set placeholder then Err InvalidOperation
      else case (parse_word placeholder :: u8 option) of
        None \<Rightarrow> Err InvalidOperation
      | Some index \<Rightarrow> if unat index \<ge> count then Err InvalidOperation else Ok (unat index))"

text \<open>The value of a placeholder, evaluated at its first use and remembered.\<close>

definition recall ::
  "(nat \<Rightarrow> GithubValue ev_result option) \<Rightarrow> nat \<Rightarrow> (utext \<times> bool) option list \<Rightarrow>
   ((utext \<times> bool) \<times> (utext \<times> bool) option list) ev_result option" where
  "recall argument index cache =
     (case cache ! index of
        Some known \<Rightarrow> Some (Ok (known, cache))
      | None \<Rightarrow> and_then_opt (argument index) (\<lambda>v.
          let known = (to_string v, is_sensitive v) in Some (Ok (known, cache[index := Some known]))))"

lemma split_once_shorter: "split_once sep s = Some (a, b) \<Longrightarrow> length b < length s"
  by (induction s arbitrary: a b) (auto split: if_splits)

function format_loop ::
  "(nat \<Rightarrow> GithubValue ev_result option) \<Rightarrow> nat \<Rightarrow> nat \<Rightarrow> utext \<Rightarrow> utext \<Rightarrow> (utext \<times> bool) option list \<Rightarrow> bool \<Rightarrow>
   (utext \<times> bool) ev_result option" where
  "format_loop argument count maximum template written cache sensitive =
     (case template of
        [] \<Rightarrow> Some (Ok (written, sensitive))
      | c # rest \<Rightarrow>
          if (c = 123 \<or> c = 125) \<and> take 1 rest = [c] then
            and_then_opt (Some (append_bounded written [c] maximum)) (\<lambda>written.
            format_loop argument count maximum (drop 1 rest) written cache sensitive)
          else if c = 123 then
            (case split_once 125 rest of
               None \<Rightarrow> Some (Err InvalidOperation)
             | Some (inside, after) \<Rightarrow>
                 and_then_opt (Some (placeholder_index inside count)) (\<lambda>index.
                 and_then_opt (recall argument index cache) (\<lambda>((s, value_sensitive), cache).
                 and_then_opt (Some (append_bounded written s maximum)) (\<lambda>written.
                 format_loop argument count maximum after written cache (sensitive \<or> value_sensitive)))))
          else if c = 125 then Some (Err InvalidOperation)
          else and_then_opt (Some (append_bounded written [c] maximum)) (\<lambda>written.
            format_loop argument count maximum rest written cache sensitive))"
  by pat_completeness auto
termination
  by (relation "measure (\<lambda>(argument, count, maximum, template, rest). length template)")
     (auto dest: split_once_shorter)

declare format_loop.simps [simp del]

definition format_template ::
  "utext \<Rightarrow> bool \<Rightarrow> nat \<Rightarrow> nat \<Rightarrow> (nat \<Rightarrow> GithubValue ev_result option) \<Rightarrow> GithubValue ev_result option" where
  "format_template template template_sensitive count maximum argument =
     and_then_opt (format_loop argument count maximum template [] (replicate count None) template_sensitive)
       (\<lambda>(s, sensitive). Some (Ok (inherit_sensitivity sensitive (String s))))"

section \<open>JSON\<close>

text \<open>The budget of \<open>from_json\<close> counts values; the second counter numbers the allocated collections.\<close>

definition observe :: "EvalLimits \<Rightarrow> nat \<Rightarrow> nat \<Rightarrow> nat ev_result" where
  "observe limits depth items =
     and_then (ok_or ResourceLimit (usize_checked_add items 1)) (\<lambda>items.
     if items > collection_items limits \<or> depth \<ge> value_depth limits then Err ResourceLimit else Ok items)"

fun json_value :: "Library \<Rightarrow> EvalLimits \<Rightarrow> nat \<Rightarrow> nat \<Rightarrow> JsonDocument \<Rightarrow> nat \<times> nat \<Rightarrow> (GithubValue \<times> nat \<times> nat) ev_result"
and json_values :: "Library \<Rightarrow> EvalLimits \<Rightarrow> nat \<Rightarrow> nat \<Rightarrow> JsonDocument list \<Rightarrow> nat \<times> nat \<Rightarrow> (GithubValue list \<times> nat \<times> nat) ev_result"
and json_entries :: "Library \<Rightarrow> EvalLimits \<Rightarrow> nat \<Rightarrow> nat \<Rightarrow> (utext \<times> JsonDocument) list \<Rightarrow> nat \<times> nat \<Rightarrow>
  ((utext \<times> GithubValue) list \<times> nat \<times> nat) ev_result" where
  "json_value lib limits node depth document (items, k) =
     and_then (observe limits depth items) (\<lambda>items.
     case document of
       JsonNull \<Rightarrow> Ok (Null, items, k)
     | JsonBool b \<Rightarrow> Ok (Boolean b, items, k)
     | JsonInteger i \<Rightarrow> Ok (GithubValue_number (f64_of_int i), items, k)
     | JsonFloat b \<Rightarrow> Ok (GithubValue_number b, items, k)
     | JsonString s \<Rightarrow> Ok (String s, items, k)
     | JsonSeq documents closed \<Rightarrow>
         and_then (json_values lib limits node (depth + 1) documents (items, k)) (\<lambda>(values, items, k).
         if \<not> closed then Err InvalidOperation
         else and_then (map_err (\<lambda>_. InvalidOperation) (GithubValue_array (Allocated node k) values)) (\<lambda>v.
           Ok (v, items, Suc k)))
     | JsonMap documents closed \<Rightarrow>
         and_then (json_entries lib limits node (depth + 1) documents (items, k)) (\<lambda>(entries, items, k).
         if \<not> closed then Err InvalidOperation
         else and_then (map_err (\<lambda>_. InvalidOperation) (GithubObject_new (upper lib) (Allocated node k) entries)) (\<lambda>v.
           Ok (v, items, Suc k)))
     | JsonSyntaxError \<Rightarrow> Err InvalidOperation)"
| "json_values lib limits node depth [] counters = Ok ([], counters)"
| "json_values lib limits node depth (document # documents) counters =
     and_then (json_value lib limits node depth document counters) (\<lambda>(v, counters).
     and_then (json_values lib limits node depth documents counters) (\<lambda>(vs, counters). Ok (v # vs, counters)))"
| "json_entries lib limits node depth [] counters = Ok ([], counters)"
| "json_entries lib limits node depth ((key, document) # documents) counters =
     and_then (json_value lib limits node depth document counters) (\<lambda>(v, counters).
     and_then (json_entries lib limits node depth documents counters) (\<lambda>(vs, counters). Ok ((key, v) # vs, counters)))"

declare json_value.simps [simp del]

definition from_json :: "Library \<Rightarrow> EvalLimits \<Rightarrow> nat \<Rightarrow> GithubValue list \<Rightarrow> GithubValue ev_result" where
  "from_json lib limits node arguments =
     and_then (arity_range arguments 1 1) (\<lambda>_.
     case json_document lib (to_string (arguments ! 0)) of (document, ended) \<Rightarrow>
     and_then (json_value lib limits node 0 document (0, 0)) (\<lambda>(v, _).
     if \<not> ended then Err InvalidOperation else Ok (inherit_sensitivity (is_sensitive (arguments ! 0)) v)))"

definition write_indent :: "nat \<Rightarrow> nat \<Rightarrow> utext \<Rightarrow> utext ev_result" where
  "write_indent maximum depth written =
     (if depth * 2 \<ge> 2 ^ 64 then Err ResourceLimit
      else try_fold (\<lambda>_ written. append_bounded written (chars '' '') maximum) [0..<depth * 2] written)"

fun write_json :: "Library \<Rightarrow> nat \<Rightarrow> nat \<Rightarrow> GithubValue \<Rightarrow> nat \<Rightarrow> utext \<Rightarrow> utext ev_result"
and write_items :: "Library \<Rightarrow> nat \<Rightarrow> nat \<Rightarrow> bool \<Rightarrow> GithubValue list \<Rightarrow> nat \<Rightarrow> utext \<Rightarrow> utext ev_result"
and write_entries :: "Library \<Rightarrow> nat \<Rightarrow> nat \<Rightarrow> bool \<Rightarrow> (utext \<times> GithubValue) list \<Rightarrow> nat \<Rightarrow> utext \<Rightarrow> utext ev_result" where
  "write_json lib maximum max_depth v depth written =
     (if depth \<ge> max_depth then Err ResourceLimit
      else case v of
        Null \<Rightarrow> append_bounded written (chars ''null'') maximum
      | Boolean b \<Rightarrow> append_bounded written (chars (if b then ''true'' else ''false'')) maximum
      | Number b \<Rightarrow> append_bounded written (to_string (Number b)) maximum
      | String s \<Rightarrow> append_bounded written (json_string lib s) maximum
      | Array _ values \<Rightarrow>
          if values = [] then append_bounded written (chars ''[]'') maximum
          else and_then (append_bounded written (chars ''['') maximum) (\<lambda>written.
            and_then (write_items lib maximum max_depth True values (depth + 1) written) (\<lambda>written.
            and_then (append_bounded written [10] maximum) (\<lambda>written.
            and_then (write_indent maximum depth written) (\<lambda>written.
            append_bounded written (chars '']'') maximum))))
      | Object _ entries \<Rightarrow>
          if entries = [] then append_bounded written (chars ''{}'') maximum
          else and_then (append_bounded written (chars ''{'') maximum) (\<lambda>written.
            and_then (write_entries lib maximum max_depth True entries (depth + 1) written) (\<lambda>written.
            and_then (append_bounded written [10] maximum) (\<lambda>written.
            and_then (write_indent maximum depth written) (\<lambda>written.
            append_bounded written (chars ''}'') maximum))))
      | Sensitive payload \<Rightarrow> write_json lib maximum max_depth payload depth written)"
| "write_items lib maximum max_depth initial [] depth written = Ok written"
| "write_items lib maximum max_depth initial (v # vs) depth written =
     and_then (if initial then Ok written else append_bounded written (chars '','') maximum) (\<lambda>written.
     and_then (append_bounded written [10] maximum) (\<lambda>written.
     and_then (write_indent maximum depth written) (\<lambda>written.
     and_then (write_json lib maximum max_depth v depth written) (\<lambda>written.
     write_items lib maximum max_depth False vs depth written))))"
| "write_entries lib maximum max_depth initial [] depth written = Ok written"
| "write_entries lib maximum max_depth initial ((key, v) # entries) depth written =
     and_then (if initial then Ok written else append_bounded written (chars '','') maximum) (\<lambda>written.
     and_then (append_bounded written [10] maximum) (\<lambda>written.
     and_then (write_indent maximum depth written) (\<lambda>written.
     and_then (append_bounded written (json_string lib key) maximum) (\<lambda>written.
     and_then (append_bounded written (chars '': '') maximum) (\<lambda>written.
     and_then (write_json lib maximum max_depth v depth written) (\<lambda>written.
     write_entries lib maximum max_depth False entries depth written))))))"

declare write_json.simps [simp del]

definition to_json :: "Library \<Rightarrow> EvalLimits \<Rightarrow> GithubValue list \<Rightarrow> GithubValue ev_result" where
  "to_json lib limits arguments =
     and_then (arity_range arguments 1 1) (\<lambda>_.
     if is_sensitive (arguments ! 0) then Err InvalidOperation
     else and_then (write_json lib (result_bytes limits) (value_depth limits) (arguments ! 0) 0 []) (\<lambda>s. Ok (String s)))"

end
