(* ===== verification/ExprTree.thy ===== *)
theory ExprTree
  imports ExprEval
begin

text \<open>
  The tree of a program and its evaluation, \<open>Tree\<close> and \<open>GithubExpressionEvaluator\<close> in
  \<open>evaluator.rs\<close>.  A node refers to its operands by their index in the node table; the type of the references is a parameter
  of the node type and of the operations on one node, so that the same operations also serve the reference semantics on syntax trees.
\<close>

section \<open>Nodes\<close>

datatype 'n Node =
    Literal GithubValue
  | Named utext
  | Wildcard
  | Index 'n 'n
  | Negation 'n
  | Compare ExpressionComparison 'n 'n
  | Logical ExpressionLogical "'n list"
  | Call utext "'n list"

definition literal_value :: "ExpressionLiteral \<Rightarrow> GithubValue" where
  "literal_value l =
     (case l of LitNull \<Rightarrow> Null | LitBoolean b \<Rightarrow> Boolean b | LitNumber b \<Rightarrow> GithubValue_number b | LitString s \<Rightarrow> String s)"

definition pop_many :: "nat list \<Rightarrow> nat \<Rightarrow> (nat list \<times> nat list) ev_result" where
  "pop_many stack count =
     (if length stack < count then Err Internal else Ok (rev (take count stack), drop count stack))"

definition pop_index :: "nat list \<Rightarrow> (nat \<times> nat list) ev_result" where
  "pop_index stack = (case stack of [] \<Rightarrow> Err Internal | i # rest \<Rightarrow> Ok (i, rest))"

fun compile_node :: "ExpressionInstruction \<Rightarrow> nat list \<Rightarrow> (nat Node \<times> nat list) ev_result" where
  "compile_node (InsLiteral l) stack = Ok (Literal (literal_value l), stack)"
| "compile_node (InsNamedValue name) stack = Ok (Named name, stack)"
| "compile_node InsWildcard stack = Ok (Wildcard, stack)"
| "compile_node InsIndex stack =
     and_then (pop_index stack) (\<lambda>(index, stack).
     and_then (pop_index stack) (\<lambda>(target, stack). Ok (Index target index, stack)))"
| "compile_node InsNot stack = and_then (pop_index stack) (\<lambda>(operand, stack). Ok (Negation operand, stack))"
| "compile_node (InsCompare operator) stack =
     and_then (pop_index stack) (\<lambda>(right, stack).
     and_then (pop_index stack) (\<lambda>(left, stack). Ok (Compare operator left right, stack)))"
| "compile_node (InsLogical operator count) stack =
     and_then (pop_many stack (unat count)) (\<lambda>(operands, stack). Ok (Logical operator operands, stack))"
| "compile_node (InsCall name count) stack =
     and_then (pop_many stack (unat count)) (\<lambda>(arguments, stack). Ok (Call name arguments, stack))"

definition compile_step ::
  "ExpressionInstruction \<Rightarrow> nat Node list \<times> nat list \<Rightarrow> (nat Node list \<times> nat list) ev_result" where
  "compile_step instruction state =
     (case state of (nodes, stack) \<Rightarrow>
      and_then (compile_node instruction stack) (\<lambda>(node, stack). Ok (nodes @ [node], length nodes # stack)))"

record Tree =
  nodes :: "nat Node list"
  root :: nat

definition Tree_compile :: "ExpressionInstruction list \<Rightarrow> Tree ev_result" where
  "Tree_compile code =
     and_then (try_fold compile_step code ([], [])) (\<lambda>(ns, stack).
     case stack of [i] \<Rightarrow> Ok \<lparr>nodes = ns, root = i\<rparr> | _ \<Rightarrow> Err Internal)"

section \<open>Indexing\<close>

record Evaluated =
  ev_value :: GithubValue
  ev_filtered :: bool

definition plain :: "GithubValue \<Rightarrow> Evaluated" where
  "plain v = \<lparr>ev_value = v, ev_filtered = False\<rparr>"

definition filtered_array :: "EvalLimits \<Rightarrow> Identity \<Rightarrow> GithubValue list \<Rightarrow> Evaluated ev_result" where
  "filtered_array limits i values =
     (if length values > collection_items limits then Err ResourceLimit
      else and_then (map_err (\<lambda>_. ResourceLimit) (GithubValue_array i values)) (\<lambda>v.
        Ok \<lparr>ev_value = v, ev_filtered = True\<rparr>))"

definition primitive_index_string :: "GithubValue \<Rightarrow> utext option" where
  "primitive_index_string v = (if is_primitive v then Some (to_string v) else None)"

text \<open>The largest 32-bit integer as a number is \<open>0x41DFFFFFFFC00000\<close>.  A negative zero prints with its sign, which an
  unsigned integer does not accept.\<close>

definition array_index :: "GithubValue \<Rightarrow> nat option" where
  "array_index v =
     (let number = to_number v in
      if is_nan number \<or> f64_key number < 0 \<or> f64_key number > f64_key 0x41DFFFFFFFC00000 \<or> f64_sign number then None
      else Some (f64_floor number))"

definition nth_value :: "GithubValue list \<Rightarrow> nat \<Rightarrow> GithubValue option" where
  "nth_value values position = (if position < length values then Some (values ! position) else None)"

definition inherit_evaluated :: "bool \<Rightarrow> Evaluated \<Rightarrow> Evaluated" where
  "inherit_evaluated sensitive e = e\<lparr>ev_value := inherit_sensitivity sensitive (ev_value e)\<rparr>"

definition index_one ::
  "Library \<Rightarrow> EvalLimits \<Rightarrow> Identity \<Rightarrow> GithubValue \<Rightarrow> GithubValue option \<Rightarrow> Evaluated ev_result" where
  "index_one lib limits i target index =
     and_then
       (case (without_sensitivity target, index) of
          (Object _ entries, None) \<Rightarrow> filtered_array limits i (map snd entries)
        | (Object _ entries, Some v) \<Rightarrow>
            Ok (plain (case Option.bind (primitive_index_string v) (object_get (upper lib) entries) of
              Some found \<Rightarrow> found | None \<Rightarrow> Null))
        | (Array _ values, None) \<Rightarrow> filtered_array limits i values
        | (Array _ values, Some v) \<Rightarrow>
            Ok (plain (case Option.bind (array_index v) (nth_value values) of Some found \<Rightarrow> found | None \<Rightarrow> Null))
        | (_, None) \<Rightarrow> filtered_array limits i []
        | (_, Some _) \<Rightarrow> Ok (plain Null)) (\<lambda>e.
     Ok (inherit_evaluated (is_explicitly_sensitive target) e))"

text \<open>What one element of a filtered array contributes.\<close>

definition project :: "Library \<Rightarrow> GithubValue option \<Rightarrow> GithubValue \<Rightarrow> GithubValue list" where
  "project lib index v =
     map (inherit_sensitivity (is_explicitly_sensitive v))
       (case (without_sensitivity v, index) of
          (Object _ entries, None) \<Rightarrow> map snd entries
        | (Object _ entries, Some key) \<Rightarrow>
            (case Option.bind (primitive_index_string key) (object_get (upper lib) entries) of Some found \<Rightarrow> [found] | None \<Rightarrow> [])
        | (Array _ values, None) \<Rightarrow> values
        | (Array _ values, Some position) \<Rightarrow>
            (case Option.bind (array_index position) (nth_value values) of Some found \<Rightarrow> [found] | None \<Rightarrow> [])
        | _ \<Rightarrow> [])"

fun project_all ::
  "Library \<Rightarrow> EvalLimits \<Rightarrow> GithubValue option \<Rightarrow> GithubValue list \<Rightarrow> GithubValue list \<Rightarrow> GithubValue list ev_result" where
  "project_all lib limits index [] found = Ok found"
| "project_all lib limits index (v # vs) found =
     (let found = found @ project lib index v in
      if length found > collection_items limits then Err ResourceLimit else project_all lib limits index vs found)"

definition index_filtered ::
  "Library \<Rightarrow> EvalLimits \<Rightarrow> Identity \<Rightarrow> GithubValue \<Rightarrow> GithubValue option \<Rightarrow> Evaluated ev_result" where
  "index_filtered lib limits i target index =
     (case without_sensitivity target of
        Array _ values \<Rightarrow>
          and_then (project_all lib limits index values []) (\<lambda>found.
          and_then (map_err (\<lambda>_. ResourceLimit) (GithubValue_array i found)) (\<lambda>v.
          Ok \<lparr>ev_value = inherit_sensitivity (is_explicitly_sensitive target) v, ev_filtered = True\<rparr>))
      | _ \<Rightarrow> Err Internal)"

section \<open>Evaluation of a node\<close>

type_synonym outcome = "Evaluated ev_result option"

definition return :: "GithubValue \<Rightarrow> outcome" where
  "return v = Some (Ok (plain v))"

definition evaluate_index ::
  "Library \<Rightarrow> EvalLimits \<Rightarrow> Identity \<Rightarrow> ('n \<Rightarrow> bool) \<Rightarrow> ('n \<Rightarrow> outcome) \<Rightarrow> Evaluated \<Rightarrow> 'n \<Rightarrow> outcome" where
  "evaluate_index lib limits i wildcard ev target index_node =
     and_then_opt
       (if wildcard index_node then Some (Ok (None, False))
        else and_then_opt (ev index_node) (\<lambda>e. Some (Ok (Some (ev_value e), is_sensitive (ev_value e)))))
       (\<lambda>(index, sensitive).
     and_then_opt
       (Some (if ev_filtered target then index_filtered lib limits i (ev_value target) index
              else index_one lib limits i (ev_value target) index)) (\<lambda>e.
     Some (Ok (inherit_evaluated sensitive e))))"

definition compare_values :: "Library \<Rightarrow> ExpressionComparison \<Rightarrow> GithubValue \<Rightarrow> GithubValue \<Rightarrow> bool" where
  "compare_values lib operator l r =
     (case operator of
        CmpEqual \<Rightarrow> abstract_equal (upper lib) l r
      | NotEqual \<Rightarrow> \<not> abstract_equal (upper lib) l r
      | GreaterThan \<Rightarrow> abstract_compare (upper lib) l r = Some Greater
      | GreaterThanOrEqual \<Rightarrow> abstract_equal (upper lib) l r \<or> abstract_compare (upper lib) l r = Some Greater
      | LessThan \<Rightarrow> abstract_compare (upper lib) l r = Some Less
      | LessThanOrEqual \<Rightarrow> abstract_equal (upper lib) l r \<or> abstract_compare (upper lib) l r = Some Less)"

fun logical_loop ::
  "('n \<Rightarrow> outcome) \<Rightarrow> ExpressionLogical \<Rightarrow> 'n list \<Rightarrow> Evaluated \<Rightarrow> bool \<Rightarrow> outcome" where
  "logical_loop ev operator [] final sensitive = Some (Ok (inherit_evaluated sensitive final))"
| "logical_loop ev operator (operand # operands) final sensitive =
     and_then_opt (ev operand) (\<lambda>final.
     let sensitive = (sensitive \<or> is_sensitive (ev_value final));
         truthy = is_truthy (ev_value final) in
     if (case operator of LogicalAnd \<Rightarrow> \<not> truthy | LogicalOr \<Rightarrow> truthy)
     then Some (Ok (inherit_evaluated sensitive final))
     else logical_loop ev operator operands final sensitive)"

definition evaluate_logical :: "('n \<Rightarrow> outcome) \<Rightarrow> ExpressionLogical \<Rightarrow> 'n list \<Rightarrow> outcome" where
  "evaluate_logical ev operator operands = logical_loop ev operator operands (plain Null) False"

definition evaluate_value :: "('n \<Rightarrow> outcome) \<Rightarrow> 'n \<Rightarrow> GithubValue ev_result option" where
  "evaluate_value ev n = and_then_opt (ev n) (\<lambda>e. Some (Ok (ev_value e)))"

fun evaluate_all :: "('n \<Rightarrow> outcome) \<Rightarrow> 'n list \<Rightarrow> GithubValue list ev_result option" where
  "evaluate_all ev [] = Some (Ok [])"
| "evaluate_all ev (n # ns) =
     and_then_opt (evaluate_value ev n) (\<lambda>v. and_then_opt (evaluate_all ev ns) (\<lambda>vs. Some (Ok (v # vs))))"

definition evaluate_binary_function :: "Library \<Rightarrow> ('n \<Rightarrow> outcome) \<Rightarrow> utext \<Rightarrow> 'n list \<Rightarrow> outcome" where
  "evaluate_binary_function lib ev name arguments =
     (if length arguments \<noteq> 2 then Some (Err InvalidOperation)
      else and_then_opt (evaluate_value ev (arguments ! 0)) (\<lambda>left.
        if \<not> (case without_sensitivity left of
               Array _ values \<Rightarrow> name = chars ''contains'' \<and> values \<noteq> []
             | v \<Rightarrow> is_primitive v)
        then return (inherit_sensitivity (is_sensitive left) (Boolean False))
        else and_then_opt (evaluate_value ev (arguments ! 1)) (\<lambda>right.
          and_then_opt
            (Some (if name = chars ''contains'' then contains lib [left, right]
                   else if name = chars ''startswith'' then starts_with lib [left, right]
                   else if name = chars ''endswith'' then ends_with lib [left, right]
                   else Err Internal)) return)))"

definition evaluate_join :: "EvalLimits \<Rightarrow> ('n \<Rightarrow> outcome) \<Rightarrow> 'n list \<Rightarrow> outcome" where
  "evaluate_join limits ev arguments =
     (if \<not> (1 \<le> length arguments \<and> length arguments \<le> 2) then Some (Err InvalidOperation)
      else and_then_opt (evaluate_value ev (arguments ! 0)) (\<lambda>items.
        let needs_separator = (case without_sensitivity items of Array _ values \<Rightarrow> length values > 1 | _ \<Rightarrow> False) in
        and_then_opt
          (if needs_separator \<and> length arguments = 2
           then and_then_opt (evaluate_value ev (arguments ! 1)) (\<lambda>separator. Some (Ok [items, separator]))
           else Some (Ok [items])) (\<lambda>values.
        and_then_opt (Some (join values (result_bytes limits))) return)))"

definition checked_return :: "EvalLimits \<Rightarrow> GithubValue \<Rightarrow> outcome" where
  "checked_return limits v = and_then_opt (Some (enforce_value_limits v limits)) (\<lambda>_. return v)"

definition evaluate_format :: "EvalLimits \<Rightarrow> ('n \<Rightarrow> outcome) \<Rightarrow> 'n list \<Rightarrow> outcome" where
  "evaluate_format limits ev arguments =
     (if arguments = [] \<or> length arguments > 255 then Some (Err InvalidOperation)
      else and_then_opt (evaluate_value ev (arguments ! 0)) (\<lambda>template.
        and_then_opt
          (format_template (to_string template) (is_sensitive template) (length (tl arguments)) (result_bytes limits)
             (\<lambda>index. evaluate_value ev (tl arguments ! index))) (checked_return limits)))"

fun case_loop :: "('n \<Rightarrow> outcome) \<Rightarrow> 'n list \<Rightarrow> bool \<Rightarrow> outcome" where
  "case_loop ev (predicate # selected # rest) sensitive =
     and_then_opt (evaluate_value ev predicate) (\<lambda>v.
     let sensitive = (sensitive \<or> is_sensitive v) in
     case as_bool (without_sensitivity v) of
       None \<Rightarrow> Some (Err InvalidOperation)
     | Some b \<Rightarrow>
         if b then and_then_opt (ev selected) (\<lambda>e. Some (Ok (inherit_evaluated sensitive e)))
         else case_loop ev rest sensitive)"
| "case_loop ev [otherwise] sensitive = and_then_opt (ev otherwise) (\<lambda>e. Some (Ok (inherit_evaluated sensitive e)))"
| "case_loop ev [] sensitive = Some (Err Internal)"

definition evaluate_case :: "('n \<Rightarrow> outcome) \<Rightarrow> 'n list \<Rightarrow> outcome" where
  "evaluate_case ev arguments =
     (if length arguments < 3 \<or> length arguments > 255 \<or> even (length arguments) then Some (Err InvalidOperation)
      else case_loop ev arguments False)"

definition evaluate_call ::
  "Library \<Rightarrow> EvalContext \<Rightarrow> EvalLimits \<Rightarrow> nat \<Rightarrow> ('n \<Rightarrow> outcome) \<Rightarrow> utext \<Rightarrow> 'n list \<Rightarrow> outcome" where
  "evaluate_call lib ctx limits node ev called arguments =
     (let name = to_ascii_lowercase called in
      if name = chars ''success'' then return (Boolean (context_status ctx = StatusSuccess))
      else if name = chars ''failure'' then return (Boolean (context_status ctx = StatusFailure))
      else if name = chars ''always'' \<or> name = chars ''cancelled'' then
        if arguments \<noteq> [] then Some (Err InvalidOperation)
        else return (Boolean (name = chars ''always'' \<or> context_status ctx = StatusCancelled))
      else if name = chars ''case'' then evaluate_case ev arguments
      else if name = chars ''format'' then evaluate_format limits ev arguments
      else if name = chars ''contains'' \<or> name = chars ''startswith'' \<or> name = chars ''endswith'' then
        evaluate_binary_function lib ev name arguments
      else if name = chars ''join'' then evaluate_join limits ev arguments
      else if (name = chars ''fromjson'' \<or> name = chars ''tojson'') \<and> length arguments \<noteq> 1 then Some (Err InvalidOperation)
      else if name = chars ''hashfiles'' \<and> \<not> (1 \<le> length arguments \<and> length arguments \<le> 255) then Some (Err InvalidOperation)
      else and_then_opt (evaluate_all ev arguments) (\<lambda>values.
        and_then_opt
          (Some (if name = chars ''fromjson'' then from_json lib limits node values
                 else if name = chars ''tojson'' then to_json lib limits values
                 else case extension ctx name values of None \<Rightarrow> Err UnavailableContext | Some r \<Rightarrow> r)) (\<lambda>v.
        checked_return limits (inherit_sensitivity (any_sensitive values) v))))"

definition evaluate_node ::
  "Library \<Rightarrow> EvalContext \<Rightarrow> EvalLimits \<Rightarrow> ('n \<Rightarrow> bool) \<Rightarrow> ('n \<Rightarrow> outcome) \<Rightarrow> nat \<Rightarrow> 'n Node \<Rightarrow> outcome" where
  "evaluate_node lib ctx limits wildcard ev i node =
     (case node of
        Literal v \<Rightarrow> return v
      | Named name \<Rightarrow> checked_return limits (case named_value ctx name of Some v \<Rightarrow> v | None \<Rightarrow> Null)
      | Wildcard \<Rightarrow> Some (Err Internal)
      | Index target index \<Rightarrow>
          and_then_opt (ev target) (\<lambda>e. evaluate_index lib limits (Allocated i 0) wildcard ev e index)
      | Negation operand \<Rightarrow>
          and_then_opt (evaluate_value ev operand) (\<lambda>v.
          return (inherit_sensitivity (is_sensitive v) (Boolean (\<not> is_truthy v))))
      | Compare operator left right \<Rightarrow>
          and_then_opt (evaluate_value ev left) (\<lambda>l.
          and_then_opt (evaluate_value ev right) (\<lambda>r.
          return (inherit_sensitivity (is_sensitive l \<or> is_sensitive r) (Boolean (compare_values lib operator l r)))))
      | Logical operator operands \<Rightarrow> evaluate_logical ev operator operands
      | Call name arguments \<Rightarrow> evaluate_call lib ctx limits i ev name arguments)"

section \<open>Evaluation of a program\<close>

definition is_wildcard :: "nat Node list \<Rightarrow> nat \<Rightarrow> bool" where
  "is_wildcard ns i \<longleftrightarrow> i < length ns \<and> ns ! i = Wildcard"

primrec Tree_evaluate ::
  "nat \<Rightarrow> Library \<Rightarrow> EvalContext \<Rightarrow> EvalLimits \<Rightarrow> nat Node list \<Rightarrow> nat \<Rightarrow> outcome" where
  "Tree_evaluate 0 lib ctx limits ns i = None"
| "Tree_evaluate (Suc fuel) lib ctx limits ns i =
     (if i \<ge> length ns then Some (Err Internal)
      else evaluate_node lib ctx limits (is_wildcard ns) (Tree_evaluate fuel lib ctx limits ns) i (ns ! i))"

definition DIALECT :: utext where "DIALECT = chars ''github-actions''"
definition DIALECT_VERSION :: u16 where "DIALECT_VERSION = 1"

definition Evaluator_evaluate ::
  "Library \<Rightarrow> EvalLimits \<Rightarrow> ExpressionProgram \<Rightarrow> EvalContext \<Rightarrow> GithubValue ev_result option" where
  "Evaluator_evaluate lib limits program ctx =
     and_then_opt (Some (map_err (\<lambda>_. UnsupportedProgram) (ExpressionProgram_validate program))) (\<lambda>_.
     if dialect_name (dialect program) \<noteq> DIALECT \<or> dialect_version (dialect program) \<noteq> DIALECT_VERSION
     then Some (Err UnsupportedProgram)
     else and_then_opt (Some (Tree_compile (instructions program))) (\<lambda>tree.
       and_then_opt (Tree_evaluate (length (nodes tree)) lib ctx limits (nodes tree) (root tree)) (\<lambda>e.
       and_then_opt (Some (enforce_value_limits (ev_value e) limits)) (\<lambda>_. Some (Ok (ev_value e))))))"

definition evaluate_condition ::
  "Library \<Rightarrow> EvalLimits \<Rightarrow> ExpressionProgram \<Rightarrow> EvalContext \<Rightarrow> bool ev_result option" where
  "evaluate_condition lib limits program ctx =
     and_then_opt (Evaluator_evaluate lib limits program ctx) (\<lambda>v. Some (Ok (is_truthy v)))"

end
