(* ===== verification/ExprSample.thy ===== *)
theory ExprSample
  imports ExprTree
begin

text \<open>
  A sample library, context and program, and the run of the evaluator on them, on which the properties of the
  evaluator are exercised.
\<close>

text \<open>A library that upper-cases ASCII letters, reads only the empty array and quotes without escapes, and a context with a
  secret token, a plain name and no extension functions.\<close>

definition sample_library :: Library where
  "sample_library = \<lparr>upper = (\<lambda>c. if 97 \<le> c \<and> c \<le> 122 then [c - 32] else [c]),
     json_document = (\<lambda>s. if s = chars ''[]'' then (JsonSeq [] True, True) else (JsonSyntaxError, True)),
     json_string = (\<lambda>s. chars [CHR 0x22] @ s @ chars [CHR 0x22])\<rparr>"

definition sample_context :: "utext \<Rightarrow> EvalContext" where
  "sample_context token = \<lparr>named_value = (\<lambda>name. if name = chars ''github'' then
       Some (Object (Host 0) [(chars ''token'', Sensitive (String token)), (chars ''actor'', String (chars ''kim''))]) else None),
     context_status = StatusSuccess, extension = (\<lambda>_ _. None)\<rparr>"

text \<open>The program of \<open>!github.token\<close> and of \<open>!github.actor\<close>.\<close>

definition sample_program :: "utext \<Rightarrow> ExpressionProgram" where
  "sample_program property = \<lparr>schema_version = 1, dialect = \<lparr>dialect_name = chars ''github-actions'', dialect_version = 1\<rparr>,
     source = chars ''!github.'' @ property,
     instructions = [InsNamedValue (chars ''github''), InsLiteral (LitString property), InsIndex, InsNot]\<rparr>"

lemmas validate_simps = ExpressionProgram_validate_def chars_def is_control_def utf8_length_def EXPRESSION_PROGRAM_SCHEMA_VERSION_def
  MAX_EXPRESSION_SOURCE_BYTES_def MAX_EXPRESSION_INSTRUCTIONS_def MAX_EXPRESSION_TEXT_BYTES_def MAX_EXPRESSION_DEPTH_def
  validate_program_identifier_def canonical_identifier_def canonical_identifier_segment_def charge_text_def
  usize_checked_add_def push_value_def pop_value_def pop_non_wildcard_def is_digit_def ensure_def

lemma sample_valid:
  "ExpressionProgram_validate (sample_program (chars ''actor'')) = Ok ()"
  "ExpressionProgram_validate (sample_program (chars ''token'')) = Ok ()"
  by (simp_all add: sample_program_def validate_simps)

lemma sample_compile: "Tree_compile (instructions (sample_program p)) =
   Ok \<lparr>nodes = [Named (chars ''github''), Literal (String p), Index 0 1, Negation 2], root = 3\<rparr>"
  by (simp add: sample_program_def Tree_compile_def compile_step_def pop_index_def literal_value_def)

lemma sample_keys: "object_get (upper sample_library) [(chars ''token'', v), (chars ''actor'', w)] (chars ''actor'') = Some w"
  "object_get (upper sample_library) [(chars ''token'', v), (chars ''actor'', w)] (chars ''token'') = Some v"
  by (simp_all add: object_get_def ordinal_key_def ordinal_fold_character_def sample_library_def chars_def)

lemma sample_run:
  assumes p: "p = chars ''token'' \<or> p = chars ''actor''" and t: "utf8_length token \<le> 100"
  shows "Evaluator_evaluate sample_library EvalLimits_default (sample_program p) (sample_context token) =
    Some (Ok (if p = chars ''token'' then Sensitive (Boolean (token = [])) else Boolean False))"
proof -
  have limits: "enforce_value_limits (Object (Host 0) [(chars ''token'', Sensitive (String token)), (chars ''actor'', String (chars ''kim''))])
     EvalLimits_default = Ok ()" "enforce_value_limits (Boolean b) EvalLimits_default = Ok ()" "enforce_value_limits (Sensitive (Boolean b)) EvalLimits_default = Ok ()" for b
    using t by (simp_all add: enforce_value_limits_def EvalLimits_default_def limit_children_def limit_texts_def usize_checked_add_def
      without_sensitivity.simps, simp_all add: chars_def utf8_length_def)
  have "Evaluator_evaluate sample_library EvalLimits_default (sample_program p) (sample_context token) =
     and_then_opt (Tree_evaluate (Suc (Suc (Suc (Suc 0)))) sample_library (sample_context token) EvalLimits_default 
        [Named (chars ''github''), Literal (String p), Index 0 1, Negation 2] 3)
       (\<lambda>e. and_then_opt (Some (enforce_value_limits (ev_value e) EvalLimits_default)) (\<lambda>_. Some (Ok (ev_value e))))"
    using p sample_valid by (auto simp: Evaluator_evaluate_def sample_compile simp del: Tree_evaluate.simps) (auto simp: sample_program_def DIALECT_def DIALECT_VERSION_def)
  also have "\<dots> = Some (Ok (if p = chars ''token'' then Sensitive (Boolean (token = [])) else Boolean False))" using p
    by (elim disjE) (simp_all add: sample_keys eval_nat_numeral evaluate_node_def checked_return_def sample_context_def limits return_def plain_def 
      evaluate_value_def evaluate_index_def is_wildcard_def index_one_def primitive_index_string_def inherit_evaluated_def is_primitive_def to_string_def 
      inherit_sensitivity_def mark_sensitive_def is_explicitly_sensitive.simps, simp_all add: chars_def)
  finally show ?thesis .
qed

end
