(* ===== verification/ExprSafe.thy ===== *)
theory ExprSafe
  imports ExprSample
begin

text \<open>
  Evaluating a validated program always returns, within fuel equal to its number of nodes, and never reports an internal error: the
  validation establishes what the tree builder and the evaluator rely on.
\<close>

section \<open>Outcomes without internal errors\<close>

definition proper :: "('a \<Rightarrow> bool) \<Rightarrow> 'a ev_result \<Rightarrow> bool" where
  "proper P r = (case r of Inl e \<Rightarrow> e \<noteq> Internal | Inr x \<Rightarrow> P x)"

definition returns :: "('a \<Rightarrow> bool) \<Rightarrow> 'a ev_result option \<Rightarrow> bool" where
  "returns P r = (case r of None \<Rightarrow> False | Some r \<Rightarrow> proper P r)"

abbreviation anything :: "'a \<Rightarrow> bool" where
  "anything \<equiv> \<lambda>_. True"

named_theorems proper_intros

lemma proper_simps [simp]: "proper P (Ok x) \<longleftrightarrow> P x" "proper P (Err e) \<longleftrightarrow> e \<noteq> Internal"
  by (simp_all add: proper_def)

lemma returns_simps [simp]: "returns P (Some r) \<longleftrightarrow> proper P r" "\<not> returns P None"
  by (simp_all add: returns_def)

lemma proper_and_then [proper_intros]:
  "proper anything r \<Longrightarrow> (\<And>x. proper P (f x)) \<Longrightarrow> proper P (and_then r f)"
  by (cases r) simp_all

lemma proper_map_err [proper_intros]: "(\<And>e. f e \<noteq> Internal) \<Longrightarrow> P = anything \<Longrightarrow> proper P (map_err f r)"
  by (cases r) simp_all

lemma proper_ok_or [proper_intros]: "e \<noteq> Internal \<Longrightarrow> proper anything (ok_or e p)"
  by (cases p) simp_all

lemma proper_ensure [proper_intros]: "e \<noteq> Internal \<Longrightarrow> proper anything (ensure b e)"
  by (simp add: ensure_def)

lemma proper_if [proper_intros]: "(b \<Longrightarrow> proper P r) \<Longrightarrow> (\<not> b \<Longrightarrow> proper P s) \<Longrightarrow> proper P (if b then r else s)"
  by simp

lemma returns_bind:
  "returns Q r \<Longrightarrow> (\<And>x. Q x \<Longrightarrow> returns P (f x)) \<Longrightarrow> returns P (and_then_opt r f)"
proof (cases r)
  case (Some q)
  then show "returns Q r \<Longrightarrow> (\<And>x. Q x \<Longrightarrow> returns P (f x)) \<Longrightarrow> returns P (and_then_opt r f)"
    by (cases q) (simp_all add: and_then_opt_def)
qed simp

lemma returns_if: "(b \<Longrightarrow> returns P q) \<Longrightarrow> (\<not> b \<Longrightarrow> returns P r) \<Longrightarrow> returns P (if b then q else r)"
  by simp

lemma returns_mono: "returns Q r \<Longrightarrow> (\<And>x. Q x \<Longrightarrow> P x) \<Longrightarrow> returns P r"
  by (auto simp: returns_def proper_def split: option.splits sum.splits)

section \<open>Functions\<close>

lemma proper_charge [proper_intros]: "proper anything (charge_bytes ss n)"
  by (induction ss arbitrary: n) (auto intro!: proper_intros)

lemma proper_limits [proper_intros]: "proper anything (enforce_value_limits v limits)"
proof -
  have "proper anything (limit_loop limits aggregate items stack)" for aggregate items stack
    by (induction limits aggregate items stack rule: limit_loop.induct) (auto intro!: proper_intros)
  then show ?thesis by (simp only: enforce_value_limits_def)
qed

lemma proper_append [proper_intros]: "proper anything (append_bounded s t n)"
  by (auto simp: append_bounded_def intro!: proper_intros)

lemma proper_arity [proper_intros]: "proper anything (arity_range xs a b)"
  by (auto simp: arity_range_def intro!: proper_intros)

lemma proper_predicates [proper_intros]:
  "proper anything (contains lib vs)" "proper anything (starts_with lib vs)" "proper anything (ends_with lib vs)"
  by (auto simp: contains_def starts_with_def ends_with_def string_predicate_def Let_def intro!: proper_intros)

lemma proper_join [proper_intros]: "proper anything (join vs n)"
proof -
  have "proper anything (join_loop separator n initial vals written)" for separator initial vals written
    by (induction separator n initial vals written rule: join_loop.induct) (auto intro!: proper_intros)
  then show ?thesis
    by (auto simp: join_def intro!: proper_intros split: GithubValue.splits)
qed

lemma proper_json_value:
  assumes "\<And>x a b. document = JsonSeq a b \<Longrightarrow> proper anything (json_values lib limits node (depth + 1) a (x, k))"
    "\<And>x a b. document = JsonMap a b \<Longrightarrow> proper anything (json_entries lib limits node (depth + 1) a (x, k))"
  shows "proper anything (json_value lib limits node depth document (items, k))"
  unfolding json_value.simps
proof (rule proper_and_then)
  show "proper anything (observe limits depth items)" by (auto simp: observe_def intro!: proper_intros)
qed (use assms in \<open>cases document; simp only: JsonDocument.case proper_simps; auto intro!: proper_intros split: prod.splits\<close>)

lemma proper_json [proper_intros]:
  "proper anything (json_value lib limits node depth document c)"
  "proper anything (json_values lib limits node depth documents c)"
  "proper anything (json_entries lib limits node depth entries c)"
proof (induction lib limits node depth document c and lib limits node depth documents c and lib limits node depth entries c
    rule: json_value_json_values_json_entries.induct)
  case (1 lib limits node depth document items k)
  then show ?case by (intro proper_json_value) blast+
next
  case (3 lib limits node depth document documents counters)
  then show ?case by (auto intro!: proper_intros split: prod.splits)
next
  case (5 lib limits node depth key document documents counters)
  then show ?case by (auto intro!: proper_intros split: prod.splits)
qed simp_all

lemma proper_from_json [proper_intros]: "proper anything (from_json lib limits node vs)"
  by (auto simp: from_json_def intro!: proper_intros split: prod.splits)

lemma proper_indent [proper_intros]: "proper anything (write_indent n depth written)"
proof -
  have "proper anything (try_fold (\<lambda>_ written. append_bounded written s n) xs written)" for s and xs :: "nat list" and written
    by (induction xs arbitrary: written) (auto intro!: proper_intros)
  then show ?thesis by (simp add: write_indent_def)
qed

lemma proper_write [proper_intros]:
  "proper anything (write_json lib n d v depth written)"
  "proper anything (write_items lib n d initial vals depth written)"
  "proper anything (write_entries lib n d initial entries depth written)"
proof (induction lib n d v depth written and lib n d initial vals depth written and lib n d initial entries depth written
    rule: write_json_write_items_write_entries.induct)
  case (1 lib n d v depth written)
  then show ?case
    by (subst write_json.simps) (cases v; auto intro!: proper_intros)
qed (auto intro!: proper_intros)

lemma proper_to_json [proper_intros]: "proper anything (to_json lib limits vs)"
  by (auto simp: to_json_def intro!: proper_intros)

section \<open>Nodes\<close>

text \<open>A filtered result is an array.\<close>

definition collection :: "Evaluated \<Rightarrow> bool" where
  "collection e \<longleftrightarrow> ev_filtered e \<longrightarrow> (\<exists>i vs. without_sensitivity (ev_value e) = Array i vs)"

lemma without_inherit [simp]: "without_sensitivity (inherit_sensitivity b v) = without_sensitivity v"
  by (simp add: inherit_sensitivity_def mark_sensitive_def)

lemma collection_plain [simp]: "collection (plain v)"
  by (simp add: collection_def plain_def)

lemma collection_inherit [simp]: "collection (inherit_evaluated b e) = collection e"
  by (simp add: collection_def inherit_evaluated_def)

lemma returns_return [simp]: "returns collection (return v)"
  by (simp add: return_def)

lemma proper_filtered_array: "proper collection (filtered_array limits i vs)"
  by (simp add: filtered_array_def GithubValue_array_def collection_def)

lemma proper_inherit:
  "proper collection r \<Longrightarrow> proper collection (and_then r (\<lambda>e. Ok (inherit_evaluated b e)))"
  by (cases r) simp_all

lemma proper_index_one: "proper collection (index_one lib limits i target index)"
  unfolding index_one_def
  by (rule proper_inherit; cases "without_sensitivity target"; cases index) (simp_all add: proper_filtered_array)

lemma proper_project_all: "proper anything (project_all lib limits index vs found)"
  by (induction vs arbitrary: found) (simp_all add: Let_def)

lemma proper_index_filtered:
  assumes "without_sensitivity target = Array j vs"
  shows "proper collection (index_filtered lib limits i target index)"
proof -
  have "proper collection (and_then (map_err (\<lambda>_. ResourceLimit) (GithubValue_array i found)) (\<lambda>v.
      Ok \<lparr>ev_value = inherit_sensitivity b v, ev_filtered = True\<rparr>))" for found b
    by (simp add: GithubValue_array_def collection_def)
  then show ?thesis
    using proper_project_all[of lib limits index vs "[]"] by (auto simp: index_filtered_def assms intro: proper_and_then)
qed

lemma returns_evaluate_index:
  assumes "collection e" "\<not> wildcard n \<Longrightarrow> returns collection (ev n)"
  shows "returns collection (evaluate_index lib limits i wildcard ev e n)"
proof -
  have "returns collection (and_then_opt
      (Some (if ev_filtered e then index_filtered lib limits i (ev_value e) index else index_one lib limits i (ev_value e) index))
      (\<lambda>e. Some (Ok (inherit_evaluated b e))))" for index b
    using assms(1) proper_index_filtered[of "ev_value e" _ _ lib limits i index]
    by (intro returns_bind[where Q = collection]) (auto simp: collection_def[of e] proper_index_one)
  moreover have "returns anything (if wildcard n then Some (Ok (None, False))
      else and_then_opt (ev n) (\<lambda>e. Some (Ok (Some (ev_value e), is_sensitive (ev_value e)))))"
    using assms(2) by (auto intro: returns_bind)
  ultimately show ?thesis
    unfolding evaluate_index_def by (intro returns_bind[where Q = anything]) (auto split: prod.splits)
qed

lemma returns_value: "returns collection (ev n) \<Longrightarrow> returns anything (evaluate_value ev n)"
  unfolding evaluate_value_def by (rule returns_bind) simp_all

lemma returns_all: "(\<And>n. n \<in> set ns \<Longrightarrow> returns collection (ev n)) \<Longrightarrow> returns anything (evaluate_all ev ns)"
  by (induction ns) (auto intro!: returns_bind[where Q = anything] returns_value)

lemma returns_logical:
  "(\<And>n. n \<in> set ns \<Longrightarrow> returns collection (ev n)) \<Longrightarrow> collection final \<Longrightarrow>
   returns collection (logical_loop ev operator ns final sensitive)"
  by (induction ns arbitrary: final sensitive) (auto simp: Let_def intro!: returns_bind[where Q = collection])

lemma returns_selected:
  "returns collection (ev n) \<Longrightarrow> returns collection (and_then_opt (ev n) (\<lambda>e. Some (Ok (inherit_evaluated b e))))"
  by (rule returns_bind) simp_all

lemma returns_case:
  "(\<And>n. n \<in> set ns \<Longrightarrow> returns collection (ev n)) \<Longrightarrow> odd (length ns) \<Longrightarrow>
   returns collection (case_loop ev ns sensitive)"
proof (induction ev ns sensitive rule: case_loop.induct)
  case (1 ev predicate selected rest sensitive)
  show ?case
    unfolding case_loop.simps Let_def
  proof (rule returns_bind[where Q = anything])
    fix v
    show "returns collection (case as_bool (without_sensitivity v) of None \<Rightarrow> Some (Err InvalidOperation)
      | Some b \<Rightarrow> if b then and_then_opt (ev selected) (\<lambda>e. Some (Ok (inherit_evaluated (sensitive \<or> is_sensitive v) e)))
          else case_loop ev rest (sensitive \<or> is_sensitive v))"
      using 1 returns_selected[of ev selected] by (auto split: option.splits)
  qed (use 1 in \<open>simp add: returns_value\<close>)
qed (auto intro: returns_selected)

lemma returns_binary:
  "(\<And>n. n \<in> set ns \<Longrightarrow> returns collection (ev n)) \<Longrightarrow> name \<in> {chars ''contains'', chars ''startswith'', chars ''endswith''} \<Longrightarrow>
   returns collection (evaluate_binary_function lib ev name ns)"
  unfolding evaluate_binary_function_def
  by (auto intro!: returns_bind[where Q = anything] returns_value proper_intros simp: length_Suc_conv numeral_2_eq_2)

lemma returns_join:
  "(\<And>n. n \<in> set ns \<Longrightarrow> returns collection (ev n)) \<Longrightarrow> returns collection (evaluate_join limits ev ns)"
  unfolding evaluate_join_def Let_def
  by (auto intro!: returns_bind[where Q = anything] returns_value proper_intros simp: Suc_le_eq)

lemma returns_recall:
  assumes "\<And>k. k < count \<Longrightarrow> returns anything (argument k)" "index < count"
  shows "returns anything (recall argument index cache)"
  using assms(1)[OF assms(2)] by (auto simp: recall_def Let_def intro!: returns_bind split: option.splits)

lemma proper_placeholder: "proper (\<lambda>index. index < count) (placeholder_index inside count)"
  by (auto simp: placeholder_index_def Let_def split: option.splits)

lemma returns_append:
  "(\<And>x. returns P (f x)) \<Longrightarrow> returns P (and_then_opt (Some (append_bounded written s maximum)) f)"
  by (rule returns_bind[where Q = anything]) (auto intro: proper_intros)

lemma returns_format_loop:
  assumes arguments: "\<And>k. k < count \<Longrightarrow> returns anything (argument k)"
  shows "returns anything (format_loop argument count maximum template written cache sensitive)"
proof (induction "length template" arbitrary: template written cache sensitive rule: less_induct)
  case less
  show ?case
  proof (cases template)
    case (Cons c rest)
    have placeholder: "returns anything (and_then_opt (Some (placeholder_index inside count)) (\<lambda>index.
        and_then_opt (recall argument index cache) (\<lambda>((s, value_sensitive), cache).
        and_then_opt (Some (append_bounded written s maximum)) (\<lambda>written.
        format_loop argument count maximum after written cache (sensitive \<or> value_sensitive)))))"
      if "split_once 125 rest = Some (inside, after)" for inside after
    proof (rule returns_bind[where Q = "\<lambda>index. index < count"])
      fix index assume "index < count"
      then show "returns anything (and_then_opt (recall argument index cache) (\<lambda>((s, value_sensitive), cache).
          and_then_opt (Some (append_bounded written s maximum)) (\<lambda>written.
          format_loop argument count maximum after written cache (sensitive \<or> value_sensitive))))"
        using split_once_shorter[OF that] Cons
        by (intro returns_bind[where Q = anything] returns_recall[OF arguments]) (auto intro!: returns_append less)
    qed (simp add: proper_placeholder)
    have "returns anything (and_then_opt (Some (append_bounded written s maximum)) (\<lambda>written.
        format_loop argument count maximum t written cache sensitive))" if "length t < length template" for s t
      using that by (intro returns_append less)
    with placeholder show ?thesis
      by (subst format_loop.simps) (simp add: Cons split: option.splits)
  qed (simp add: format_loop.simps)
qed

lemma returns_checked: "returns collection (checked_return limits v)"
  unfolding checked_return_def by (rule returns_bind[where Q = anything]) (auto intro: proper_intros)

lemma returns_format:
  assumes "\<And>n. n \<in> set ns \<Longrightarrow> returns collection (ev n)"
  shows "returns collection (evaluate_format limits ev ns)"
proof (cases ns)
  case (Cons n rest)
  have "returns anything (evaluate_value ev n)" "\<And>k. k < length rest \<Longrightarrow> returns anything (evaluate_value ev (rest ! k))"
    using assms by (auto simp: Cons intro: returns_value)
  then show ?thesis
    by (auto simp: evaluate_format_def format_template_def Cons split: prod.splits
        intro!: returns_bind[where Q = anything] returns_format_loop returns_checked)
qed (simp add: evaluate_format_def)

lemma returns_call:
  assumes args: "\<And>n. n \<in> set ns \<Longrightarrow> returns collection (ev n)"
    and ext: "\<And>name vs. extension ctx name vs \<noteq> Some (Err Internal)"
  shows "returns collection (evaluate_call lib ctx limits i ev name ns)"
proof -
  have "proper anything (case extension ctx name vs of None \<Rightarrow> Err UnavailableContext | Some r \<Rightarrow> r)" for name vs
    using ext[of name vs] by (auto simp: proper_def split: option.splits sum.splits)
  then have "returns collection (and_then_opt (evaluate_all ev ns) (\<lambda>vs. and_then_opt
      (Some (if name = chars ''fromjson'' then from_json lib limits i vs else if name = chars ''tojson'' then to_json lib limits vs
        else case extension ctx name vs of None \<Rightarrow> Err UnavailableContext | Some r \<Rightarrow> r)) (\<lambda>v.
      checked_return limits (inherit_sensitivity (any_sensitive vs) v))))" for name
    by (intro returns_bind[where Q = anything] returns_all args) (auto intro: proper_intros returns_checked)
  note library = this
  note forms = returns_return returns_format[OF args] returns_join[OF args] returns_case[OF args]
  show ?thesis
    unfolding evaluate_call_def Let_def evaluate_case_def
    by (intro returns_if library) (auto intro!: forms returns_binary[OF args])
qed

section \<open>Well-formed trees\<close>

text \<open>The operands that are evaluated with their node; an index is evaluated unless it is the wildcard.\<close>

fun evaluated :: "nat Node \<Rightarrow> nat set" where
  "evaluated (Index target index) = {target}"
| "evaluated node = set_Node node"

definition node_ok :: "nat Node list \<Rightarrow> nat \<Rightarrow> bool" where
  "node_ok ns i \<longleftrightarrow> (\<forall>j \<in> set_Node (ns ! i). j < i) \<and> (\<forall>j \<in> evaluated (ns ! i). \<not> is_wildcard ns j)"

definition tree_ok :: "nat Node list \<Rightarrow> bool" where
  "tree_ok ns \<longleftrightarrow> (\<forall>i < length ns. node_ok ns i)"

lemma returns_node:
  assumes ext: "\<And>name vs. extension ctx name vs \<noteq> Some (Err Internal)"
    and ev: "\<And>j. j \<in> set_Node node \<Longrightarrow> \<not> wildcard j \<Longrightarrow> returns collection (ev j)"
    and evaluated: "\<And>j. j \<in> evaluated node \<Longrightarrow> \<not> wildcard j" and "node \<noteq> Wildcard"
  shows "returns collection (evaluate_node lib ctx limits wildcard ev i node)"
proof (cases node)
  case (Index target index)
  have "returns collection (ev target)" "\<not> wildcard index \<Longrightarrow> returns collection (ev index)"
    using ev[of target] ev[of index] evaluated[of target] by (simp_all add: Index)
  then show ?thesis
    by (auto simp: evaluate_node_def Index intro: returns_bind returns_evaluate_index)
next
  case (Negation operand)
  then show ?thesis using ev[of operand] evaluated[of operand]
    by (auto simp: evaluate_node_def intro!: returns_bind[where Q = anything] returns_value)
next
  case (Compare operator left right)
  then show ?thesis using ev[of left] evaluated[of left] ev[of right] evaluated[of right]
    by (auto simp: evaluate_node_def intro!: returns_bind[where Q = anything] returns_value)
next
  case (Logical operator operands)
  then show ?thesis using ev evaluated
    by (auto simp: evaluate_node_def evaluate_logical_def intro!: returns_logical)
next
  case (Call name arguments)
  then show ?thesis using ev evaluated
    by (auto simp: evaluate_node_def intro!: returns_call[OF _ ext])
qed (use \<open>node \<noteq> Wildcard\<close> in \<open>simp_all add: evaluate_node_def returns_checked\<close>)

lemma returns_tree:
  assumes ext: "\<And>name vs. extension ctx name vs \<noteq> Some (Err Internal)" and ok: "tree_ok ns"
  shows "i < length ns \<Longrightarrow> \<not> is_wildcard ns i \<Longrightarrow> i < fuel \<Longrightarrow> returns collection (Tree_evaluate fuel lib ctx limits ns i)"
proof (induction fuel arbitrary: i)
  case (Suc fuel)
  have "node_ok ns i" using ok Suc.prems(1) by (simp add: tree_ok_def)
  then have node: "\<And>j. j \<in> set_Node (ns ! i) \<Longrightarrow> j < i" "\<And>j. j \<in> evaluated (ns ! i) \<Longrightarrow> \<not> is_wildcard ns j"
    by (auto simp: node_ok_def)
  moreover have "ns ! i \<noteq> Wildcard" using Suc.prems by (simp add: is_wildcard_def)
  ultimately have "returns collection
      (evaluate_node lib ctx limits (is_wildcard ns) (Tree_evaluate fuel lib ctx limits ns) i (ns ! i))"
  proof (intro returns_node[OF ext])
    fix j assume "j \<in> set_Node (ns ! i)" "\<not> is_wildcard ns j"
    with node(1)[of j] Suc.prems show "returns collection (Tree_evaluate fuel lib ctx limits ns j)"
      by (intro Suc.IH) auto
  qed auto
  with Suc.prems show ?case by simp
qed simp

section \<open>Validation and compilation in step\<close>

definition matches_stack :: "nat Node list \<Rightarrow> StackValue \<Rightarrow> nat \<Rightarrow> bool" where
  "matches_stack ns v j \<longleftrightarrow> j < length ns \<and> (sv_wildcard v \<longleftrightarrow> is_wildcard ns j)"

definition in_step :: "StackValue list \<Rightarrow> nat Node list \<times> nat list \<Rightarrow> bool" where
  "in_step vs state = (case state of (ns, stack) \<Rightarrow> list_all2 (matches_stack ns) vs stack \<and> tree_ok ns)"

lemma wildcard_append: "j < length ns \<Longrightarrow> is_wildcard (ns @ ms) j = is_wildcard ns j"
  by (simp add: is_wildcard_def nth_append)

lemma tree_ok_snoc:
  assumes "tree_ok ns" "\<And>j. j \<in> set_Node node \<Longrightarrow> j < length ns" "\<And>j. j \<in> evaluated node \<Longrightarrow> \<not> is_wildcard ns j"
  shows "tree_ok (ns @ [node])"
proof -
  have subset: "j \<in> evaluated node \<Longrightarrow> j \<in> set_Node node" for node j by (cases node) auto
  have "node_ok (ns @ [node]) i" if "i < length ns" for i
  proof -
    have ok: "node_ok ns i" using assms(1) that by (simp add: tree_ok_def)
    then have "is_wildcard (ns @ [node]) j = is_wildcard ns j" if "j \<in> evaluated (ns ! i)" for j
      using that subset[of j "ns ! i"] \<open>i < length ns\<close> by (intro wildcard_append) (auto simp: node_ok_def)
    with ok that show ?thesis by (simp add: node_ok_def nth_append)
  qed
  moreover have "node_ok (ns @ [node]) (length ns)"
    using assms(2,3) subset by (auto simp: node_ok_def wildcard_append)
  ultimately show ?thesis by (simp add: tree_ok_def less_Suc_eq)
qed

lemma in_step_push:
  assumes "in_step vs (ns, stack)" "\<And>j. j \<in> set_Node node \<Longrightarrow> j < length ns" "\<And>j. j \<in> evaluated node \<Longrightarrow> \<not> is_wildcard ns j"
    and "push_value depth (node = Wildcard) logical vs = Ok vs'"
  shows "in_step vs' (ns @ [node], length ns # stack)"
proof -
  have "list_all2 (matches_stack (ns @ [node])) vs stack"
    using assms(1) by (auto simp: in_step_def matches_stack_def wildcard_append elim!: list_all2_mono)
  then show ?thesis
    using assms tree_ok_snoc[of ns node]
    by (auto simp: in_step_def push_value_def matches_stack_def is_wildcard_def split: if_splits)
qed

lemma in_step_Cons: "in_step (v # vs) (ns, stack) \<Longrightarrow>
  \<exists>j rest. stack = j # rest \<and> j < length ns \<and> (sv_wildcard v \<longleftrightarrow> is_wildcard ns j) \<and> in_step vs (ns, rest)"
  by (auto simp: in_step_def matches_stack_def list_all2_Cons1)

lemma in_step_take:
  assumes "in_step vs (ns, stack)" "\<not> length vs < n" "\<not> list_ex sv_wildcard (take n vs)"
  shows "\<not> length stack < n" "in_step (drop n vs) (ns, drop n stack)"
    "j \<in> set (take n stack) \<Longrightarrow> j < length ns \<and> \<not> is_wildcard ns j"
proof -
  have all: "list_all2 (matches_stack ns) vs stack" using assms(1) by (simp add: in_step_def)
  then show "\<not> length stack < n" using assms(2) by (simp add: list_all2_lengthD)
  show "in_step (drop n vs) (ns, drop n stack)" using assms(1) by (simp add: in_step_def list_all2_dropI)
  show "j < length ns \<and> \<not> is_wildcard ns j" if "j \<in> set (take n stack)"
  proof -
    from that obtain i where i: "i < n" "i < length stack" "j = stack ! i" by (auto simp: in_set_conv_nth)
    then have "matches_stack ns (vs ! i) j" "i < length vs" using all by (auto simp: list_all2_conv_all_nth)
    moreover from this i(1) have "vs ! i \<in> set (take n vs)" by (auto simp: in_set_conv_nth intro!: exI[of _ i])
    ultimately show ?thesis using assms(3) by (auto simp: matches_stack_def list_ex_iff)
  qed
qed

lemma pop_non_wildcard_Ok:
  "pop_non_wildcard stack = Ok (v, rest) \<longleftrightarrow> stack = v # rest \<and> \<not> sv_wildcard v"
  by (auto simp: pop_non_wildcard_def pop_value_def split: list.splits)

lemma pop_values_Ok:
  "pop_values stack n = Ok (vs, rest) \<longleftrightarrow>
     \<not> length stack < n \<and> \<not> list_ex sv_wildcard (take n stack) \<and> vs = rev (take n stack) \<and> rest = drop n stack"
  by (auto simp: pop_values_def Let_def list_ex_iff)

lemma in_step_instruction:
  assumes step: "in_step vs (ns, stack)" and valid: "validate_instruction instruction (charged, vs) = Ok (charged', vs')"
  shows "\<exists>state. compile_step instruction (ns, stack) = Ok state \<and> in_step vs' state \<and> length (fst state) = Suc (length ns)"
proof (cases instruction)
  case (InsLiteral l)
  with valid have "push_value 1 False None vs = Ok vs'" by (auto simp: result_simps split: prod.splits)
  then show ?thesis
    using in_step_push[OF step, of "Literal (literal_value l)"] by (simp add: InsLiteral compile_step_def)
next
  case (InsNamedValue name)
  with valid have "push_value 1 False None vs = Ok vs'" by (auto simp: result_simps split: prod.splits)
  then show ?thesis
    using in_step_push[OF step, of "Named name"] by (simp add: InsNamedValue compile_step_def)
next
  case InsWildcard
  with valid have "push_value 1 True None vs = Ok vs'" by (auto simp: result_simps split: prod.splits)
  then show ?thesis
    using in_step_push[OF step, of Wildcard] by (simp add: InsWildcard compile_step_def)
next
  case InsIndex
  with valid obtain index target rest depth where "vs = index # target # rest" "\<not> sv_wildcard target"
      "push_value depth False None rest = Ok vs'"
    by (auto simp: result_simps pop_non_wildcard_Ok pop_value_def split: prod.splits list.splits)
  moreover from this step obtain j k more where "stack = j # k # more" "j < length ns" "k < length ns" "\<not> is_wildcard ns k"
      "in_step rest (ns, more)"
    by (auto dest!: in_step_Cons)
  ultimately show ?thesis
    using in_step_push[of rest ns more "Index k j" depth None vs'] by (auto simp: InsIndex compile_step_def pop_index_def)
next
  case InsNot
  with valid obtain operand rest depth where "vs = operand # rest" "\<not> sv_wildcard operand"
      "push_value depth False None rest = Ok vs'"
    by (auto simp: result_simps pop_non_wildcard_Ok split: prod.splits)
  then show ?thesis
    using step in_step_push[of rest ns _ "Negation _"]
    by (auto simp: InsNot compile_step_def pop_index_def dest!: in_step_Cons)
next
  case (InsCompare operator)
  with valid obtain right left rest depth where "vs = right # left # rest" "\<not> sv_wildcard left" "\<not> sv_wildcard right"
      "push_value depth False None rest = Ok vs'"
    by (auto simp: result_simps pop_non_wildcard_Ok split: prod.splits)
  moreover from this step obtain j k more where "stack = j # k # more" "j < length ns" "k < length ns" "\<not> is_wildcard ns j"
      "\<not> is_wildcard ns k" "in_step rest (ns, more)"
    by (auto dest!: in_step_Cons)
  ultimately show ?thesis
    using in_step_push[of rest ns more "Compare operator k j" depth None vs']
    by (auto simp: InsCompare compile_step_def pop_index_def)
next
  case (InsLogical operator count)
  with valid obtain depth where popped: "\<not> length vs < unat count" "\<not> list_ex sv_wildcard (take (unat count) vs)"
      "push_value depth False (Some operator) (drop (unat count) vs) = Ok vs'"
    by (auto simp: result_simps pop_values_Ok split: prod.splits if_splits)
  then show ?thesis
    using in_step_take[OF step popped(1,2)] in_step_push[of "drop (unat count) vs" ns "drop (unat count) stack" "Logical operator (rev (take (unat count) stack))"]
    by (auto simp: InsLogical compile_step_def pop_many_def)
next
  case (InsCall name count)
  with valid obtain depth where popped: "\<not> length vs < unat count" "\<not> list_ex sv_wildcard (take (unat count) vs)"
      "push_value depth False None (drop (unat count) vs) = Ok vs'"
    by (auto simp: result_simps pop_values_Ok split: prod.splits if_splits)
  then show ?thesis
    using in_step_take[OF step popped(1,2)] in_step_push[of "drop (unat count) vs" ns "drop (unat count) stack" "Call name (rev (take (unat count) stack))"]
    by (auto simp: InsCall compile_step_def pop_many_def)
qed

lemma in_step_program:
  assumes "in_step vs (ns, stack)" "try_fold validate_instruction code (charged, vs) = Ok (charged', vs')"
  shows "\<exists>state. try_fold compile_step code (ns, stack) = Ok state \<and> in_step vs' state \<and>
    length (fst state) = length ns + length code"
  using assms
proof (induction code arbitrary: charged vs ns stack)
  case (Cons instruction code)
  from Cons.prems(2) obtain charged1 vs1 where first: "validate_instruction instruction (charged, vs) = Ok (charged1, vs1)"
    and rest: "try_fold validate_instruction code (charged1, vs1) = Ok (charged', vs')"
    by (auto simp: result_simps)
  from in_step_instruction[OF Cons.prems(1) first] obtain ns1 stack1 where
    "compile_step instruction (ns, stack) = Ok (ns1, stack1)" "in_step vs1 (ns1, stack1)" "length ns1 = Suc (length ns)"
    by auto
  with Cons.IH[OF _ rest, of ns1 stack1] show ?case by simp
qed simp

lemma validated_tree:
  assumes "ExpressionProgram_validate program = Ok ()"
  obtains tree where "Tree_compile (instructions program) = Ok tree" "tree_ok (nodes tree)" "root tree < length (nodes tree)"
    "\<not> is_wildcard (nodes tree) (root tree)" "length (nodes tree) = length (instructions program)"
proof -
  from assms obtain charged vs where fold: "try_fold validate_instruction (instructions program) (0, []) = Ok (charged, vs)"
    and final: "(case vs of [result] \<Rightarrow> if sv_wildcard result then Err WildcardOutsideIndex else Ok ()
      | _ \<Rightarrow> Err (InvalidFinalStack (length vs))) = Ok ()"
    unfolding ExpressionProgram_validate_def result_simps by (auto split: prod.splits)
  from final obtain v where v: "vs = [v]" "\<not> sv_wildcard v"
    by (auto split: list.splits if_splits)
  note run = fold[unfolded v(1)]
  have "in_step [] ([], [])" by (simp add: in_step_def tree_ok_def)
  from in_step_program[OF this run] obtain ns stack where
    "try_fold compile_step (instructions program) ([], []) = Ok (ns, stack)" "in_step [v] (ns, stack)"
    "length ns = length (instructions program)"
    by auto
  moreover from this(2) obtain i where "stack = [i]" "i < length ns" "\<not> is_wildcard ns i" "tree_ok ns"
    using v(2) by (auto simp: in_step_def matches_stack_def list_all2_Cons1)
  ultimately show thesis by (intro that[of "\<lparr>nodes = ns, root = i\<rparr>"]) (simp_all add: Tree_compile_def)
qed

text \<open>C15. Evaluating any program in any context returns, and never with an internal error: a program that the
  validation rejects is unsupported, and one that it accepts compiles to a tree whose operands precede their
  nodes and whose wildcards are only ever indices, so that neither the tree builder nor the evaluator meets a case it does not
  handle.  The extension functions are assumed not to report internal errors of their own.\<close>

theorem evaluation_returns_properly:
  assumes "\<And>name vs. extension ctx name vs \<noteq> Some (Err Internal)"
  shows "\<exists>r. Evaluator_evaluate lib limits program ctx = Some r \<and> r \<noteq> Err Internal"
proof -
  have "returns anything (Evaluator_evaluate lib limits program ctx)"
  proof (cases "ExpressionProgram_validate program")
    case (Inr u)
    then obtain tree where tree: "Tree_compile (instructions program) = Ok tree" "tree_ok (nodes tree)"
        "root tree < length (nodes tree)" "\<not> is_wildcard (nodes tree) (root tree)"
      by (auto elim: validated_tree)
    have "returns collection (Tree_evaluate (length (nodes tree)) lib ctx limits (nodes tree) (root tree))"
      using tree by (intro returns_tree assms) auto
    then show ?thesis
      by (auto simp: Evaluator_evaluate_def Inr tree(1) intro!: returns_bind proper_intros)
  qed (simp add: Evaluator_evaluate_def)
  then show ?thesis by (auto simp: returns_def proper_def split: option.splits sum.splits)
qed

theorem evaluation_returns_properly_witness:
  "\<exists>r. Evaluator_evaluate sample_library EvalLimits_default (sample_program (chars ''token'')) (sample_context (chars ''abc'')) =
     Some r \<and> r \<noteq> Err Internal"
  by (rule evaluation_returns_properly) (simp add: sample_context_def)

end
