(* ===== verification/ExprLimits.thy ===== *)
theory ExprLimits
  imports ExprSample
begin

text \<open>
  The limits of a value, as \<open>enforce_value_limits\<close> checks them with an explicit stack, are its depth, its number of
  values and the bytes of its texts; every result of an evaluation respects them.
\<close>

section \<open>Measures of a value\<close>

text \<open>A mark of sensitivity counts nowhere.\<close>

fun nesting :: "GithubValue \<Rightarrow> nat" where
  "nesting (Sensitive v) = nesting v"
| "nesting (Array i values) = Suc (Max (insert 0 (set (map nesting values))))"
| "nesting (Object i entries) = Suc (Max (insert 0 (set (map (\<lambda>(k, v). nesting v) entries))))"
| "nesting _ = 1"

fun value_bytes :: "GithubValue \<Rightarrow> nat" where
  "value_bytes (Sensitive v) = value_bytes v"
| "value_bytes (String s) = utf8_length s"
| "value_bytes (Array i values) = sum_list (map value_bytes values)"
| "value_bytes (Object i entries) = sum_list (map (\<lambda>(k, v). utf8_length k + value_bytes v) entries)"
| "value_bytes _ = 0"

definition within :: "EvalLimits \<Rightarrow> GithubValue \<Rightarrow> bool" where
  "within limits v \<longleftrightarrow>
     nesting v \<le> value_depth limits \<and> value_size v \<le> collection_items limits \<and> value_bytes v \<le> result_bytes limits"

section \<open>The stack loop\<close>

lemma measures_without:
  "nesting (without_sensitivity v) = nesting v" "value_bytes (without_sensitivity v) = value_bytes v"
  by (induction v rule: without_sensitivity.induct) simp_all

lemma size_children: "value_size v = Suc (sum_list (map value_size (limit_children v)))"
proof -
  have "value_size (without_sensitivity v) = Suc (sum_list (map value_size (limit_children v)))"
  proof (induction v rule: without_sensitivity.induct)
    case (1 v)
    then show ?case by (simp add: limit_children_def)
  qed (simp_all add: limit_children_def o_def case_prod_unfold)
  then show ?thesis by (simp add: value_size_without)
qed

lemma bytes_children:
  "value_bytes v = sum_list (map utf8_length (limit_texts v)) + sum_list (map value_bytes (limit_children v))"
proof (induction v rule: without_sensitivity.induct)
  case (1 v)
  then show ?case by (simp add: limit_children_def limit_texts_def)
qed (simp_all add: limit_children_def limit_texts_def o_def case_prod_unfold sum_list_addf)

lemma nesting_children: "nesting v \<le> Suc d \<longleftrightarrow> (\<forall>child \<in> set (limit_children v). nesting child \<le> d)"
proof (induction v rule: without_sensitivity.induct)
  case (1 v)
  then show ?case by (simp add: limit_children_def)
qed (auto simp: limit_children_def)

lemma nesting_pos: "0 < nesting v"
  by (induction v rule: nesting.induct) simp_all

lemma nesting_pushed:
  "depth + nesting v \<le> Suc d \<longleftrightarrow> depth \<le> d \<and> (\<forall>child \<in> set (limit_children v). Suc depth + nesting child \<le> Suc d)"
proof (cases "depth \<le> d")
  case True
  then obtain k where "d = depth + k" using le_iff_add by blast
  with nesting_children[of v k] show ?thesis by simp
qed (use nesting_pos[of v] in simp)

lemma usize_add_Some: "usize_checked_add a b = Some c \<Longrightarrow> c = a + b"
  by (simp add: usize_checked_add_def split: if_splits)

lemma usize_add_None: "usize_checked_add a b = None \<Longrightarrow> 2 ^ 64 \<le> a + b"
  by (simp add: usize_checked_add_def split: if_splits)

lemma charge_bytes_sum: "charge_bytes ss n = Ok m \<Longrightarrow> m = n + sum_list (map utf8_length ss)"
proof (induction ss arbitrary: n)
  case (Cons s ss)
  then obtain k where k: "usize_checked_add n (utf8_length s) = Some k" "charge_bytes ss k = Ok m" by (auto simp: result_simps)
  with Cons.IH[of k] usize_add_Some[OF k(1)] show ?case by simp
qed simp

lemma charge_bytes_overflow: "charge_bytes ss n = Err e \<Longrightarrow> 2 ^ 64 \<le> n + sum_list (map utf8_length ss)"
proof (induction ss arbitrary: n)
  case (Cons s ss)
  show ?case
  proof (cases "usize_checked_add n (utf8_length s)")
    case None
    then show ?thesis using usize_add_None[of n "utf8_length s"] by simp
  next
    case (Some k)
    then have "2 ^ 64 \<le> k + sum_list (map utf8_length ss)" using Cons by simp
    with usize_add_Some[OF Some] show ?thesis by simp
  qed
qed simp

lemma charge_bytes_Ok:
  assumes "B < 2 ^ 64"
  shows "(case charge_bytes ss n of Inl _ \<Rightarrow> False | Inr m \<Rightarrow> m \<le> B) \<longleftrightarrow> n + sum_list (map utf8_length ss) \<le> B"
proof (cases "charge_bytes ss n")
  case (Inl e)
  then show ?thesis using charge_bytes_overflow[OF Inl] assms by simp
next
  case (Inr m)
  then show ?thesis using charge_bytes_sum[OF Inr] by simp
qed

lemma charge_bytes_error: "charge_bytes ss n = Err e \<Longrightarrow> e = ResourceLimit"
  by (induction ss arbitrary: n) (auto simp: and_then_eq_Inl elim!: ok_or.elims)

definition stack_within :: "EvalLimits \<Rightarrow> nat \<Rightarrow> nat \<Rightarrow> (GithubValue \<times> nat) list \<Rightarrow> bool" where
  "stack_within limits aggregate items stack \<longleftrightarrow>
     (\<forall>(v, depth) \<in> set stack. depth + nesting v \<le> Suc (value_depth limits)) \<and>
     items + sum_list (map (value_size \<circ> fst) stack) \<le> collection_items limits \<and>
     aggregate + sum_list (map (value_bytes \<circ> fst) stack) \<le> result_bytes limits"

lemma limit_loop_within:
  assumes "result_bytes limits < 2 ^ 64" "collection_items limits < 2 ^ 64 - 1"
  shows "items \<le> collection_items limits \<Longrightarrow> aggregate \<le> result_bytes limits \<Longrightarrow>
    limit_loop limits aggregate items stack = Ok () \<longleftrightarrow> stack_within limits aggregate items stack"
  using assms
proof (induction limits aggregate items stack rule: limit_loop.induct)
  case (2 limits aggregate items v depth stack)
  let ?texts = "sum_list (map utf8_length (limit_texts v))"
  let ?pushed = "rev (map (\<lambda>child. (child, depth + 1)) (limit_children v)) @ stack"
  have add: "usize_checked_add items 1 = Some (Suc items)"
    using 2 by (simp add: usize_checked_add_def)
  have "stack_within limits (aggregate + ?texts) (Suc items) ?pushed \<and> depth \<le> value_depth limits \<longleftrightarrow>
      stack_within limits aggregate items ((v, depth) # stack)"
    using nesting_pushed[of depth v "value_depth limits"] size_children[of v] bytes_children[of v]
    by (simp add: stack_within_def o_def rev_map[symmetric] ball_Un add.assoc conj_ac)
  moreover have "limit_loop limits aggregate items ((v, depth) # stack) = Ok () \<longleftrightarrow>
      stack_within limits (aggregate + ?texts) (Suc items) ?pushed \<and> depth \<le> value_depth limits"
  proof (cases "depth \<le> value_depth limits \<and> Suc items \<le> collection_items limits \<and> aggregate + ?texts \<le> result_bytes limits")
    case True
    then obtain charged where "charge_bytes (limit_texts v) aggregate = Ok charged"
      using charge_bytes_Ok[OF "2.prems"(3), of "limit_texts v" aggregate] by (auto split: sum.splits)
    moreover from this have "charged = aggregate + ?texts" by (rule charge_bytes_sum)
    ultimately show ?thesis using True add "2.IH"[of "Suc items" "aggregate + ?texts"] "2.prems" by simp
  next
    case False
    then have "\<not> (stack_within limits (aggregate + ?texts) (Suc items) ?pushed \<and> depth \<le> value_depth limits)"
      by (auto simp: stack_within_def)
    moreover have "limit_loop limits aggregate items ((v, depth) # stack) \<noteq> Ok ()"
      using False add charge_bytes_Ok[OF "2.prems"(3), of "limit_texts v" aggregate]
      by (auto simp: result_simps)
    ultimately show ?thesis by simp
  qed
  ultimately show ?case by simp
qed (simp add: stack_within_def)

section \<open>Properties\<close>

lemma enforce_within:
  assumes "EvalLimits_new bytes items depth = Ok limits"
  shows "enforce_value_limits v limits = Ok () \<longleftrightarrow> within limits v"
proof -
  from assms have "result_bytes limits < 2 ^ 64" "collection_items limits < 2 ^ 64 - 1"
    by (auto simp: EvalLimits_new_def split: if_splits)
  from limit_loop_within[OF this, of 0 0 "[(v, 1)]"] show ?thesis
    by (simp add: enforce_value_limits_def stack_within_def within_def)
qed

text \<open>C16. Under every limits that the constructor accepts, the stack loop accepts a value exactly when its depth, its number of
  values and the bytes of its texts are within them, without overflow, and every value that an evaluation returns is.\<close>

theorem results_are_within_limits:
  assumes "EvalLimits_new bytes items depth = Ok limits"
  shows "enforce_value_limits v limits = (if within limits v then Ok () else Err ResourceLimit) \<and>
    (Evaluator_evaluate lib limits program ctx = Some (Ok v) \<longrightarrow>
       nesting v \<le> depth \<and> value_size v \<le> items \<and> value_bytes v \<le> bytes)"
proof -
  have "limit_loop limits aggregate n stack = Err e \<Longrightarrow> e = ResourceLimit" for aggregate n stack e
    by (induction limits aggregate n stack rule: limit_loop.induct)
       (auto simp: and_then_eq_Inl dest!: charge_bytes_error split: if_splits elim!: ok_or.elims)
  then have "enforce_value_limits v limits = Err e \<Longrightarrow> e = ResourceLimit" for e
    unfolding enforce_value_limits_def .
  then have "enforce_value_limits v limits = (if within limits v then Ok () else Err ResourceLimit)"
    using enforce_within[OF assms, of v] by (cases "enforce_value_limits v limits") auto
  moreover have "within limits v" if "Evaluator_evaluate lib limits program ctx = Some (Ok v)"
    using that enforce_within[OF assms, of v]
    by (auto simp: Evaluator_evaluate_def and_then_opt_eq_Ok split: if_splits)
  moreover have "depth = value_depth limits" "items = collection_items limits" "bytes = result_bytes limits"
    using assms by (auto simp: EvalLimits_new_def split: if_splits)
  ultimately show ?thesis by (simp add: within_def)
qed

theorem results_are_within_limits_witness:
  "Evaluator_evaluate sample_library EvalLimits_default (sample_program (chars ''actor'')) (sample_context (chars ''abc'')) =
     Some (Ok (Boolean False)) \<and>
   nesting (Boolean False) \<le> 50 \<and> value_size (Boolean False) \<le> 65536 \<and> value_bytes (Boolean False) \<le> 1048576"
proof -
  have limits: "EvalLimits_new 1048576 65536 50 = Ok EvalLimits_default"
    by (simp add: EvalLimits_new_def EvalLimits_default_def)
  have "Evaluator_evaluate sample_library EvalLimits_default (sample_program (chars ''actor'')) (sample_context (chars ''abc'')) =
     Some (Ok (Boolean False))"
    using sample_run[of "chars ''actor''" "chars ''abc''"] by (simp add: chars_def utf8_length_def)
  with results_are_within_limits[OF limits] show ?thesis by blast
qed

end
