(* ===== verification/ExprFlow.thy ===== *)
theory ExprFlow
  imports ExprSample
begin

text \<open>
  Sensitive values do not flow into unmarked results.  Two runs of one program, in contexts that differ only below marks of
  sensitivity, return results that differ only below such marks, so that a result without marks is the same in both and says nothing about the secrets.
  The proof relates the two runs step by step; where they branch differently, the branch was taken on a marked value and both
  results carry the mark.
\<close>

section \<open>Agreement outside the marks\<close>

text \<open>A mark inside a collection hides a primitive value.\<close>

inductive agree :: "GithubValue \<Rightarrow> GithubValue \<Rightarrow> bool" where
  agree_sensitive: "is_primitive v \<Longrightarrow> is_primitive w \<Longrightarrow> agree (Sensitive v) (Sensitive w)"
| agree_null: "agree Null Null"
| agree_boolean: "agree (Boolean b) (Boolean b)"
| agree_number: "agree (Number b) (Number b)"
| agree_string: "agree (String s) (String s)"
| agree_array: "list_all2 agree vs ws \<Longrightarrow> agree (Array i vs) (Array i ws)"
| agree_object: "list_all2 (rel_prod (=) agree) es fs \<Longrightarrow> agree (Object i es) (Object i fs)"

text \<open>At the top, a mark may hide anything.\<close>

definition low :: "GithubValue \<Rightarrow> GithubValue \<Rightarrow> bool" where
  "low v w \<longleftrightarrow> is_explicitly_sensitive v \<and> is_explicitly_sensitive w \<or> agree v w"

definition contexts_agree :: "EvalContext \<Rightarrow> EvalContext \<Rightarrow> bool" where
  "contexts_agree c d \<longleftrightarrow>
     (\<forall>name. rel_option low (named_value c name) (named_value d name)) \<and>
     context_status c = context_status d \<and> extension c = extension d \<and>
     (\<forall>name vs v. \<not> any_sensitive vs \<longrightarrow> extension c name vs = Some (Ok v) \<longrightarrow> low v v)"

inductive_cases agree_arrayE: "agree (Array i vs) w"
inductive_cases agree_objectE: "agree (Object i es) w"
inductive_cases agree_sensitiveE: "agree (Sensitive v) w"

lemma agree_marks: "agree v w \<Longrightarrow> is_explicitly_sensitive v = is_explicitly_sensitive w"
  by (cases rule: agree.cases) auto

lemma agree_is_sensitive: "agree v w \<Longrightarrow> is_sensitive v = is_sensitive w"
proof (induction rule: agree.induct)
  case (agree_array vs ws i)
  then show ?case by (induction rule: list_all2_induct) auto
next
  case (agree_object es fs i)
  then show ?case by (induction rule: list_all2_induct) (auto simp: rel_prod.simps)
qed simp_all

lemma agree_eq: "agree v w \<Longrightarrow> \<not> is_sensitive v \<Longrightarrow> v = w"
proof (induction rule: agree.induct)
  case (agree_array vs ws i)
  then show ?case by (induction rule: list_all2_induct) auto
next
  case (agree_object es fs i)
  then show ?case by (induction rule: list_all2_induct) (auto simp: rel_prod.simps)
qed simp_all

lemma agree_refl: "\<not> is_sensitive v \<Longrightarrow> agree v v"
proof (induction v rule: is_sensitive.induct)
  case (2 i vs)
  then show ?case by (auto intro!: agree.intros simp: list_all2_same list_ex_iff)
next
  case (3 i es)
  then show ?case by (fastforce intro!: agree.intros simp: list_all2_same list_ex_iff)
qed (auto intro: agree.intros)

lemma explicit_is_sensitive: "is_explicitly_sensitive v \<Longrightarrow> is_sensitive v"
  by (cases v) auto

lemma low_is_sensitive: "low v w \<Longrightarrow> is_sensitive v = is_sensitive w"
  by (auto simp: low_def agree_is_sensitive explicit_is_sensitive)

lemma low_eq: "low v w \<Longrightarrow> \<not> is_sensitive v \<Longrightarrow> v = w"
  by (auto simp: low_def agree_eq explicit_is_sensitive)

lemma low_refl: "\<not> is_sensitive v \<Longrightarrow> low v v"
  by (simp add: low_def agree_refl)

lemma marked [simp]: "is_explicitly_sensitive (inherit_sensitivity True v)"
  by (cases v) (auto simp: inherit_sensitivity_def mark_sensitive_def)

lemma low_inherit: "s \<or> low v w \<Longrightarrow> low (inherit_sensitivity s v) (inherit_sensitivity s w)"
  by (cases s) (auto simp: low_def, auto simp: inherit_sensitivity_def)

lemma agree_low: "agree v w \<Longrightarrow> low v w"
  by (simp add: low_def)

lemma low_unmarked:
  assumes "low v w" "\<not> is_explicitly_sensitive v"
  shows "agree v w \<and> without_sensitivity v = v \<and> without_sensitivity w = w"
  using assms by (cases v; cases w) (auto simp: low_def dest: agree_marks)

lemma low_all_sensitive: "list_all2 low vs ws \<Longrightarrow> any_sensitive vs = any_sensitive ws"
  by (induction rule: list_all2_induct) (auto simp: any_sensitive_def low_is_sensitive)

lemma low_all_eq: "list_all2 low vs ws \<Longrightarrow> \<not> any_sensitive vs \<Longrightarrow> vs = ws"
  by (induction rule: list_all2_induct) (auto simp: any_sensitive_def low_eq)

section \<open>Related runs\<close>

text \<open>Two outcomes are related when the results are, if both runs succeed.\<close>

definition runs :: "('a \<Rightarrow> 'b \<Rightarrow> bool) \<Rightarrow> ('a, 'e) result option \<Rightarrow> ('b, 'e) result option \<Rightarrow> bool" where
  "runs R p q \<longleftrightarrow> (\<forall>x y. p = Some (Ok x) \<longrightarrow> q = Some (Ok y) \<longrightarrow> R x y)"

named_theorems runs_intros

lemma runs_bind [runs_intros]:
  "runs R p q \<Longrightarrow> (\<And>x y. R x y \<Longrightarrow> runs S (f x) (g y)) \<Longrightarrow> runs S (and_then_opt p f) (and_then_opt q g)"
  by (fastforce simp: runs_def and_then_opt_eq_Ok)

lemma runs_same: "(\<And>x. p = Some (Ok x) \<Longrightarrow> R x x) \<Longrightarrow> runs R p p"
  by (auto simp: runs_def)

lemma runs_Ok [simp]: "runs R (Some (Ok x)) (Some (Ok y)) \<longleftrightarrow> R x y"
  by (simp add: runs_def)

lemma runs_Err [simp]: "runs R (Some (Err e)) q" "runs R p (Some (Err e))" "runs R None q" "runs R p None"
  by (simp_all add: runs_def)

text \<open>The flag of a result matters only where the value is not marked.\<close>

definition ev_low :: "Evaluated \<Rightarrow> Evaluated \<Rightarrow> bool" where
  "ev_low e f \<longleftrightarrow> low (ev_value e) (ev_value f) \<and> (is_explicitly_sensitive (ev_value e) \<or> ev_filtered e = ev_filtered f)"

definition marks :: "outcome \<Rightarrow> bool" where
  "marks p \<longleftrightarrow> (\<forall>e. p = Some (Ok e) \<longrightarrow> is_explicitly_sensitive (ev_value e))"

lemma runs_marked: "marks p \<Longrightarrow> marks q \<Longrightarrow> runs ev_low p q"
  by (auto simp: runs_def marks_def ev_low_def low_def)

lemma ev_low_plain [simp]: "ev_low (plain v) (plain w) \<longleftrightarrow> low v w"
  by (auto simp: ev_low_def plain_def)

lemma runs_return [runs_intros]: "low v w \<Longrightarrow> runs ev_low (return v) (return w)"
  by (simp add: return_def)

lemma runs_checked_return [runs_intros]: "low v w \<Longrightarrow> runs ev_low (checked_return limits v) (checked_return limits w)"
  unfolding checked_return_def
  by (rule runs_bind[where R = "\<lambda>_ _. True"]) (simp_all add: runs_def return_def)

lemma ev_low_inherit: "s \<or> ev_low e f \<Longrightarrow> ev_low (inherit_evaluated s e) (inherit_evaluated s f)"
  by (cases s) (auto simp: ev_low_def inherit_evaluated_def low_inherit inherit_sensitivity_def, auto simp: low_def mark_sensitive_def
     split: if_splits elim!: is_explicitly_sensitive.elims)

lemma runs_value [runs_intros]:
  assumes "\<And>n. runs ev_low (ev n) (ev' n)"
  shows "runs low (evaluate_value ev n) (evaluate_value ev' n)"
  unfolding evaluate_value_def by (rule runs_bind[OF assms]) (simp add: ev_low_def)

lemma runs_all:
  "(\<And>n. runs ev_low (ev n) (ev' n)) \<Longrightarrow> runs (list_all2 low) (evaluate_all ev ns) (evaluate_all ev' ns)"
  by (induction ns) (auto intro!: runs_intros)

section \<open>Indexing\<close>

lemma agree_entries:
  "list_all2 (rel_prod (=) agree) es fs \<Longrightarrow> list_all2 agree (map snd es) (map snd fs)"
  by (induction rule: list_all2_induct) (auto simp: rel_prod.simps)

lemma agree_object_get:
  "list_all2 (rel_prod (=) agree) es fs \<Longrightarrow> rel_option agree (object_get up es key) (object_get up fs key)"
  by (induction rule: list_all2_induct) (auto simp: object_get_def rel_prod.simps)

lemma agree_nth: "list_all2 agree vs ws \<Longrightarrow> rel_option agree (nth_value vs n) (nth_value ws n)"
  by (auto simp: nth_value_def list_all2_lengthD list_all2_nthD)

lemma agree_bind:
  "(\<And>x. rel_option agree (f x) (g x)) \<Longrightarrow> rel_option agree (Option.bind p f) (Option.bind p g)"
  by (cases p) auto

lemma runs_filtered_array:
  "list_all2 agree vs ws \<Longrightarrow> runs ev_low (Some (filtered_array limits i vs)) (Some (filtered_array limits i ws))"
  by (auto simp: runs_def filtered_array_def GithubValue_array_def ev_low_def list_all2_lengthD
      intro!: agree_low agree_array split: if_splits)

lemma agree_found:
  assumes "rel_option agree p q"
  shows "low (case p of Some v \<Rightarrow> v | None \<Rightarrow> Null) (case q of Some v \<Rightarrow> v | None \<Rightarrow> Null)"
    and "list_all2 agree (case p of Some v \<Rightarrow> [v] | None \<Rightarrow> []) (case q of Some v \<Rightarrow> [v] | None \<Rightarrow> [])"
  using assms by (cases p; cases q; auto simp: agree_low agree_null)+

lemma inherit_nothing [simp]: "inherit_evaluated False e = e" "inherit_sensitivity False = (\<lambda>v. v)"
  by (simp_all add: inherit_evaluated_def inherit_sensitivity_def fun_eq_iff)

lemma and_then_Ok [simp]: "and_then r Ok = r"
  by (cases r) auto

text \<open>An unmarked target and an index that is the same in both runs.\<close>

lemma index_one_agree:
  assumes "agree v w" "\<not> is_explicitly_sensitive v"
  shows "runs ev_low (Some (index_one lib limits i v index)) (Some (index_one lib limits i w index))"
  using assms
proof (cases rule: agree.cases)
  case (agree_array vs ws j)
  then show ?thesis
    by (cases index) (simp_all add: index_one_def runs_filtered_array agree_found(1) agree_bind agree_nth)
next
  case (agree_object es fs j)
  then show ?thesis
    by (cases index) (simp_all add: index_one_def runs_filtered_array agree_found(1) agree_bind agree_object_get agree_entries)
qed (cases index; simp add: index_one_def runs_filtered_array agree_low agree_null)+

lemma project_agree: "agree v w \<Longrightarrow> list_all2 agree (project lib index v) (project lib index w)"
proof (induction rule: agree.cases)
  case (agree_sensitive v' w')
  then show ?case
    by (auto simp: project_def is_primitive_def split: GithubValue.splits)
next
  case (agree_array vs ws j)
  then show ?case
    by (cases index) (simp_all add: project_def agree_found(2) agree_bind agree_nth)
next
  case (agree_object es fs j)
  then show ?case
    by (cases index) (simp_all add: project_def agree_found(2) agree_bind agree_object_get agree_entries)
qed (cases index; simp add: project_def)+

lemma project_all_agree:
  "list_all2 agree vs ws \<Longrightarrow> list_all2 agree found found' \<Longrightarrow>
   runs (list_all2 agree) (Some (project_all lib limits index vs found)) (Some (project_all lib limits index ws found'))"
proof (induction arbitrary: found found' rule: list_all2_induct)
  case (Cons v vs w ws)
  then have "list_all2 agree (found @ project lib index v) (found' @ project lib index w)"
    by (simp add: list_all2_appendI project_agree)
  with Cons show ?case by (simp add: Let_def list_all2_lengthD)
qed simp

lemma index_filtered_agree:
  assumes "agree v w" "\<not> is_explicitly_sensitive v"
  shows "runs ev_low (Some (index_filtered lib limits i v index)) (Some (index_filtered lib limits i w index))"
  using assms
proof (cases rule: agree.cases)
  case (agree_array vs ws j)
  with project_all_agree[of vs ws "[]" "[]" lib limits index] show ?thesis
    by (auto simp: index_filtered_def runs_def result_simps GithubValue_array_def ev_low_def intro!: agree_low agree.intros split: if_splits)
qed (simp_all add: index_filtered_def)

lemma index_marked:
  "is_explicitly_sensitive v \<Longrightarrow> marks (Some (index_one lib limits i v index))"
  "is_explicitly_sensitive v \<Longrightarrow> marks (Some (index_filtered lib limits i v index))"
  by (auto simp: marks_def index_one_def index_filtered_def result_simps inherit_evaluated_def split: GithubValue.splits)

lemma marks_inherit: "s \<or> marks p \<Longrightarrow> marks (and_then_opt p (\<lambda>e. Some (Ok (inherit_evaluated s e))))"
  by (cases s) (auto simp: marks_def and_then_opt_eq_Ok inherit_evaluated_def)

lemma runs_index:
  assumes ev: "\<And>n. runs ev_low (ev n) (ev' n)" and t: "ev_low t t'"
  shows "runs ev_low (evaluate_index lib limits i wildcard ev t n) (evaluate_index lib limits i wildcard ev' t' n)"
  unfolding evaluate_index_def
proof (rule runs_bind[where R = "\<lambda>(index, s) (index', s'). s = s' \<and> (s \<or> index = index')"])
  have "runs (\<lambda>(index, s) (index', s'). s = s' \<and> (s \<or> index = index'))
     (and_then_opt (ev n) (\<lambda>e. Some (Ok (Some (ev_value e), is_sensitive (ev_value e)))))
     (and_then_opt (ev' n) (\<lambda>e. Some (Ok (Some (ev_value e), is_sensitive (ev_value e)))))"
    using ev by (rule runs_bind) (auto simp: ev_low_def low_is_sensitive dest: low_eq)
  then show "runs (\<lambda>(index, s) (index', s'). s = s' \<and> (s \<or> index = index'))
     (if wildcard n then Some (Ok (None, False))
      else and_then_opt (ev n) (\<lambda>e. Some (Ok (Some (ev_value e), is_sensitive (ev_value e)))))
     (if wildcard n then Some (Ok (None, False))
      else and_then_opt (ev' n) (\<lambda>e. Some (Ok (Some (ev_value e), is_sensitive (ev_value e)))))"
    by simp
next
  let ?at = "\<lambda>e index. Some (if ev_filtered e then index_filtered lib limits i (ev_value e) index
    else index_one lib limits i (ev_value e) index)"
  have "runs ev_low (and_then_opt (?at t index) (\<lambda>e. Some (Ok (inherit_evaluated s e))))
     (and_then_opt (?at t' index') (\<lambda>e. Some (Ok (inherit_evaluated s e))))" if "s \<or> index = index'" for index index' s
  proof (cases "s \<or> is_explicitly_sensitive (ev_value t)")
    case True
    moreover have "is_explicitly_sensitive (ev_value t) \<longleftrightarrow> is_explicitly_sensitive (ev_value t')"
      using t agree_marks by (auto simp: ev_low_def low_def)
    ultimately show ?thesis by (intro runs_marked marks_inherit) (auto simp: index_marked)
  next
    case False
    with t that have "agree (ev_value t) (ev_value t')" "ev_filtered t = ev_filtered t'" "index = index'"
      by (auto simp: ev_low_def low_def)
    with False show ?thesis
      by (intro runs_bind[where R = ev_low]) (auto simp: index_one_agree index_filtered_agree)
  qed
  then show "runs ev_low
      ((\<lambda>(index, s). and_then_opt (?at t index) (\<lambda>e. Some (Ok (inherit_evaluated s e)))) x)
      ((\<lambda>(index, s). and_then_opt (?at t' index) (\<lambda>e. Some (Ok (inherit_evaluated s e)))) y)"
    if "(\<lambda>(index, s) (index', s'). s = s' \<and> (s \<or> index = index')) x y" for x y
    using that by (auto split: prod.splits)
qed

section \<open>Lazy operators and functions\<close>

lemma logical_marked: "marks (logical_loop ev operator ns final True)"
  by (induction ns arbitrary: final)
     (auto simp: marks_def Let_def and_then_opt_eq_Ok inherit_evaluated_def split: if_splits)

lemma ev_low_eq: "ev_low e f \<Longrightarrow> \<not> is_sensitive (ev_value e) \<Longrightarrow> f = e"
  using explicit_is_sensitive low_eq by (cases e; cases f) (auto simp: ev_low_def)

text \<open>A step on the result of another: either both results contain a mark, or they are the same.\<close>

lemma runs_taint:
  assumes "runs low p q" "\<And>v w. is_sensitive v \<Longrightarrow> is_sensitive w \<Longrightarrow> runs S (f v) (g w)"
    "\<And>v. \<not> is_sensitive v \<Longrightarrow> runs S (f v) (g v)"
  shows "runs S (and_then_opt p f) (and_then_opt q g)"
proof (rule runs_bind[OF assms(1)])
  fix v w assume "low v w"
  then show "runs S (f v) (g w)"
    using assms(2)[of v w] assms(3)[of v] low_eq[of v w] low_is_sensitive[of v w] by (cases "is_sensitive v") auto
qed

lemma runs_taint_ev:
  assumes "runs ev_low p q"
    "\<And>e f. is_sensitive (ev_value e) \<Longrightarrow> is_sensitive (ev_value f) \<Longrightarrow> runs S (h e) (k f)"
    "\<And>e. \<not> is_sensitive (ev_value e) \<Longrightarrow> runs S (h e) (k e)"
  shows "runs S (and_then_opt p h) (and_then_opt q k)"
proof (rule runs_bind[OF assms(1)])
  fix e f assume e: "ev_low e f"
  then have "is_sensitive (ev_value f) = is_sensitive (ev_value e)" by (auto simp: ev_low_def dest: low_is_sensitive)
  then show "runs S (h e) (k f)"
    using assms(2)[of e f] assms(3)[of e] ev_low_eq[OF e] by (cases "is_sensitive (ev_value e)") auto
qed

lemma ev_low_refl: "\<not> is_sensitive (ev_value e) \<Longrightarrow> ev_low e e"
  by (simp add: ev_low_def low_refl)

lemma marks_Ok [simp]: "marks (Some (Ok (inherit_evaluated True e)))" "marks (Some (Err error))"
  by (simp_all add: marks_def inherit_evaluated_def)

lemma runs_logical:
  assumes ev: "\<And>n. runs ev_low (ev n) (ev' n)"
  shows "ev_low final final' \<Longrightarrow> runs ev_low (logical_loop ev operator ns final s) (logical_loop ev' operator ns final' s)"
proof (induction ns arbitrary: final final' s)
  case (Cons n ns)
  show ?case
    unfolding logical_loop.simps Let_def
  proof (rule runs_taint_ev[OF ev], goal_cases)
    case (1 e f)
    then show ?case by (intro runs_marked) (simp_all add: logical_marked)
  next
    case (2 e)
    then have "ev_low e e" by (rule ev_low_refl)
    with 2 show ?case by (simp add: Cons.IH ev_low_inherit)
  qed
qed (simp add: ev_low_inherit)

lemma marks_bind: "(\<And>x. p = Some (Ok x) \<Longrightarrow> marks (f x)) \<Longrightarrow> marks (and_then_opt p f)"
  by (auto simp: marks_def and_then_opt_eq_Ok)

lemma case_arm_marked: "marks (and_then_opt (ev n) (\<lambda>e. Some (Ok (inherit_evaluated True e))))"
  by (rule marks_inherit) simp

lemma case_marked: "marks (case_loop ev ns True)"
proof (induction ns rule: induct_list012)
  case (3 predicate selected rest)
  then show ?case
    by (auto intro!: marks_bind simp: case_arm_marked split: option.splits)
qed (simp_all add: case_arm_marked)

lemma runs_case:
  assumes ev: "\<And>n. runs ev_low (ev n) (ev' n)"
  shows "runs ev_low (case_loop ev ns s) (case_loop ev' ns s)"
proof (induction ns arbitrary: s rule: induct_list012)
  case (2 n)
  show ?case
    unfolding case_loop.simps by (rule runs_bind[OF ev]) (simp add: ev_low_inherit)
next
  case (3 predicate selected rest)
  show ?case
    unfolding case_loop.simps Let_def
  proof (rule runs_taint[OF runs_value[OF ev]], goal_cases)
    case (1 v w)
    then show ?case
      by (intro runs_marked) (simp_all add: case_marked case_arm_marked split: option.splits)
  next
    case (2 v)
    have "runs ev_low (and_then_opt (ev selected) (\<lambda>e. Some (Ok (inherit_evaluated s e))))
       (and_then_opt (ev' selected) (\<lambda>e. Some (Ok (inherit_evaluated s e))))"
      by (rule runs_bind[OF ev]) (simp add: ev_low_inherit)
    with 2 3 show ?case by (simp split: option.splits)
  qed
qed simp

lemma contains_marked:
  "any_sensitive vs \<Longrightarrow> marks (and_then_opt (Some (contains lib vs)) return)"
  "any_sensitive vs \<Longrightarrow> marks (and_then_opt (Some (starts_with lib vs)) return)"
  "any_sensitive vs \<Longrightarrow> marks (and_then_opt (Some (ends_with lib vs)) return)"
  "any_sensitive vs \<Longrightarrow> marks (and_then_opt (Some (join vs maximum)) return)"
  by (auto simp: marks_def and_then_opt_eq_Ok return_def plain_def contains_def starts_with_def ends_with_def
      string_predicate_def join_def result_simps Let_def)

lemma contains_same:
  "\<not> any_sensitive vs \<Longrightarrow> runs ev_low (and_then_opt (Some (contains lib vs)) return) (and_then_opt (Some (contains lib vs)) return)"
  "\<not> any_sensitive vs \<Longrightarrow> runs ev_low (and_then_opt (Some (starts_with lib vs)) return) (and_then_opt (Some (starts_with lib vs)) return)"
  "\<not> any_sensitive vs \<Longrightarrow> runs ev_low (and_then_opt (Some (ends_with lib vs)) return) (and_then_opt (Some (ends_with lib vs)) return)"
  "\<not> any_sensitive vs \<Longrightarrow> runs ev_low (and_then_opt (Some (join vs maximum)) return) (and_then_opt (Some (join vs maximum)) return)"
  by (auto intro!: runs_same simp: and_then_opt_eq_Ok return_def contains_def starts_with_def ends_with_def
      string_predicate_def join_def result_simps Let_def low_refl)

lemma marks_return: "marks (return (inherit_sensitivity True v))"
  by (simp add: marks_def return_def plain_def)

lemma runs_binary:
  assumes ev: "\<And>n. runs ev_low (ev n) (ev' n)"
  shows "runs ev_low (evaluate_binary_function lib ev name ns) (evaluate_binary_function lib ev' name ns)"
proof -
  let ?call = "\<lambda>l r. and_then_opt
            (Some (if name = chars ''contains'' then contains lib [l, r]
                   else if name = chars ''startswith'' then starts_with lib [l, r]
                   else if name = chars ''endswith'' then ends_with lib [l, r]
                   else Err Internal)) return"
  have marked: "marks (?call l r)" if "is_sensitive l \<or> is_sensitive r" for l r
    using that contains_marked(1-3)[of "[l, r]" lib] by (auto simp: any_sensitive_def)
  have same: "runs ev_low (?call l r) (?call l r)" if "\<not> is_sensitive l" "\<not> is_sensitive r" for l r
    using that contains_same(1-3)[of "[l, r]" lib] by (auto simp: any_sensitive_def)
  show ?thesis
    unfolding evaluate_binary_function_def
  proof (cases "length ns \<noteq> 2", goal_cases)
    case 2
    show ?case
      unfolding if_not_P[OF 2]
    proof (rule runs_taint[OF runs_value[OF ev]], goal_cases)
      case (1 v w)
      then show ?case by (intro runs_marked) (auto intro!: marks_bind marked marks_return)
    next
      case (2 v)
      have "runs ev_low (and_then_opt (evaluate_value ev (ns ! 1)) (?call v)) (and_then_opt (evaluate_value ev' (ns ! 1)) (?call v))"
        by (rule runs_taint[OF runs_value[OF ev]]) (intro runs_marked marked disjI2, assumption+, intro same 2, assumption)
      with 2 show ?case by (simp add: runs_return low_refl)
    qed
  qed simp
qed

lemma runs_join:
  assumes ev: "\<And>n. runs ev_low (ev n) (ev' n)"
  shows "runs ev_low (evaluate_join limits ev ns) (evaluate_join limits ev' ns)"
proof (cases "1 \<le> length ns \<and> length ns \<le> 2")
  case True
  then have arity: "\<not> \<not> (1 \<le> length ns \<and> length ns \<le> 2)" by blast
  show ?thesis
    unfolding evaluate_join_def if_not_P[OF arity] Let_def
  proof (rule runs_taint[OF runs_value[OF ev]], goal_cases)
    case (1 v w)
    then show ?case
      by (intro runs_marked marks_bind contains_marked(4)) (auto simp: any_sensitive_def and_then_opt_eq_Ok split: if_splits)
  next
    case (2 v)
    have pair: "runs (list_all2 low) (and_then_opt (evaluate_value ev (ns ! 1)) (\<lambda>separator. Some (Ok [v, separator])))
       (and_then_opt (evaluate_value ev' (ns ! 1)) (\<lambda>separator. Some (Ok [v, separator])))"
      by (rule runs_bind[OF runs_value[OF ev]]) (use 2 in \<open>simp add: low_refl\<close>)
    have "runs ev_low (and_then_opt (Some (join vs maximum)) return) (and_then_opt (Some (join ws maximum)) return)"
      if "list_all2 low vs ws" for vs ws maximum
      using that low_all_sensitive[OF that] low_all_eq[OF that] contains_same(4)[of vs]
      by (cases "any_sensitive vs") (auto intro!: runs_marked contains_marked(4))
    with 2 pair show ?case
      by (intro runs_bind[where R = "list_all2 low"]) (auto simp: low_refl)
  qed
qed (auto simp: evaluate_join_def)

section \<open>Templates\<close>

definition hidden :: "utext \<times> bool \<Rightarrow> utext \<times> bool \<Rightarrow> bool" where
  "hidden = (\<lambda>(s, b) (t, c). b = c \<and> (b \<or> s = t))"

lemma hidden_pair [simp]: "hidden (s, b) (t, c) \<longleftrightarrow> b = c \<and> (b \<or> s = t)"
  by (simp add: hidden_def)

lemma runs_append:
  "b \<or> written = written' \<and> s = s' \<Longrightarrow>
   runs (\<lambda>w w'. b \<or> w = w') (Some (append_bounded written s maximum)) (Some (append_bounded written' s' maximum))"
  by (auto simp: runs_def)

lemma runs_recall:
  assumes arg: "\<And>i. runs low (arg i) (arg' i)"
    and cache: "list_all2 (rel_option hidden) cache cache'" and i: "i < length cache"
  shows "runs (rel_prod hidden (\<lambda>k k'. list_all2 (rel_option hidden) k k' \<and> length k = length cache)) (recall arg i cache) (recall arg' i cache')"
proof -
  have new: "runs (rel_prod hidden (\<lambda>k k'. list_all2 (rel_option hidden) k k' \<and> length k = length cache))
     (and_then_opt (arg i) (\<lambda>v. Some (Ok ((to_string v, is_sensitive v), cache[i := Some (to_string v, is_sensitive v)]))))
     (and_then_opt (arg' i) (\<lambda>v. Some (Ok ((to_string v, is_sensitive v), cache'[i := Some (to_string v, is_sensitive v)]))))"
    by (rule runs_taint[OF arg]) (simp_all add: cache list_all2_update_cong)
  from list_all2_nthD[OF cache i] show ?thesis
    by (cases "cache ! i"; cases "cache' ! i") (simp_all add: recall_def Let_def new cache)
qed

lemma runs_format_loop:
  assumes arg: "\<And>i. runs low (arg i) (arg' i)"
  shows "list_all2 (rel_option hidden) cache cache' \<Longrightarrow> length cache = count \<Longrightarrow> b \<or> written = written' \<Longrightarrow>
    runs hidden (format_loop arg count maximum template written cache b) (format_loop arg' count maximum template written' cache' b)"
proof (induction template arbitrary: written written' cache cache' b rule: length_induct)
  case (1 template)
  show ?case
  proof (cases template)
    case Nil
    then show ?thesis using 1 by (simp add: format_loop.simps[where template = "[]"])
  next
    case (Cons c rest)
    have IH: "runs hidden (format_loop arg count maximum t w k s) (format_loop arg' count maximum t w' k' s)"
      if "length t \<le> length rest" "s \<or> w = w'" "list_all2 (rel_option hidden) k k'" "length k = count" for t w w' k k' s
      using 1 that Cons by auto
    have step: "runs hidden
        (and_then_opt (Some (append_bounded written s maximum)) (\<lambda>w. format_loop arg count maximum t w k v))
        (and_then_opt (Some (append_bounded written' s' maximum)) (\<lambda>w. format_loop arg' count maximum t w k' v))"
      if "length t \<le> length rest" "v \<or> written = written' \<and> s = s'" "list_all2 (rel_option hidden) k k'" "length k = count"
      for t s s' k k' v
      by (rule runs_bind[OF runs_append[OF that(2)]]) (intro IH that)
    have placeholder: "runs hidden
        (and_then_opt (recall arg index cache) (\<lambda>((s, value_sensitive), cache).
           and_then_opt (Some (append_bounded written s maximum)) (\<lambda>written.
           format_loop arg count maximum t written cache (b \<or> value_sensitive))))
        (and_then_opt (recall arg' index cache') (\<lambda>((s, value_sensitive), cache).
           and_then_opt (Some (append_bounded written' s maximum)) (\<lambda>written.
           format_loop arg' count maximum t written cache (b \<or> value_sensitive))))"
      if t: "length t \<le> length rest" and i: "index < count" for t index
    proof (rule runs_bind[OF runs_recall[OF arg]])
      show "list_all2 (rel_option hidden) cache cache'" "index < length cache" using 1 i by simp_all
    next
      fix x y assume xy: "rel_prod hidden (\<lambda>k k'. list_all2 (rel_option hidden) k k' \<and> length k = length cache) x y"
      obtain s v k s' v' k' where "x = ((s, v), k)" "y = ((s', v'), k')" by (metis surj_pair)
      with xy have r: "x = ((s, v), k)" "y = ((s', v), k')" "v \<or> s = s'" "list_all2 (rel_option hidden) k k'" "length k = length cache"
        by auto
      show "runs hidden
          ((\<lambda>((s, v), cache). and_then_opt (Some (append_bounded written s maximum)) (\<lambda>written.
             format_loop arg count maximum t written cache (b \<or> v))) x)
          ((\<lambda>((s, v), cache). and_then_opt (Some (append_bounded written' s maximum)) (\<lambda>written.
             format_loop arg' count maximum t written cache (b \<or> v))) y)"
        unfolding r prod.case by (rule step) (use 1(3,4) t r in auto)
    qed
    have plain: "runs hidden
        (and_then_opt (Some (append_bounded written s maximum)) (\<lambda>w. format_loop arg count maximum t w cache b))
        (and_then_opt (Some (append_bounded written' s maximum)) (\<lambda>w. format_loop arg' count maximum t w cache' b))"
      if "length t \<le> length rest" for t s
      using 1 that by (intro step) auto
    have inside: "runs hidden
        (and_then_opt (Some (placeholder_index p count)) f) (and_then_opt (Some (placeholder_index p count)) g)"
      if "\<And>index. index < count \<Longrightarrow> runs hidden (f index) (g index)" for p f g
      using that by (cases "placeholder_index p count") (auto simp: placeholder_index_def Let_def split: if_splits option.splits)
    show ?thesis
      unfolding Cons format_loop.simps[where template = "c # rest"] list.case
      by (auto intro!: plain inside placeholder dest: split_once_shorter split: option.splits)
  qed
qed

lemma format_loop_flag:
  "format_loop arg count maximum template written cache True = Some (Ok r) \<Longrightarrow> snd r"
proof (induction template arbitrary: written cache rule: length_induct)
  case (1 template)
  have IH: "snd r" if "format_loop arg count maximum t w k True = Some (Ok r)" "length t < length template" for t w k
    using 1(1) that by blast
  show ?case
  proof (cases template)
    case Nil
    then show ?thesis using 1(2) by (auto simp: format_loop.simps[where template = "[]"])
  next
    case (Cons c rest)
    from 1(2) show ?thesis
      unfolding Cons format_loop.simps[where template = "c # rest"] list.case
      by (auto simp: and_then_opt_eq_Ok Cons elim!: IH dest!: split_once_shorter split: if_splits option.splits)
  qed
qed

lemma marks_checked_return: "is_explicitly_sensitive v \<Longrightarrow> marks (checked_return limits v)"
  by (auto simp: marks_def checked_return_def and_then_opt_eq_Ok return_def plain_def)

lemma runs_format:
  assumes ev: "\<And>n. runs ev_low (ev n) (ev' n)"
  shows "runs ev_low (evaluate_format limits ev ns) (evaluate_format limits ev' ns)"
proof (cases "ns = [] \<or> length ns > 255")
  case False
  show ?thesis
    unfolding evaluate_format_def if_not_P[OF False]
  proof (rule runs_taint[OF runs_value[OF ev]], goal_cases)
    case (1 v w)
    then show ?case
      by (intro runs_marked marks_bind marks_checked_return)
         (auto simp: format_template_def and_then_opt_eq_Ok dest!: format_loop_flag)
  next
    case (2 v)
    have "list_all2 (rel_option hidden) (replicate n None) (replicate n None)" for n
      by (simp add: list_all2_conv_all_nth)
    then have "runs low (format_template (to_string v) b n maximum (\<lambda>i. evaluate_value ev (tl ns ! i)))
        (format_template (to_string v) b n maximum (\<lambda>i. evaluate_value ev' (tl ns ! i)))" for b n maximum
      unfolding format_template_def
      by (intro runs_bind[OF runs_format_loop] runs_value[OF ev]) (auto simp: low_inherit low_refl)
    then show ?case by (rule runs_bind) (rule runs_checked_return)
  qed
qed (auto simp: evaluate_format_def)

section \<open>Programs\<close>

lemma json_unmarked:
  "json_value lib limits node depth document counters = Ok (v, c) \<Longrightarrow> \<not> is_sensitive v"
  "json_values lib limits node depth documents counters = Ok (vs, c) \<Longrightarrow> \<not> list_ex is_sensitive vs"
  "json_entries lib limits node depth members counters = Ok (es, c) \<Longrightarrow> \<not> list_ex (\<lambda>(k, v). is_sensitive v) es"
proof (induction lib limits node depth document counters and lib limits node depth documents counters
    and lib limits node depth members counters arbitrary: v c and vs c and es c rule: json_value_json_values_json_entries.induct)
  case (1 lib limits node depth document items k)
  then show ?case
    by (cases document) (auto simp: json_value.simps GithubValue_number_def GithubValue_array_def GithubObject_new_def result_simps
        split: if_splits)
qed (auto simp: result_simps)

lemma from_json_low: "\<not> any_sensitive vs \<Longrightarrow> from_json lib limits node vs = Ok v \<Longrightarrow> low v v"
  by (cases vs) (auto simp: from_json_def result_simps arity_range_def any_sensitive_def intro!: low_refl dest: json_unmarked(1)
      split: prod.splits if_splits)

lemma runs_if: "(P \<Longrightarrow> runs R p q) \<Longrightarrow> (\<not> P \<Longrightarrow> runs R p' q') \<Longrightarrow> runs R (if P then p else p') (if P then q else q')"
  by simp

lemma runs_call_values:
  assumes ctx: "contexts_agree c d" and vs: "list_all2 low vs ws"
  shows "runs ev_low
     (and_then_opt (Some (if name = chars ''fromjson'' then from_json lib limits i vs
          else if name = chars ''tojson'' then to_json lib limits vs
          else case extension c name vs of None \<Rightarrow> Err UnavailableContext | Some r \<Rightarrow> r))
        (\<lambda>v. checked_return limits (inherit_sensitivity (any_sensitive vs) v)))
     (and_then_opt (Some (if name = chars ''fromjson'' then from_json lib limits i ws
          else if name = chars ''tojson'' then to_json lib limits ws
          else case extension d name ws of None \<Rightarrow> Err UnavailableContext | Some r \<Rightarrow> r))
        (\<lambda>v. checked_return limits (inherit_sensitivity (any_sensitive ws) v)))"
proof (cases "any_sensitive vs")
  case True
  with low_all_sensitive[OF vs] show ?thesis
    by (intro runs_marked marks_bind) (simp_all add: marks_checked_return)
next
  case False
  then have same: "ws = vs" "extension d = extension c" using low_all_eq[OF vs] ctx by (auto simp: contexts_agree_def)
  show ?thesis
    unfolding same
  proof (rule runs_bind[where R = low])
    show "runs low
       (Some (if name = chars ''fromjson'' then from_json lib limits i vs
          else if name = chars ''tojson'' then to_json lib limits vs
          else case extension c name vs of None \<Rightarrow> Err UnavailableContext | Some r \<Rightarrow> r))
       (Some (if name = chars ''fromjson'' then from_json lib limits i vs
          else if name = chars ''tojson'' then to_json lib limits vs
          else case extension c name vs of None \<Rightarrow> Err UnavailableContext | Some r \<Rightarrow> r))"
      using ctx False
      by (intro runs_same) (auto simp: contexts_agree_def to_json_def result_simps intro: from_json_low low_refl split: if_splits option.splits)
  qed (simp add: False runs_checked_return)
qed

lemma runs_call:
  assumes ev: "\<And>n. runs ev_low (ev n) (ev' n)" and ctx: "contexts_agree c d"
  shows "runs ev_low (evaluate_call lib c limits i ev called ns) (evaluate_call lib d limits i ev' called ns)"
proof -
  have status: "context_status d = context_status c" using ctx by (simp add: contexts_agree_def)
  show ?thesis
    unfolding evaluate_call_def Let_def status evaluate_case_def
    by (intro runs_if runs_Err runs_return low_refl runs_case runs_format runs_binary runs_join ev
        runs_bind[OF runs_all[OF ev] runs_call_values[OF ctx]]) simp_all
qed

lemma runs_node:
  assumes ev: "\<And>n. runs ev_low (ev n) (ev' n)" and ctx: "contexts_agree c d"
    and literal: "\<And>v. node = Literal v \<Longrightarrow> \<not> is_sensitive v"
  shows "runs ev_low (evaluate_node lib c limits wildcard ev i node) (evaluate_node lib d limits wildcard ev' i node)"
proof (cases node)
  case (Named name)
  have "rel_option low (named_value c name) (named_value d name)" using ctx by (simp add: contexts_agree_def)
  then have "low (case named_value c name of Some v \<Rightarrow> v | None \<Rightarrow> Null) (case named_value d name of Some v \<Rightarrow> v | None \<Rightarrow> Null)"
    by (cases rule: option.rel_cases) (simp_all add: low_refl)
  then show ?thesis by (simp add: evaluate_node_def Named runs_checked_return)
next
  case (Index target index)
  show ?thesis
    unfolding evaluate_node_def Index Node.case by (rule runs_bind[OF ev]) (rule runs_index[OF ev])
next
  case (Negation operand)
  show ?thesis
    unfolding evaluate_node_def Negation Node.case
    by (rule runs_taint[OF runs_value[OF ev]]) (auto intro!: runs_return low_inherit low_refl)
next
  case (Compare operator l r)
  show ?thesis
    unfolding evaluate_node_def Compare Node.case
  proof (rule runs_taint[OF runs_value[OF ev]], goal_cases)
    case (1 v w)
    then show ?case by (intro runs_bind[OF runs_value[OF ev]] runs_return) (simp add: low_inherit)
  next
    case (2 v)
    then show ?case by (intro runs_taint[OF runs_value[OF ev]] runs_return) (simp_all add: low_inherit low_refl)
  qed
next
  case (Logical operator operands)
  show ?thesis
    unfolding evaluate_node_def Logical Node.case evaluate_logical_def by (rule runs_logical[OF ev]) (simp add: low_refl)
next
  case (Call name arguments)
  show ?thesis
    unfolding evaluate_node_def Call Node.case by (rule runs_call[OF ev ctx])
qed (use literal in \<open>simp_all add: evaluate_node_def runs_return low_refl\<close>)

lemma compile_literals:
  assumes "try_fold compile_step code (ns, stack) = Ok (ns', stack')" "\<And>v. Literal v \<in> set ns \<Longrightarrow> \<not> is_sensitive v"
  shows "Literal v \<in> set ns' \<Longrightarrow> \<not> is_sensitive v"
  using assms
proof (induction code arbitrary: ns stack)
  case (Cons instruction code)
  then obtain node stack1 where step: "compile_node instruction stack = Ok (node, stack1)"
      "try_fold compile_step code (ns @ [node], length ns # stack1) = Ok (ns', stack')"
    by (auto simp: compile_step_def[of instruction "(ns, stack)"] result_simps)
  have "\<not> is_sensitive v" if "node = Literal v" for v
    using step(1) that
    by (cases instruction) (auto simp: result_simps literal_value_def GithubValue_number_def split: ExpressionLiteral.splits)
  then show ?case using Cons.prems by (intro Cons.IH[OF _ step(2)]) auto
qed simp

lemma compile_nodes:
  assumes "Tree_compile code = Ok tree"
  obtains i where "try_fold compile_step code ([], []) = Ok (nodes tree, [i])"
proof -
  from assms obtain ns stack where "try_fold compile_step code ([], []) = Ok (ns, stack)"
      "(case stack of [i] \<Rightarrow> Ok \<lparr>nodes = ns, root = i\<rparr> | _ \<Rightarrow> Err Internal) = Ok tree"
    by (auto simp: Tree_compile_def and_then_eq_Inr)
  then show thesis using that by (cases stack; cases "tl stack") auto
qed

lemma runs_tree:
  assumes "contexts_agree c d" "\<And>v. Literal v \<in> set ns \<Longrightarrow> \<not> is_sensitive v"
  shows "runs ev_low (Tree_evaluate fuel lib c limits ns i) (Tree_evaluate fuel lib d limits ns i)"
proof (induction fuel arbitrary: i)
  case (Suc fuel)
  have "runs ev_low (evaluate_node lib c limits (is_wildcard ns) (Tree_evaluate fuel lib c limits ns) i (ns ! i))
     (evaluate_node lib d limits (is_wildcard ns) (Tree_evaluate fuel lib d limits ns) i (ns ! i))" if "i < length ns"
    using that assms(2) by (intro runs_node Suc assms(1)) (metis nth_mem)
  then show ?case by simp
qed simp


lemma sample_contexts_agree: "contexts_agree (sample_context s) (sample_context t)"
  by (simp add: contexts_agree_def sample_context_def low_def)
     (auto simp: is_primitive_def intro!: agree.intros)


text \<open>C27. A projection out of a filtered array drops the mark of an element that has nothing to project: whether a
  sensitive object has a property shows in the length of a result, which carries no mark when it has not.\<close>

theorem projection_reveals_missing_property:
  assumes "object_get (upper lib) entries key = None" "object_get (upper lib) others key = Some v"
    "0 < collection_items limits"
  shows "\<exists>e f. index_filtered lib limits i (Array j [Sensitive (Object k entries)]) (Some (String key)) = Ok e \<and>
      ev_value e = Array i [] \<and> \<not> is_sensitive (ev_value e) \<and>
    index_filtered lib limits i (Array j [Sensitive (Object k others)]) (Some (String key)) = Ok f \<and>
      ev_value f = Array i [mark_sensitive v] \<and> is_sensitive (ev_value f)"
  using assms
  by (simp add: index_filtered_def project_def primitive_index_string_def is_primitive_def to_string_def GithubValue_array_def
      MAX_CONSTRUCTION_ITEMS_def inherit_sensitivity_def mark_sensitive_def explicit_is_sensitive)

theorem projection_reveals_missing_property_witness:
  "\<exists>e f. index_filtered sample_library EvalLimits_default (Host 0) (Array (Host 1) [Sensitive (Object (Host 2) [])])
       (Some (String (chars ''x''))) = Ok e \<and>
     ev_value e = Array (Host 0) [] \<and> \<not> is_sensitive (ev_value e) \<and>
   index_filtered sample_library EvalLimits_default (Host 0) (Array (Host 1) [Sensitive (Object (Host 2) [(chars ''x'', Null)])])
       (Some (String (chars ''x''))) = Ok f \<and>
     ev_value f = Array (Host 0) [mark_sensitive Null] \<and> is_sensitive (ev_value f)"
  by (rule projection_reveals_missing_property) (simp_all add: object_get_def EvalLimits_default_def)

end
