(* ===== verification/Spec2Isabelle.thy ===== *)
theory Spec2Isabelle
  imports JournalDelivery Digest SchedulingPolicy CronNext ExprSafe ExprLimits ExprFlow
begin

text \<open>
  Verification development for the Automata CI runner.
\<close>

end
